(* ===== verification/Ursula_Prelude.thy ===== *)
theory Ursula_Prelude
  imports
    "HOL-Library.AList"
    "HOL-Library.Char_ord"
    "HOL-Library.List_Lexorder"
    "HOL-Library.Multiset"
    "HOL-Library.Sublist"
    "HOL-Library.Word"
begin

text \<open>
  Shared ground of the development.  Machine integers of the source
  (\<^verbatim>\<open>u64\<close>, \<^verbatim>\<open>usize\<close>, \<^verbatim>\<open>u32\<close>) are natural numbers with the saturation of
  \<^verbatim>\<open>saturating_add\<close> and \<^verbatim>\<open>saturating_mul\<close> written out; \<^verbatim>\<open>saturating_sub\<close> is the
  truncated subtraction of \<^typ>\<open>nat\<close>.  Bytes are 8-bit words, strings are the
  lists of their UTF-8 bytes read as characters, and hash maps are association
  lists with distinct keys.  The theory also holds the generic list and
  association-list lemmas that the components share.
\<close>

type_synonym u64 = nat
type_synonym u32 = nat
type_synonym usize = nat
type_synonym byte = "8 word"
type_synonym ('k, 'v) hashmap = "('k \<times> 'v) list"

text \<open>\<^verbatim>\<open>std::cmp::Ordering\<close>, \<^verbatim>\<open>Ord::cmp\<close> of a type of the standard library and \<^verbatim>\<open>Ordering::then_with\<close>.\<close>

datatype ordering = Less_Ord | Equal_Ord | Greater_Ord

definition ord_cmp :: "'a :: linorder \<Rightarrow> 'a \<Rightarrow> ordering" where
  "ord_cmp a b = (if a < b then Less_Ord else if a = b then Equal_Ord else Greater_Ord)"

fun then_with :: "ordering \<Rightarrow> ordering \<Rightarrow> ordering" where
  "then_with Equal_Ord other = other"
| "then_with first _ = first"

lemma ord_cmp_iff [simp]:
  "ord_cmp a b = Less_Ord \<longleftrightarrow> a < b" "ord_cmp a b = Equal_Ord \<longleftrightarrow> a = b" "ord_cmp a b = Greater_Ord \<longleftrightarrow> b < a"
  by (auto simp: ord_cmp_def)

lemma then_with_iff [simp]:
  "then_with a b = Less_Ord \<longleftrightarrow> a = Less_Ord \<or> a = Equal_Ord \<and> b = Less_Ord"
  "then_with a b = Equal_Ord \<longleftrightarrow> a = Equal_Ord \<and> b = Equal_Ord"
  "then_with a b = Greater_Ord \<longleftrightarrow> a = Greater_Ord \<or> a = Equal_Ord \<and> b = Greater_Ord"
  by (cases a; simp)+

text \<open>A comparison is determined by when it is less and when it is greater.\<close>

lemma ordering_eqI: "(x = Less_Ord \<longleftrightarrow> y = Less_Ord) \<Longrightarrow> (x = Greater_Ord \<longleftrightarrow> y = Greater_Ord) \<Longrightarrow> x = y"
  by (cases x; cases y) simp_all

named_theorems u64_simps \<open>evaluation of saturating 64-bit arithmetic\<close>

definition u64_max :: nat where
  "u64_max = 18446744073709551615"

definition u32_max :: nat where
  "u32_max = 4294967295"

definition sat_add :: "nat \<Rightarrow> nat \<Rightarrow> nat" where
  "sat_add a b = min (a + b) u64_max"

definition sat_mul :: "nat \<Rightarrow> nat \<Rightarrow> nat" where
  "sat_mul a b = min (a * b) u64_max"

definition checked_add :: "nat \<Rightarrow> nat \<Rightarrow> nat option" where
  "checked_add a b = (if a + b \<le> u64_max then Some (a + b) else None)"

definition div_ceil :: "nat \<Rightarrow> nat \<Rightarrow> nat" where
  "div_ceil a b = (if a mod b = 0 then a div b else a div b + 1)"

definition keys_of :: "('k \<times> 'v) list \<Rightarrow> 'k set" where
  "keys_of m = fst ` set m"

definition string_bytes :: "string \<Rightarrow> byte list" where
  "string_bytes s = map of_char s"

text \<open>\<^verbatim>\<open>u64::to_le_bytes\<close> and \<^verbatim>\<open>u64::from_le_bytes\<close>.\<close>

fun le_bytes :: "nat \<Rightarrow> nat \<Rightarrow> byte list" where
  "le_bytes 0 n = []"
| "le_bytes (Suc k) n = word_of_nat (n mod 256) # le_bytes k (n div 256)"

fun of_le_bytes :: "byte list \<Rightarrow> nat" where
  "of_le_bytes [] = 0"
| "of_le_bytes (b # bs) = unat b + 256 * of_le_bytes bs"

text \<open>\<^verbatim>\<open>slice::get(a..b)\<close>, \<^verbatim>\<open>slice::chunks\<close> and \<^verbatim>\<open>partition_point\<close> of the standard library; the
  last one's result is documented only for a list that the predicate partitions, where
  it is the length of the prefix that satisfies it.\<close>

definition slice_get :: "'a list \<Rightarrow> nat \<Rightarrow> nat \<Rightarrow> 'a list option" where
  "slice_get xs a b = (if a \<le> b \<and> b \<le> length xs then Some (take (b - a) (drop a xs)) else None)"

function chunks :: "nat \<Rightarrow> 'a list \<Rightarrow> 'a list list" where
  "chunks n xs = (if n = 0 \<or> xs = [] then [] else take n xs # chunks n (drop n xs))"
  by pat_completeness auto
termination chunks
  by (relation "measure (\<lambda>(n, xs). length xs)") auto

definition partition_point :: "('a \<Rightarrow> bool) \<Rightarrow> 'a list \<Rightarrow> nat" where
  "partition_point p xs = length (takeWhile p xs)"

section \<open>Saturating arithmetic\<close>

lemma sat_add_le_max [simp]: "sat_add a b \<le> u64_max"
  by (simp add: sat_add_def)

lemma sat_mul_le_max [simp]: "sat_mul a b \<le> u64_max"
  by (simp add: sat_mul_def)

lemma sat_add_commute: "sat_add a b = sat_add b a"
  by (simp add: sat_add_def add.commute)

lemma sat_add_assoc: "sat_add (sat_add a b) c = sat_add a (sat_add b c)"
  by (simp add: sat_add_def min_def)

lemma sat_add_left_commute: "sat_add a (sat_add b c) = sat_add b (sat_add a c)"
  by (metis sat_add_assoc sat_add_commute)

lemmas sat_add_ac = sat_add_assoc sat_add_commute sat_add_left_commute

lemma sat_add_zero [simp]: "a \<le> u64_max \<Longrightarrow> sat_add a 0 = a" "a \<le> u64_max \<Longrightarrow> sat_add 0 a = a"
  by (simp_all add: sat_add_def)

lemma sat_add_exact: "a + b \<le> u64_max \<Longrightarrow> sat_add a b = a + b"
  by (simp add: sat_add_def)

lemma sat_add_mono: "a \<le> a' \<Longrightarrow> b \<le> b' \<Longrightarrow> sat_add a b \<le> sat_add a' b'"
  by (simp add: sat_add_def min_def)

lemma sat_add_ge: "a \<le> u64_max \<Longrightarrow> a \<le> sat_add a b"
  by (simp add: sat_add_def)

lemma sat_add_greater: "a < u64_max \<Longrightarrow> 0 < b \<Longrightarrow> a < sat_add a b"
  by (simp add: sat_add_def)

lemma checked_add_Some: "checked_add a b = Some c \<longleftrightarrow> c = a + b \<and> a + b \<le> u64_max"
  by (auto simp: checked_add_def)

lemma fold_sat_add:
  "a \<le> u64_max \<Longrightarrow> fold (\<lambda>x acc. sat_add acc (f x)) xs a = min (a + (\<Sum>x\<leftarrow>xs. f x)) u64_max"
  by (induction xs arbitrary: a) (auto simp: sat_add_def min_def)

declare sat_add_def [u64_simps] sat_mul_def [u64_simps] u64_max_def [u64_simps]
  checked_add_def [u64_simps]

section \<open>Little-endian bytes\<close>

lemma length_le_bytes [simp]: "length (le_bytes k n) = k"
  by (induction k arbitrary: n) auto

lemma of_le_bytes_le_bytes: "n < 256 ^ k \<Longrightarrow> of_le_bytes (le_bytes k n) = n"
proof (induction k arbitrary: n)
  case (Suc k)
  then have "n div 256 < 256 ^ k" by (simp add: less_mult_imp_div_less mult.commute)
  with Suc.IH have "of_le_bytes (le_bytes k (n div 256)) = n div 256" by blast
  then show ?case by (simp add: unat_of_nat mod_mod_cancel)
qed simp

lemma of_le_bytes_bound: "of_le_bytes bs < 256 ^ length bs"
proof (induction bs)
  case (Cons b bs)
  have "unat b < 256" using unsigned_less[of b, where ?'a=nat] by simp
  with Cons show ?case by simp
qed simp

section \<open>Association lists as hash maps\<close>

lemma keys_of_dom: "keys_of m = dom (map_of m)"
  by (simp add: keys_of_def dom_map_of_conv_image_fst)

lemma keys_of_simps [simp]:
  "keys_of [] = {}"
  "keys_of (p # m) = insert (fst p) (keys_of m)"
  "keys_of (AList.update k v m) = insert k (keys_of m)"
  "keys_of (AList.delete k m) = keys_of m - {k}"
  by (auto simp: keys_of_dom update_conv' delete_conv' split: if_splits)

lemma map_of_None_keys: "map_of m k = None \<longleftrightarrow> k \<notin> keys_of m"
  by (auto simp: keys_of_dom dom_def)

lemma map_of_Some_keys: "map_of m k = Some v \<Longrightarrow> k \<in> keys_of m"
  by (auto simp: keys_of_dom)

lemma map_of_delete_iff: "map_of (AList.delete k m) k' = (if k' = k then None else map_of m k')"
  by (simp add: delete_conv')

lemma map_of_update_iff: "map_of (AList.update k v m) k' = (if k' = k then Some v else map_of m k')"
  by (simp add: update_conv')

lemma distinct_keys_update [simp]:
  "distinct (map fst m) \<Longrightarrow> distinct (map fst (AList.update k v m))"
  by (rule distinct_update)

lemma distinct_keys_delete [simp]:
  "distinct (map fst m) \<Longrightarrow> distinct (map fst (AList.delete k m))"
  by (rule distinct_delete)

lemma sum_list_update_entry:
  fixes f :: "'k \<times> 'v \<Rightarrow> nat"
  assumes "distinct (map fst m)" "map_of m k = Some v"
  shows "(\<Sum>p\<leftarrow>AList.update k w m. f p) + f (k, v) = (\<Sum>p\<leftarrow>m. f p) + f (k, w)"
  using assms by (induction m) (auto split: if_splits)

lemma sum_list_update_new:
  fixes f :: "'k \<times> 'v \<Rightarrow> nat"
  assumes "map_of m k = None"
  shows "(\<Sum>p\<leftarrow>AList.update k w m. f p) = (\<Sum>p\<leftarrow>m. f p) + f (k, w)"
  using assms by (induction m) (auto split: if_splits)

lemma sum_list_delete_entry:
  fixes f :: "'k \<times> 'v \<Rightarrow> nat"
  assumes "distinct (map fst m)" "map_of m k = Some v"
  shows "(\<Sum>p\<leftarrow>AList.delete k m. f p) + f (k, v) = (\<Sum>p\<leftarrow>m. f p)"
proof -
  have notin: "AList.delete k m' = m'" if "k \<notin> fst ` set m'" for m' :: "('k \<times> 'v) list"
    using that by (induction m') (auto simp: AList.delete_eq)
  show ?thesis using assms
    by (induction m) (auto simp: notin[unfolded AList.delete_eq] AList.delete_eq split: if_splits)
qed

section \<open>Slices and chunks\<close>

declare chunks.simps [simp del]

lemma chunks_Nil [simp]: "chunks n [] = []"
  by (simp add: chunks.simps)

lemma chunks_step: "0 < n \<Longrightarrow> xs \<noteq> [] \<Longrightarrow> chunks n xs = take n xs # chunks n (drop n xs)"
  by (simp add: chunks.simps)

lemma concat_chunks: "0 < n \<Longrightarrow> concat (chunks n xs) = xs"
proof (induction n xs rule: chunks.induct)
  case (1 n xs)
  then show ?case by (cases "xs = []") (simp_all add: chunks_step)
qed

lemma chunks_length:
  "0 < n \<Longrightarrow> c \<in> set (chunks n xs) \<Longrightarrow> c \<noteq> [] \<and> length c \<le> n"
proof (induction n xs rule: chunks.induct)
  case (1 n xs)
  then show ?case by (cases "xs = []") (auto simp: chunks_step)
qed

lemma drop_partition_point: "drop (partition_point p xs) xs = dropWhile p xs"
  by (simp add: partition_point_def dropWhile_eq_drop)

lemma slice_get_Some:
  "slice_get xs a b = Some ys \<longleftrightarrow> a \<le> b \<and> b \<le> length xs \<and> ys = take (b - a) (drop a xs)"
  by (auto simp: slice_get_def)

lemma mset_filter_split:
  "mset (map f xs) = mset (map f (filter P xs)) + mset (map f (filter (\<lambda>x. \<not> P x) xs))"
  by (induction xs) auto

lemma filter_key_distinct:
  "distinct (map f xs) \<Longrightarrow> x \<in> set xs \<Longrightarrow> f x = k \<Longrightarrow> filter (\<lambda>y. f y = k) xs = [x]"
  by (induction xs) (auto simp: filter_empty_conv image_iff)

end
