(* ===== verification/Model.thy ===== *)
theory Model
  imports Ursula_Prelude
begin

text \<open>
  The data of \<^verbatim>\<open>crates/ursula-stream/src/{model,history,usage,snapshot,response,command}.rs\<close>.
  Structs are records whose fields carry a short prefix of the struct's name,
  enums are datatypes with the source's constructors.  The human-readable
  \<^verbatim>\<open>message\<close> of an error response is left out; its code, next offset and
  structured context are kept.
\<close>

section \<open>Identities and stream metadata\<close>

datatype bucket_stream_id = BucketStreamId (bsi_bucket: string) (bsi_stream: string)

datatype stream_status = Open | Closed_Status

record stream_metadata =
  md_stream_id :: bucket_stream_id
  md_content_type :: string
  md_status :: stream_status
  md_tail_offset :: u64
  md_last_stream_seq :: "string option"
  md_stream_ttl_seconds :: "u64 option"
  md_stream_expires_at_ms :: "u64 option"
  md_created_at_ms :: u64
  md_last_ttl_touch_at_ms :: u64

datatype content_fault = MissingContentType_Fault | DigestMismatch_Fault | MalformedJson_Fault

datatype incarnation_check = Absent | Matched

datatype opened = AboveFloor | BelowFloor

datatype write_kind = Append_Kind | CloseOnly

section \<open>Producers\<close>

type_synonym write_digest = "byte list"

text \<open>The protobuf message \<^verbatim>\<open>ProducerRequestV1\<close>; \<^verbatim>\<open>content_fault\<close> is its enum number.\<close>

record producer_request =
  pr_producer_id :: string
  pr_producer_epoch :: u64
  pr_producer_seq :: u64
  pr_digest :: "byte list option"
  pr_content_fault :: nat

record write_receipt =
  wr_start_offset :: u64
  wr_next_offset :: u64
  wr_closed :: bool

record closed_epoch =
  ce_epoch :: u64
  ce_seq :: u64

record producer_receipt =
  prc_receipt :: write_receipt
  prc_digest :: "write_digest option"

record producer_state =
  ps_epoch :: u64
  ps_last_seq :: u64
  ps_claim_digest :: "write_digest option"
  ps_newest :: producer_receipt
  ps_closed_epoch :: "closed_epoch option"
  ps_opened :: opened
  ps_history :: u64
  ps_last_seen_ms :: u64

text \<open>A snapshot of a producer is its state with its id.\<close>

record producer_snapshot = producer_state +
  psn_producer_id :: string

section \<open>Cold storage references and cold garbage collection\<close>

record cold_chunk_ref =
  cc_start_offset :: u64
  cc_end_offset :: u64
  cc_s3_path :: string
  cc_object_size :: u64
  cc_object_offset :: u64
  cc_shared_object :: bool
  cc_payload_digest :: string

record object_payload_ref =
  op_start_offset :: u64
  op_end_offset :: u64
  op_s3_path :: string
  op_object_size :: u64
  op_object_offset :: u64

record external_payload_ref =
  ep_s3_path :: string
  ep_payload_len :: u64
  ep_object_size :: u64

datatype cold_gc_target = Stream_Target bucket_stream_id | Paths "string list"

record cold_gc_entry =
  gc_seq :: u64
  gc_bucket_id :: string
  gc_not_before_ms :: u64
  gc_target :: cold_gc_target
  gc_cold_generation :: "u64 option"
  gc_defer_attempts :: u32

record cold_gc_plan_entry =
  gp_entry :: cold_gc_entry
  gp_live_cold_generation :: "u64 option"

definition object_payload_ref_of_chunk :: "cold_chunk_ref \<Rightarrow> object_payload_ref" where
  "object_payload_ref_of_chunk chunk =
     \<lparr> op_start_offset = cc_start_offset chunk, op_end_offset = cc_end_offset chunk,
       op_s3_path = cc_s3_path chunk, op_object_size = cc_object_size chunk,
       op_object_offset = cc_object_offset chunk \<rparr>"

section \<open>Hot payload and read plans\<close>

record hot_payload_segment =
  hs_start_offset :: u64
  hs_end_offset :: u64
  hs_payload_start :: usize
  hs_payload_end :: usize

record cold_flush_candidate =
  cf_stream_id :: bucket_stream_id
  cf_cold_generation :: u64
  cf_start_offset :: u64
  cf_end_offset :: u64
  cf_payload :: "byte list"
  cf_payload_digest :: string

record stream_read_object_segment =
  ro_object :: object_payload_ref
  ro_read_start_offset :: u64
  ro_len :: usize

record stream_read_cold_index_segment =
  ri_generation :: u64
  ri_page_id :: u64
  ri_read_start_offset :: u64
  ri_len :: usize

datatype stream_read_segment =
    ColdIndex stream_read_cold_index_segment
  | Object stream_read_object_segment
  | Hot "byte list"

record stream_read_plan =
  rp_incarnation :: u64
  rp_offset :: u64
  rp_next_offset :: u64
  rp_content_type :: string
  rp_segments :: "stream_read_segment list"
  rp_up_to_date :: bool
  rp_closed :: bool

record stream_read =
  sr_offset :: u64
  sr_next_offset :: u64
  sr_content_type :: string
  sr_payload :: "byte list"
  sr_up_to_date :: bool
  sr_closed :: bool

record stream_message_record =
  mr_start_offset :: u64
  mr_end_offset :: u64

record stream_visible_snapshot =
  vs_offset :: u64
  vs_content_type :: string
  vs_payload :: "byte list"
  vs_digest :: string
  vs_object :: "external_payload_ref option"

record stream_bootstrap_plan =
  bp_snapshot :: "stream_visible_snapshot option"
  bp_updates :: "stream_message_record list"
  bp_next_offset :: u64
  bp_content_type :: string
  bp_up_to_date :: bool
  bp_closed :: bool

definition cold_index_page_span_bytes :: u64 where
  "cold_index_page_span_bytes = 64 * 1024 * 1024"

definition bootstrap_max_update_bytes :: u64 where
  "bootstrap_max_update_bytes = 8 * 1024 * 1024"

section \<open>Histories\<close>

record history_leader =
  hl_term :: u64
  hl_node_id :: u64

record history_event =
  he_id :: u64
  he_event_index :: u64
  he_previous :: u64
  he_kept :: u64
  he_leader :: history_leader
  he_imported :: "byte list option"

record inherited_history =
  ih_history :: u64
  ih_offset :: u64

record inherited_report =
  ir_previous_incarnation :: u64
  ir_offset :: u64

section \<open>Usage\<close>

record committed_usage =
  cu_append_bytes :: u64
  cu_records :: u64
  cu_write_units :: u64

record bucket_usage =
  bu_committed_append_bytes :: u64
  bu_committed_records :: u64
  bu_committed_write_units :: u64
  bu_retained_bytes :: u64
  bu_stream_count :: u64

record bucket_usage_snapshot =
  bus_bucket_id :: string
  bus_usage :: bucket_usage

record version_counters =
  vc_committed :: committed_usage
  vc_appends :: u64

datatype last_write = At u64 | Imported

record version_usage =
  vu_seq :: u64
  vu_counters :: version_counters
  vu_history_baseline :: version_counters
  vu_last_write :: last_write
  vu_counted_since :: u64

datatype stream_end = Deleted_End | Expired_End | Purged_End

record end_record =
  er_seq :: u64
  er_stream_id :: bucket_stream_id
  er_created_at_ms :: u64
  er_counted_since :: u64
  er_ended_in :: u64
  er_end :: stream_end
  er_ended_at_ms :: u64
  er_counters :: version_counters
  er_history_baseline :: version_counters
  er_last_write :: last_write

record bucket_retired =
  br_bucket_id :: string
  br_retired :: committed_usage

record usage_snapshot =
  us_genesis :: u64
  us_usage_seq :: u64
  us_retired_through :: u64
  us_retired :: "bucket_retired list"
  us_streams :: "version_usage list"
  us_ends :: "end_record list"

datatype usage_counter = AppendBytes | Records_Counter | WriteUnits

datatype usage_snapshot_error =
    StreamCount u64 u64
  | InvalidSeq u64 u64
  | RetiredEndRecord u64 u64
  | RetiredThroughAhead u64 u64
  | TooManyEndRecords u64 u64
  | DuplicateRetired string
  | TotalsDisagree string usage_counter

section \<open>Group snapshots\<close>

record stream_snapshot_entry =
  se_metadata :: stream_metadata
  se_hot_start_offset :: u64
  se_payload :: "byte list"
  se_hot_segments :: "hot_payload_segment list"
  se_cold_index_generation :: u64
  se_cold_chunks :: "cold_chunk_ref list"
  se_external_segments :: "object_payload_ref list"
  se_retained_offset :: u64
  se_visible_snapshot :: "stream_visible_snapshot option"
  se_producer_states :: "producer_snapshot list"
  se_retired_epoch_watermark :: "u64 option"
  se_history :: u64
  se_inherited :: "inherited_history option"

record stream_snapshot =
  ss_format_version :: u32
  ss_buckets :: "string list"
  ss_erased_buckets :: "string list"
  ss_streams :: "stream_snapshot_entry list"
  ss_pending_cold_gc :: "cold_gc_entry list"
  ss_next_cold_gc_seq :: u64
  ss_bucket_usage :: "bucket_usage_snapshot list"
  ss_last_created_at_ms :: u64
  ss_history :: "history_event option"

datatype stream_snapshot_error =
    DuplicateBucket string
  | DuplicateErasedBucket string
  | ActiveBucketErased string
  | DuplicateStream bucket_stream_id
  | DuplicateProducer bucket_stream_id string
  | MissingBucket bucket_stream_id
  | PayloadLengthMismatch bucket_stream_id u64 u64
  | SnapshotOffsetOutOfRange bucket_stream_id u64 u64
  | BackupFormat "u32 option"
  | UnattributedColdGc u64
  | ColdGcWithoutGeneration u64
  | DuplicateBucketUsage string
  | StreamWithoutHistory bucket_stream_id
  | Usage_Error usage_snapshot_error

section \<open>Responses\<close>

datatype stream_error_code =
    InvalidBucketId | InvalidStreamId | BucketNotFound | BucketErased | StreamNotFound
  | StreamGone | StreamAlreadyExistsConflict | MissingContentType | ContentTypeMismatch
  | EmptyAppend | StreamClosed | StreamSeqConflict | InvalidProducer | ProducerEpochClosed
  | ProducerExpired | ProducerEpochStale | ProducerKeyConflict | ProducerDigestMismatch
  | ProducerSeqConflict | InvalidRetention | OffsetOutOfRange | InvalidColdFlush
  | InvalidSnapshot | SnapshotNotFound | SnapshotConflict | InvalidRecordBoundaries
  | JsonBoundaryUnverified | ImportConflict | ImportInvalid | ProducerLimit
  | CreatedAtOutOfRange | IncarnationMismatch | HistoryPending | HistoryMismatch

datatype closed_by = Claim_By | History_By

datatype producer_refusal =
    EpochClosed u64 closed_by closed_epoch
  | Expired u64
  | StaleEpoch u64
  | KeyConflict u64
  | EpochNotClaimed

datatype stream_error_context =
    StreamClosed_Ctx
  | StaleColdFlushCandidate
  | Producer_Ctx producer_refusal
  | ProducerSeqConflict_Ctx u64 u64
  | StreamIncarnation u64
  | LatestSnapshot u64 string
  | LastStreamSeq string

datatype producer_delivery =
    Applied write_receipt
  | Repeat write_receipt
  | Evicted

record producer_ack =
  pa_epoch :: u64
  pa_seq :: u64
  pa_closed_epoch :: "closed_epoch option"
  pa_delivery :: producer_delivery

datatype producer_early_answer =
    Repeat_Early producer_ack
  | KeyConflict_Early u64

datatype stream_response =
    BucketCreated string
  | BucketAlreadyExists string
  | Created bucket_stream_id u64 bool
  | AlreadyExists u64 bool string "u64 option" "u64 option"
  | Appended u64 u64 bool "producer_ack option"
  | Closed u64 "producer_ack option"
  | Deleted bool
  | ColdFlushed u64
  | ColdCompacted u64 u64
  | SnapshotPublished u64 string
  | RetentionAdvanced u64
  | Accessed bool bool
  | ColdGcAcked u64
  | ColdGcDeferred "u64 option"
  | BucketPurged string u64 u64 u64
  | SnapshotImported u64 u64 u64 bool
  | HistoryStarted u64
  | StreamTidied bool
  | Swept u64 u64
  | ColdRefsOffloaded u64 u64
  | Error stream_error_code "u64 option" "stream_error_context list"

fun refusal_code :: "producer_refusal \<Rightarrow> stream_error_code" where
  "refusal_code (EpochClosed _ _ _) = ProducerEpochClosed"
| "refusal_code (Expired _) = ProducerExpired"
| "refusal_code (StaleEpoch _) = ProducerEpochStale"
| "refusal_code (KeyConflict _) = ProducerKeyConflict"
| "refusal_code EpochNotClaimed = InvalidProducer"

definition ack_is_repeat :: "producer_ack \<Rightarrow> bool" where
  "ack_is_repeat a = (case pa_delivery a of Applied _ \<Rightarrow> False | _ \<Rightarrow> True)"

fun is_producer_repeat :: "stream_response \<Rightarrow> bool" where
  "is_producer_repeat (Appended _ _ _ (Some a)) = ack_is_repeat a"
| "is_producer_repeat (Closed _ (Some a)) = ack_is_repeat a"
| "is_producer_repeat _ = False"

definition error :: "stream_error_code \<Rightarrow> stream_response" where
  "error code = Error code None []"

definition error_with_context ::
  "stream_error_code \<Rightarrow> stream_error_context list \<Rightarrow> stream_response" where
  "error_with_context code context = Error code None context"

definition error_with_next_offset :: "stream_error_code \<Rightarrow> u64 \<Rightarrow> stream_response" where
  "error_with_next_offset code next_offset = Error code (Some next_offset) []"

definition error_with_next_offset_and_context ::
  "stream_error_code \<Rightarrow> u64 \<Rightarrow> stream_error_context list \<Rightarrow> stream_response" where
  "error_with_next_offset_and_context code next_offset context = Error code (Some next_offset) context"

fun is_error :: "stream_response \<Rightarrow> bool" where
  "is_error (Error _ _ _) = True"
| "is_error _ = False"

section \<open>Commands\<close>

datatype stream_command =
    CreateBucket string
  | CreateStream bucket_stream_id string "byte list" bool "string option" "u64 option" "u64 option" u64
  | CreateExternal bucket_stream_id string external_payload_ref u64 bool "string option"
      "u64 option" "u64 option" u64
  | Append bucket_stream_id "string option" "byte list" bool "string option"
      "producer_request option" u64
  | AppendExternal bucket_stream_id "string option" external_payload_ref u64 bool "string option"
      "producer_request option" u64
  | PublishSnapshot bucket_stream_id u64 string "byte list" u64 "u64 option"
  | PublishSnapshotExternal bucket_stream_id u64 string external_payload_ref string u64 "u64 option"
  | AdvanceRetention bucket_stream_id u64 u64 "u64 option"
  | TouchStreamAccess bucket_stream_id u64 bool
  | FlushCold bucket_stream_id cold_chunk_ref u64
  | CompactCold bucket_stream_id "cold_chunk_ref list" cold_chunk_ref u64
  | Close bucket_stream_id "string option" "producer_request option" u64
  | DeleteStream bucket_stream_id u64
  | PurgeBucket string u64
  | AckColdGc u64
  | DeferColdGc u64 u64
  | ImportSnapshot stream_snapshot u64 "byte list" u64
  | NewHistory u64 u64 u64 u64 history_leader
  | TidyStream bucket_stream_id u64
  | Sweep u64 u32 u64
  | OffloadColdRefs bucket_stream_id "object_payload_ref list"
  | IfIncarnation u64 stream_command

definition command_log_overhead_bytes :: u64 where
  "command_log_overhead_bytes = 128"

definition chunk_ref_log_bytes :: u64 where
  "chunk_ref_log_bytes = 160"

definition len_u64 :: "usize \<Rightarrow> u64" where
  "len_u64 n = (if n \<le> u64_max then n else u64_max)"

definition import_entry_bytes :: "stream_snapshot_entry \<Rightarrow> u64" where
  "import_entry_bytes stream =
     (let visible = (case se_visible_snapshot stream of None \<Rightarrow> 0 | Some v \<Rightarrow> length (vs_payload v));
          bodies = sat_add (len_u64 (length (se_payload stream))) (len_u64 visible)
      in sat_add (sat_add command_log_overhead_bytes (sat_mul bodies 2))
           (sat_mul (len_u64 (length (se_cold_chunks stream))) chunk_ref_log_bytes))"

definition log_bytes_variable :: "stream_command \<Rightarrow> u64" where
  "log_bytes_variable c = (case c of
       CreateStream _ _ initial_payload _ _ _ _ _ \<Rightarrow> len_u64 (length initial_payload)
     | CreateExternal _ _ _ _ _ _ _ _ _ \<Rightarrow> chunk_ref_log_bytes
     | AppendExternal _ _ _ _ _ _ _ _ \<Rightarrow> chunk_ref_log_bytes
     | PublishSnapshotExternal _ _ _ _ _ _ _ \<Rightarrow> chunk_ref_log_bytes
     | FlushCold _ _ _ \<Rightarrow> chunk_ref_log_bytes
     | Append _ _ payload _ _ _ _ \<Rightarrow> len_u64 (length payload)
     | PublishSnapshot _ _ _ payload _ _ \<Rightarrow> len_u64 (length payload)
     | CompactCold _ old_chunks _ _ \<Rightarrow>
         sat_mul (sat_add (len_u64 (length old_chunks)) 1) chunk_ref_log_bytes
     | ImportSnapshot snapshot _ _ _ \<Rightarrow>
         fold (\<lambda>s acc. sat_add acc (import_entry_bytes s)) (ss_streams snapshot) 0
     | _ \<Rightarrow> 0)"

fun log_bytes_estimate :: "stream_command \<Rightarrow> u64" where
  "log_bytes_estimate (IfIncarnation _ command) = sat_add (log_bytes_estimate command) 8"
| "log_bytes_estimate c = sat_add command_log_overhead_bytes (log_bytes_variable c)"

section \<open>Order of stream identities\<close>

definition compare_stream_ids :: "bucket_stream_id \<Rightarrow> bucket_stream_id \<Rightarrow> ordering" where
  "compare_stream_ids left right =
     then_with (ord_cmp (bsi_bucket left) (bsi_bucket right)) (ord_cmp (bsi_stream left) (bsi_stream right))"

instantiation bucket_stream_id :: linorder
begin

definition less_eq_bucket_stream_id :: "bucket_stream_id \<Rightarrow> bucket_stream_id \<Rightarrow> bool" where
  "less_eq_bucket_stream_id a b \<longleftrightarrow> compare_stream_ids a b \<noteq> Greater_Ord"

definition less_bucket_stream_id :: "bucket_stream_id \<Rightarrow> bucket_stream_id \<Rightarrow> bool" where
  "less_bucket_stream_id a b \<longleftrightarrow> compare_stream_ids a b = Less_Ord"

instance
  by standard
    (auto simp: less_eq_bucket_stream_id_def less_bucket_stream_id_def compare_stream_ids_def intro: bucket_stream_id.expand)

end

lemma compare_stream_ids_cmp: "compare_stream_ids a b = ord_cmp a b"
proof (rule ordering_eqI)
  show "compare_stream_ids a b = Less_Ord \<longleftrightarrow> ord_cmp a b = Less_Ord" by (simp add: less_bucket_stream_id_def)
  show "compare_stream_ids a b = Greater_Ord \<longleftrightarrow> ord_cmp a b = Greater_Ord"
    using linorder_not_le[of a b] by (simp add: less_eq_bucket_stream_id_def)
qed

lemma len_u64_le_max [simp]: "len_u64 n \<le> u64_max"
  by (simp add: len_u64_def)

lemma len_u64_min: "len_u64 n = min n u64_max"
  by (simp add: len_u64_def)

lemma is_error_simps [simp]:
  "is_error (error c)" "is_error (error_with_context c x)"
  "is_error (error_with_next_offset c n)" "is_error (error_with_next_offset_and_context c n x)"
  by (simp_all add: error_def error_with_context_def error_with_next_offset_def
      error_with_next_offset_and_context_def)

end
