(* ===== verification/Hot_Buffer.thy ===== *)
theory Hot_Buffer
  imports Model
begin

text \<open>
  The hot in-memory payload buffer of a stream, \<^verbatim>\<open>state_machine/hot_buffer.rs\<close>:
  appended bytes coalesced into blocks of at most 64 KiB.  A buffer abstracts to a
  finite map from stream offsets to bytes (\<open>hot_map\<close>); each operation is related
  to that map.  Vector capacities (\<^verbatim>\<open>reserve_in_block\<close>, \<^verbatim>\<open>shrink_to_fit\<close>) have no
  effect on contents and are not represented.  BLAKE3 is a parameter of \<open>digest_prefix\<close>.
\<close>

definition hot_block_bytes :: usize where
  "hot_block_bytes = 64 * 1024"

record hot_block =
  hb_start_offset :: u64
  hb_bytes :: "byte list"

record hot_buffer =
  hot_blocks :: "hot_block list"
  hot_payload_len :: usize

definition block_end_offset :: "hot_block \<Rightarrow> u64" where
  "block_end_offset b = sat_add (hb_start_offset b) (len_u64 (length (hb_bytes b)))"

definition offset_delta :: "u64 \<Rightarrow> u64 \<Rightarrow> usize" where
  "offset_delta from to = to - from"

definition empty_hot_buffer :: hot_buffer where
  "empty_hot_buffer = \<lparr> hot_blocks = [], hot_payload_len = 0 \<rparr>"

fun place_chunks :: "u64 \<Rightarrow> byte list list \<Rightarrow> hot_block list" where
  "place_chunks offset [] = []"
| "place_chunks offset (c # cs) =
     \<lparr> hb_start_offset = offset, hb_bytes = c \<rparr> #
     place_chunks (sat_add offset (len_u64 (length c))) cs"

definition extends_last :: "u64 \<Rightarrow> hot_block list \<Rightarrow> bool" where
  "extends_last offset blocks \<longleftrightarrow> blocks \<noteq> [] \<and> block_end_offset (last blocks) = offset \<and>
     length (hb_bytes (last blocks)) < hot_block_bytes"

definition push_slice :: "u64 \<Rightarrow> byte list \<Rightarrow> hot_buffer \<Rightarrow> hot_buffer" where
  "push_slice start_offset payload h =
     (if payload = [] then h
      else
        let blocks = hot_blocks h;
            held = sat_add (hot_payload_len h) (length payload)
        in if extends_last start_offset blocks then
             let lst = last blocks;
                 tk = min (length payload) (hot_block_bytes - length (hb_bytes lst));
                 lst' = lst\<lparr> hb_bytes := hb_bytes lst @ take tk payload \<rparr>
             in \<lparr> hot_blocks = butlast blocks @ [lst'] @
                    place_chunks (sat_add start_offset (len_u64 tk))
                      (chunks hot_block_bytes (drop tk payload)),
                  hot_payload_len = held \<rparr>
           else \<lparr> hot_blocks = blocks @ place_chunks start_offset (chunks hot_block_bytes payload),
                  hot_payload_len = held \<rparr>)"

definition push :: "u64 \<Rightarrow> u64 \<Rightarrow> byte list \<Rightarrow> hot_buffer \<Rightarrow> hot_buffer" where
  "push start_offset end_offset payload h = push_slice start_offset payload h"

definition from_payload :: "u64 \<Rightarrow> byte list \<Rightarrow> hot_buffer" where
  "from_payload start_offset payload = push_slice start_offset payload empty_hot_buffer"

fun from_snapshot_blocks :: "byte list \<Rightarrow> hot_payload_segment list \<Rightarrow> hot_block list" where
  "from_snapshot_blocks payload [] = []"
| "from_snapshot_blocks payload (s # segments) =
     (case slice_get payload (hs_payload_start s) (hs_payload_end s) of
        None \<Rightarrow> from_snapshot_blocks payload segments
      | Some chunk \<Rightarrow>
          if chunk = [] then from_snapshot_blocks payload segments
          else \<lparr> hb_start_offset = hs_start_offset s, hb_bytes = chunk \<rparr> #
               from_snapshot_blocks payload segments)"

definition from_snapshot :: "byte list \<Rightarrow> hot_payload_segment list \<Rightarrow> hot_buffer" where
  "from_snapshot payload segments =
     (let blocks = from_snapshot_blocks payload segments
      in \<lparr> hot_blocks = blocks,
           hot_payload_len = fold (\<lambda>b acc. sat_add acc (length (hb_bytes b))) blocks 0 \<rparr>)"

definition hot_len :: "hot_buffer \<Rightarrow> usize" where
  "hot_len h = hot_payload_len h"

definition hot_is_empty :: "hot_buffer \<Rightarrow> bool" where
  "hot_is_empty h \<longleftrightarrow> hot_blocks h = []"

definition chunk_count :: "hot_buffer \<Rightarrow> usize" where
  "chunk_count h = length (hot_blocks h)"

definition first_start_offset :: "hot_buffer \<Rightarrow> u64 option" where
  "first_start_offset h = (case hot_blocks h of [] \<Rightarrow> None | b # _ \<Rightarrow> Some (hb_start_offset b))"

definition hot_start_offset :: "hot_buffer \<Rightarrow> u64" where
  "hot_start_offset h = (case first_start_offset h of None \<Rightarrow> 0 | Some s \<Rightarrow> s)"

definition hot_payload :: "hot_buffer \<Rightarrow> byte list" where
  "hot_payload h = concat (map hb_bytes (hot_blocks h))"

fun segments_from :: "usize \<Rightarrow> hot_block list \<Rightarrow> hot_payload_segment list" where
  "segments_from payload_start [] = []"
| "segments_from payload_start (b # bs) =
     (let payload_end = sat_add payload_start (length (hb_bytes b))
      in \<lparr> hs_start_offset = hb_start_offset b, hs_end_offset = block_end_offset b,
           hs_payload_start = payload_start, hs_payload_end = payload_end \<rparr> #
         segments_from payload_end bs)"

definition hot_segments :: "hot_buffer \<Rightarrow> hot_payload_segment list" where
  "hot_segments h = segments_from 0 (hot_blocks h)"

definition first_block_ending_after :: "u64 \<Rightarrow> hot_buffer \<Rightarrow> usize" where
  "first_block_ending_after offset h =
     partition_point (\<lambda>b. block_end_offset b \<le> offset) (hot_blocks h)"

definition blocks_after :: "u64 \<Rightarrow> hot_buffer \<Rightarrow> hot_block list" where
  "blocks_after offset h = drop (first_block_ending_after offset h) (hot_blocks h)"

fun plan_loop :: "u64 \<Rightarrow> usize \<Rightarrow> byte list \<Rightarrow> hot_block list \<Rightarrow> byte list" where
  "plan_loop from_offset max_flush payload [] = payload"
| "plan_loop from_offset max_flush payload (b # bs) =
     (let planned_end = sat_add from_offset (len_u64 (length payload))
      in if hb_start_offset b > planned_end then payload
         else if length payload \<ge> max_flush then payload
         else
           let skip = min (offset_delta (hb_start_offset b) from_offset) (length (hb_bytes b));
               available = drop skip (hb_bytes b);
               tk = min (length available) (max_flush - length payload);
               payload' = payload @ take tk available
           in if tk < length available then payload'
              else plan_loop from_offset max_flush payload' bs)"

definition plan_cold_flush_from ::
  "u64 \<Rightarrow> usize \<Rightarrow> usize \<Rightarrow> hot_buffer \<Rightarrow> (u64 \<times> u64 \<times> byte list) option" where
  "plan_cold_flush_from from_offset min_hot_bytes max_flush_bytes h =
     (let payload = plan_loop from_offset max_flush_bytes [] (blocks_after from_offset h)
      in if length payload < min_hot_bytes then None
         else Some (from_offset, sat_add from_offset (len_u64 (length payload)), payload))"

fun read_loop :: "u64 \<Rightarrow> u64 \<Rightarrow> hot_block list \<Rightarrow> (u64 \<times> stream_read_segment) list" where
  "read_loop offset next_offset [] = []"
| "read_loop offset next_offset (b # bs) =
     (if hb_start_offset b \<ge> next_offset then []
      else
        let start = max offset (hb_start_offset b);
            end_off = min next_offset (block_end_offset b);
            rest = read_loop offset next_offset bs
        in if start < end_off then
             (case slice_get (hb_bytes b) (offset_delta (hb_start_offset b) start)
                     (offset_delta (hb_start_offset b) end_off) of
                None \<Rightarrow> rest
              | Some bytes \<Rightarrow> (start, Hot bytes) # rest)
           else rest)"

definition read_segments :: "u64 \<Rightarrow> u64 \<Rightarrow> hot_buffer \<Rightarrow> (u64 \<times> stream_read_segment) list" where
  "read_segments offset next_offset h = read_loop offset next_offset (blocks_after offset h)"

definition byte_at :: "u64 \<Rightarrow> hot_buffer \<Rightarrow> byte option" where
  "byte_at offset h =
     (case blocks_after offset h of
        [] \<Rightarrow> None
      | b # _ \<Rightarrow>
          if hb_start_offset b \<le> offset then
            (let i = offset_delta (hb_start_offset b) offset
             in if i < length (hb_bytes b) then Some (hb_bytes b ! i) else None)
          else None)"

text \<open>One block of \<^verbatim>\<open>lf_ends\<close>: the inner loop over the LF positions (\<^verbatim>\<open>memchr_iter\<close>);
  \<open>Inl\<close> is its early return.\<close>

fun lf_scan :: "u64 \<Rightarrow> u64 \<Rightarrow> u64 list \<Rightarrow> nat list \<Rightarrow> u64 list + u64 list" where
  "lf_scan cursor limit ends [] = Inr ends"
| "lf_scan cursor limit ends (i # is) =
     (let e = sat_add (sat_add cursor (len_u64 i)) 1
      in if e > limit \<and> ends \<noteq> [] then Inl ends
         else if e \<ge> limit then Inl (ends @ [e])
         else lf_scan cursor limit (ends @ [e]) is)"

definition lf_byte :: byte where
  "lf_byte = 10"

definition memchr_iter :: "byte \<Rightarrow> byte list \<Rightarrow> nat list" where
  "memchr_iter b bytes = filter (\<lambda>i. bytes ! i = b) [0..<length bytes]"

fun lf_loop :: "u64 \<Rightarrow> u64 \<Rightarrow> u64 \<Rightarrow> u64 list \<Rightarrow> hot_block list \<Rightarrow> u64 list" where
  "lf_loop end_offset limit cursor ends [] = ends"
| "lf_loop end_offset limit cursor ends (b # bs) =
     (if hb_start_offset b > cursor \<or> cursor \<ge> end_offset then ends
      else
        let to = min end_offset (block_end_offset b)
        in case slice_get (hb_bytes b) (offset_delta (hb_start_offset b) cursor)
                  (offset_delta (hb_start_offset b) to) of
             None \<Rightarrow> ends
           | Some bytes \<Rightarrow>
               (case lf_scan cursor limit ends (memchr_iter lf_byte bytes) of
                  Inl ends' \<Rightarrow> ends'
                | Inr ends' \<Rightarrow> lf_loop end_offset limit to ends' bs))"

definition lf_ends :: "u64 \<Rightarrow> u64 \<Rightarrow> u64 \<Rightarrow> hot_buffer \<Rightarrow> u64 list" where
  "lf_ends start_offset end_offset max_bytes h =
     lf_loop end_offset (sat_add start_offset max_bytes) start_offset [] (blocks_after start_offset h)"

fun covers_loop :: "u64 \<Rightarrow> u64 \<Rightarrow> hot_block list \<Rightarrow> bool" where
  "covers_loop covered end_offset [] = False"
| "covers_loop covered end_offset (b # bs) =
     (if hb_start_offset b > covered then False
      else if block_end_offset b \<ge> end_offset then True
      else covers_loop (block_end_offset b) end_offset bs)"

definition covers :: "u64 \<Rightarrow> u64 \<Rightarrow> hot_buffer \<Rightarrow> bool" where
  "covers start_offset end_offset h =
     (if start_offset \<ge> end_offset then True
      else covers_loop start_offset end_offset (blocks_after start_offset h))"

fun covers_prefix_loop :: "u64 \<Rightarrow> u64 \<Rightarrow> hot_block list \<Rightarrow> bool" where
  "covers_prefix_loop covered end_offset [] = False"
| "covers_prefix_loop covered end_offset (b # bs) =
     (if hb_start_offset b \<noteq> covered then False
      else if block_end_offset b \<ge> end_offset then True
      else covers_prefix_loop (block_end_offset b) end_offset bs)"

definition covers_prefix :: "u64 \<Rightarrow> u64 \<Rightarrow> hot_buffer \<Rightarrow> bool" where
  "covers_prefix start_offset end_offset h =
     (case hot_blocks h of
        [] \<Rightarrow> False
      | b # _ \<Rightarrow> if hb_start_offset b \<noteq> start_offset then False
                 else covers_prefix_loop start_offset end_offset (hot_blocks h))"

text \<open>\<^verbatim>\<open>blake3::hash(..).to_hex()\<close>: the hash is a parameter, its hexadecimal form is not.\<close>

definition hex_digit :: "nat \<Rightarrow> char" where
  "hex_digit n = (if n < 10 then char_of (48 + n) else char_of (87 + n))"

definition to_hex :: "byte list \<Rightarrow> string" where
  "to_hex bs = concat (map (\<lambda>b. [hex_digit (unat b div 16), hex_digit (unat b mod 16)]) bs)"

definition digest_prefix ::
  "(byte list \<Rightarrow> byte list) \<Rightarrow> u64 \<Rightarrow> u64 \<Rightarrow> hot_buffer \<Rightarrow> string option" where
  "digest_prefix b3 start_offset end_offset h =
     (if end_offset < start_offset then None
      else case plan_cold_flush_from start_offset (end_offset - start_offset)
                  (end_offset - start_offset) h of
             None \<Rightarrow> None
           | Some (_, planned_end, payload) \<Rightarrow>
               if planned_end = end_offset then Some (to_hex (b3 payload)) else None)"

fun flush_loop :: "u64 \<Rightarrow> usize \<Rightarrow> hot_block list \<Rightarrow> usize \<times> hot_block list" where
  "flush_loop end_offset held [] = (held, [])"
| "flush_loop end_offset held (b # bs) =
     (if block_end_offset b \<le> end_offset
      then flush_loop end_offset (held - length (hb_bytes b)) bs
      else (held, b # bs))"

definition flush_prefix :: "u64 \<Rightarrow> hot_buffer \<Rightarrow> hot_buffer" where
  "flush_prefix end_offset h =
     (case flush_loop end_offset (hot_payload_len h) (hot_blocks h) of
        (held, []) \<Rightarrow> \<lparr> hot_blocks = [], hot_payload_len = held \<rparr>
      | (held, front # rest) \<Rightarrow>
          if hb_start_offset front < end_offset then
            (let drain_len = min (offset_delta (hb_start_offset front) end_offset) (length (hb_bytes front));
                 front' = \<lparr> hb_start_offset = end_offset, hb_bytes = drop drain_len (hb_bytes front) \<rparr>
             in \<lparr> hot_blocks = front' # rest, hot_payload_len = held - drain_len \<rparr>)
          else \<lparr> hot_blocks = front # rest, hot_payload_len = held \<rparr>)"

definition discard_before :: "u64 \<Rightarrow> hot_buffer \<Rightarrow> hot_buffer" where
  "discard_before retained_offset h = flush_prefix retained_offset h"

text \<open>The abstraction: the bytes a block or a buffer holds, by stream offset.\<close>

definition range_map :: "nat \<Rightarrow> byte list \<Rightarrow> nat \<rightharpoonup> byte" where
  "range_map s xs off = (if s \<le> off \<and> off < s + length xs then Some (xs ! (off - s)) else None)"

definition hb_end :: "hot_block \<Rightarrow> nat" where
  "hb_end b = hb_start_offset b + length (hb_bytes b)"

definition block_map :: "hot_block \<Rightarrow> nat \<rightharpoonup> byte" where
  "block_map b = range_map (hb_start_offset b) (hb_bytes b)"

fun blocks_map :: "hot_block list \<Rightarrow> nat \<rightharpoonup> byte" where
  "blocks_map [] = Map.empty"
| "blocks_map (b # bs) = blocks_map bs ++ block_map b"

definition hot_map :: "hot_buffer \<Rightarrow> nat \<rightharpoonup> byte" where
  "hot_map h = blocks_map (hot_blocks h)"

text \<open>Well-formed buffers: non-empty blocks in order, without overlap and within
  the 64-bit offsets, and an exact running length.\<close>

definition blocks_ok :: "hot_block list \<Rightarrow> bool" where
  "blocks_ok bs \<longleftrightarrow> (\<forall>b \<in> set bs. hb_bytes b \<noteq> [] \<and> hb_end b \<le> u64_max) \<and>
     sorted_wrt (\<lambda>a b. hb_end a \<le> hb_start_offset b) bs"

definition hot_inv :: "hot_buffer \<Rightarrow> bool" where
  "hot_inv h \<longleftrightarrow> blocks_ok (hot_blocks h) \<and>
     hot_payload_len h = (\<Sum>b\<leftarrow>hot_blocks h. length (hb_bytes b))"

definition blocks_bounded :: "hot_buffer \<Rightarrow> bool" where
  "blocks_bounded h \<longleftrightarrow> (\<forall>b \<in> set (hot_blocks h). length (hb_bytes b) \<le> hot_block_bytes)"

text \<open>Where the next contiguous byte may go: at or above every hot byte.\<close>

definition hot_below :: "hot_buffer \<Rightarrow> u64 \<Rightarrow> bool" where
  "hot_below h off \<longleftrightarrow> (\<forall>b \<in> set (hot_blocks h). hb_end b \<le> off)"

text \<open>Reference for a contiguous run: the bytes from \<open>off\<close> on, at most \<open>n\<close>.\<close>

fun hot_run :: "(nat \<rightharpoonup> byte) \<Rightarrow> nat \<Rightarrow> nat \<Rightarrow> byte list" where
  "hot_run m off 0 = []"
| "hot_run m off (Suc n) = (case m off of None \<Rightarrow> [] | Some b \<Rightarrow> b # hot_run m (off + 1) n)"

text \<open>Skipping the blocks that end at or below an offset loses nothing above it.\<close>

definition blocks_from :: "nat \<Rightarrow> hot_block list \<Rightarrow> hot_block list" where
  "blocks_from off bs = dropWhile (\<lambda>b. hb_end b \<le> off) bs"

text \<open>What a list of located read segments says about the bytes of a stream.\<close>

fun segment_map :: "u64 \<times> stream_read_segment \<Rightarrow> nat \<rightharpoonup> byte" where
  "segment_map (s, Hot bytes) = range_map s bytes"
| "segment_map (s, _) = Map.empty"

fun segments_map :: "(u64 \<times> stream_read_segment) list \<Rightarrow> nat \<rightharpoonup> byte" where
  "segments_map [] = Map.empty"
| "segments_map (s # ss) = segments_map ss ++ segment_map s"

text \<open>Reference for \<open>lf_ends\<close>: the offsets after each LF of a run of bytes, cut at
  the first one and then while they stay within the limit.\<close>

definition lf_positions :: "nat \<Rightarrow> byte list \<Rightarrow> nat list" where
  "lf_positions off xs = map (\<lambda>i. off + i + 1) (memchr_iter lf_byte xs)"

definition lf_cut :: "nat \<Rightarrow> nat list \<Rightarrow> nat list" where
  "lf_cut limit es = (case es of [] \<Rightarrow> [] | e # es \<Rightarrow> e # takeWhile (\<lambda>x. x \<le> limit) es)"

section \<open>Blocks and their maps\<close>

lemma range_map_Nil [simp]: "range_map s [] = Map.empty"
  by (auto simp: range_map_def)

lemma range_map_append:
  "range_map s (xs @ ys) = range_map s xs ++ range_map (s + length xs) ys"
  by (auto simp: range_map_def map_add_def nth_append fun_eq_iff)

lemma range_map_drop:
  "range_map s xs off = range_map (s + n) (drop n xs) off" if "s + n \<le> off"
  using that by (auto simp: range_map_def algebra_simps)

lemma dom_range_map: "dom (range_map s xs) = {s..<s + length xs}"
  by (auto simp: range_map_def split: if_splits)

lemma blocks_map_append: "blocks_map (as @ bs) = blocks_map bs ++ blocks_map as"
  by (induction as) auto

lemma blocks_ok_simps [simp]:
  "blocks_ok []"
  "blocks_ok (b # bs) \<longleftrightarrow> hb_bytes b \<noteq> [] \<and> hb_end b \<le> u64_max \<and> blocks_ok bs \<and>
     (\<forall>c \<in> set bs. hb_end b \<le> hb_start_offset c)"
  by (auto simp: blocks_ok_def)

lemma blocks_ok_append:
  "blocks_ok (as @ bs) \<longleftrightarrow> blocks_ok as \<and> blocks_ok bs \<and>
     (\<forall>a \<in> set as. \<forall>b \<in> set bs. hb_end a \<le> hb_start_offset b)"
  by (auto simp: blocks_ok_def sorted_wrt_append)

lemma block_end_exact: "hb_end b \<le> u64_max \<Longrightarrow> block_end_offset b = hb_end b"
  by (simp add: block_end_offset_def hb_end_def sat_add_def len_u64_def)

lemma block_end_ok: "blocks_ok bs \<Longrightarrow> b \<in> set bs \<Longrightarrow> block_end_offset b = hb_end b"
  by (simp add: blocks_ok_def block_end_exact)

lemma hb_end_greater: "blocks_ok bs \<Longrightarrow> b \<in> set bs \<Longrightarrow> hb_start_offset b < hb_end b"
  by (auto simp: blocks_ok_def hb_end_def)

lemma blocks_map_below:
  "\<forall>b \<in> set bs. off < hb_start_offset b \<Longrightarrow> blocks_map bs off = None"
  by (induction bs) (auto simp: block_map_def range_map_def map_add_def)

lemma blocks_map_above:
  "\<forall>b \<in> set bs. hb_end b \<le> off \<Longrightarrow> blocks_map bs off = None"
  by (induction bs) (auto simp: block_map_def range_map_def map_add_def hb_end_def)

lemma blocks_map_ConsD:
  assumes "blocks_ok (b # bs)"
  shows "blocks_map (b # bs) off =
    (if off < hb_start_offset b then None
     else if off < hb_end b then Some (hb_bytes b ! (off - hb_start_offset b))
     else blocks_map bs off)"
proof (cases "off < hb_end b")
  case True
  then have "blocks_map bs off = None" using assms by (intro blocks_map_below) force
  with True show ?thesis by (auto simp: map_add_def block_map_def range_map_def hb_end_def)
qed (auto simp: map_add_def block_map_def range_map_def hb_end_def)

lemma blocks_map_None_below:
  "blocks_ok (b # bs) \<Longrightarrow> off < hb_start_offset b \<Longrightarrow> blocks_map (b # bs) off = None"
  by (simp add: blocks_map_ConsD del: blocks_map.simps)

lemma blocks_map_bound: "blocks_ok bs \<Longrightarrow> blocks_map bs off \<noteq> None \<Longrightarrow> off < u64_max"
  using blocks_map_above[of bs off] by (fastforce simp: blocks_ok_def)

lemma blocks_after_from: "hot_inv h \<Longrightarrow> blocks_after off h = blocks_from off (hot_blocks h)"
  unfolding blocks_after_def first_block_ending_after_def drop_partition_point blocks_from_def
  by (intro dropWhile_cong refl) (simp add: hot_inv_def block_end_ok[of "hot_blocks h"])

lemma blocks_from_ok: "blocks_ok bs \<Longrightarrow> blocks_ok (blocks_from off bs)"
  unfolding blocks_from_def
  by (metis blocks_ok_append takeWhile_dropWhile_id)

lemma blocks_from_above: "blocks_ok bs \<Longrightarrow> b \<in> set (blocks_from off bs) \<Longrightarrow> off < hb_end b"
proof (induction bs)
  case (Cons a bs)
  show ?case
  proof (cases "hb_end a \<le> off")
    case False
    have "hb_end a \<le> hb_end b \<or> b = a" if "b \<in> set (a # bs)"
      using Cons.prems(1) that hb_end_greater[of bs b] by force
    with False Cons.prems(2) show ?thesis by (force simp: blocks_from_def)
  qed (use Cons in \<open>auto simp: blocks_from_def\<close>)
qed (simp add: blocks_from_def)

lemma blocks_from_map: "blocks_ok bs \<Longrightarrow> off \<le> o' \<Longrightarrow> blocks_map (blocks_from off bs) o' = blocks_map bs o'"
proof (induction bs)
  case (Cons a bs)
  then show ?case
    by (cases "hb_end a \<le> off")
      (auto simp: blocks_from_def map_add_def block_map_def range_map_def hb_end_def)
qed (simp add: blocks_from_def)

lemma sum_length_bound:
  "blocks_ok bs \<Longrightarrow> bs \<noteq> [] \<Longrightarrow>
    hb_start_offset (hd bs) + (\<Sum>b\<leftarrow>bs. length (hb_bytes b)) \<le> hb_end (last bs)"
proof (induction bs)
  case (Cons b bs)
  show ?case
  proof (cases "bs = []")
    case False
    with Cons have "hb_start_offset (hd bs) + (\<Sum>b\<leftarrow>bs. length (hb_bytes b)) \<le> hb_end (last bs)"
      "hb_end b \<le> hb_start_offset (hd bs)" by auto
    with False show ?thesis by (simp add: hb_end_def)
  qed (simp add: hb_end_def)
qed simp

lemma sum_length_u64:
  assumes "blocks_ok bs"
  shows "(\<Sum>b\<leftarrow>bs. length (hb_bytes b)) \<le> u64_max"
proof (cases "bs = []")
  case False
  then have "hb_end (last bs) \<le> u64_max" using assms by (simp add: blocks_ok_def)
  with sum_length_bound[OF assms False] show ?thesis by simp
qed (simp add: u64_max_def)

section \<open>Pushing\<close>

lemma place_chunks_ok:
  assumes "off + length (concat cs) \<le> u64_max" "\<forall>c \<in> set cs. c \<noteq> []"
  shows "blocks_ok (place_chunks off cs) \<and> blocks_map (place_chunks off cs) = range_map off (concat cs) \<and>
    (\<forall>b \<in> set (place_chunks off cs). off \<le> hb_start_offset b) \<and>
    (\<Sum>b\<leftarrow>place_chunks off cs. length (hb_bytes b)) = length (concat cs) \<and>
    (\<forall>b \<in> set (place_chunks off cs). hb_end b \<le> off + length (concat cs)) \<and>
    hb_bytes ` set (place_chunks off cs) = set cs"
  using assms
proof (induction cs arbitrary: off)
  case (Cons c cs)
  let ?n = "off + length c"
  have n: "sat_add off (len_u64 (length c)) = ?n"
    using Cons.prems by (simp add: sat_add_def len_u64_def)
  note IH = Cons.IH[of ?n]
  have "range_map ?n (concat cs) ++ range_map off c = range_map off c ++ range_map ?n (concat cs)"
    by (rule map_add_comm) (auto simp: dom_range_map)
  with IH Cons.prems show ?case
    by (auto simp: n block_map_def range_map_append hb_end_def add.assoc)
qed simp

lemma hot_block_bytes_pos [simp]: "0 < hot_block_bytes"
  by (simp add: hot_block_bytes_def)

lemma chunks_nonempty: "\<forall>c \<in> set (chunks hot_block_bytes xs). c \<noteq> []"
  using chunks_length[of hot_block_bytes] by auto

lemma place_chunks_bounded:
  "b \<in> set (place_chunks off (chunks hot_block_bytes xs)) \<Longrightarrow> length (hb_bytes b) \<le> hot_block_bytes"
proof -
  have "hb_bytes b \<in> set cs" if "b \<in> set (place_chunks off cs)" for cs
    using that by (induction off cs rule: place_chunks.induct) auto
  then show "b \<in> set (place_chunks off (chunks hot_block_bytes xs)) \<Longrightarrow> length (hb_bytes b) \<le> hot_block_bytes"
    using chunks_length[OF hot_block_bytes_pos] by blast
qed

lemma dom_blocks_map: "dom (blocks_map bs) = (\<Union>b \<in> set bs. {hb_start_offset b..<hb_end b})"
  by (induction bs) (auto simp: block_map_def dom_range_map hb_end_def)

lemma place_at_end:
  assumes "blocks_ok bs" "\<forall>b \<in> set bs. hb_end b \<le> off" "off + length xs \<le> u64_max"
  shows "blocks_ok (bs @ place_chunks off (chunks hot_block_bytes xs)) \<and>
    blocks_map (bs @ place_chunks off (chunks hot_block_bytes xs)) = blocks_map bs ++ range_map off xs \<and>
    (\<Sum>b\<leftarrow>bs @ place_chunks off (chunks hot_block_bytes xs). length (hb_bytes b)) =
      (\<Sum>b\<leftarrow>bs. length (hb_bytes b)) + length xs \<and>
    (\<forall>b \<in> set (bs @ place_chunks off (chunks hot_block_bytes xs)). hb_end b \<le> off + length xs)"
proof -
  note concat = concat_chunks[OF hot_block_bytes_pos, of xs]
  note P = place_chunks_ok[of off "chunks hot_block_bytes xs", unfolded concat, OF assms(3) chunks_nonempty]
  have "dom (range_map off xs) \<inter> dom (blocks_map bs) = {}"
    using assms(2) by (force simp: dom_range_map dom_blocks_map)
  then have "range_map off xs ++ blocks_map bs = blocks_map bs ++ range_map off xs"
    by (rule map_add_comm)
  with P assms show ?thesis by (fastforce simp: blocks_ok_append blocks_map_append)
qed

text \<open>Filling the last block is placing the bytes right behind it.\<close>

lemma extend_last:
  assumes "blocks_ok bs" "bs \<noteq> []" "hb_end (last bs) + length xs \<le> u64_max"
  defines "bs' \<equiv> butlast bs @ [(last bs)\<lparr> hb_bytes := hb_bytes (last bs) @ xs \<rparr>]"
  shows "blocks_ok bs' \<and> blocks_map bs' = blocks_map bs ++ range_map (hb_end (last bs)) xs \<and>
    (\<Sum>b\<leftarrow>bs'. length (hb_bytes b)) = (\<Sum>b\<leftarrow>bs. length (hb_bytes b)) + length xs \<and>
    (\<forall>b \<in> set bs'. hb_end b \<le> hb_end (last bs) + length xs)"
proof -
  obtain as l where bs: "bs = as @ [l]" using assms(2) by (metis append_butlast_last_id)
  have as: "\<forall>a \<in> set as. hb_end a \<le> hb_start_offset l" using assms(1) by (simp add: bs blocks_ok_append)
  have dom: "dom (range_map (hb_end l) xs) \<inter> dom (blocks_map as) = {}"
    using as by (force simp: dom_range_map dom_blocks_map hb_end_def)
  have "(block_map l ++ range_map (hb_end l) xs) ++ blocks_map as =
      (block_map l ++ blocks_map as) ++ range_map (hb_end l) xs"
    using map_add_comm[OF dom] by (simp flip: map_add_assoc)
  moreover have "block_map (l\<lparr> hb_bytes := hb_bytes l @ xs \<rparr>) = block_map l ++ range_map (hb_end l) xs"
    by (simp add: block_map_def range_map_append hb_end_def)
  ultimately have "blocks_map bs' = blocks_map bs ++ range_map (hb_end l) xs"
    by (simp add: bs'_def bs blocks_map_append)
  then show ?thesis using assms(1,3) as
    by (fastforce simp: bs'_def bs blocks_ok_append hb_end_def)
qed

lemma push_slice_refines:
  assumes "hot_inv h" "hot_below h s" "s + length p \<le> u64_max"
  shows "hot_inv (push_slice s p h) \<and> hot_map (push_slice s p h) = hot_map h ++ range_map s p \<and>
    hot_below (push_slice s p h) (s + length p)"
proof (cases "p = []")
  case True
  with assms show ?thesis by (simp add: push_slice_def)
next
  case False
  let ?bs = "hot_blocks h"
  have ok: "blocks_ok ?bs" and len: "hot_payload_len h = (\<Sum>b\<leftarrow>?bs. length (hb_bytes b))"
    and below: "\<forall>b \<in> set ?bs. hb_end b \<le> s"
    using assms by (auto simp: hot_inv_def hot_below_def)
  show ?thesis
  proof (cases "extends_last s ?bs")
    case True
    define tk where "tk = min (length p) (hot_block_bytes - length (hb_bytes (last ?bs)))"
    define bs' where "bs' = butlast ?bs @ [(last ?bs)\<lparr> hb_bytes := hb_bytes (last ?bs) @ take tk p \<rparr>]"
    have e: "hb_end (last ?bs) = s" "?bs \<noteq> []"
      using True ok by (auto simp: extends_last_def block_end_ok[OF ok])
    have tk: "tk \<le> length p" by (simp add: tk_def)
    have E: "blocks_ok bs'" "blocks_map bs' = blocks_map ?bs ++ range_map s (take tk p)"
        "(\<Sum>b\<leftarrow>bs'. length (hb_bytes b)) = (\<Sum>b\<leftarrow>?bs. length (hb_bytes b)) + tk"
        "\<forall>b \<in> set bs'. hb_end b \<le> s + tk"
      using extend_last[OF ok e(2), of "take tk p"] e tk assms(3) by (simp_all add: bs'_def)
    have "s + tk + length (drop tk p) \<le> u64_max" using assms(3) tk by simp
    note P = place_at_end[OF E(1,4) this]
    have n: "sat_add s (len_u64 tk) = s + tk" using assms(3) tk by (simp add: sat_add_def len_u64_def)
    have split: "range_map s p = range_map s (take tk p) ++ range_map (s + tk) (drop tk p)"
      using range_map_append[of s "take tk p" "drop tk p"] tk by simp
    have "push_slice s p h = \<lparr> hot_blocks = bs' @ place_chunks (s + tk) (chunks hot_block_bytes (drop tk p)),
        hot_payload_len = sat_add (hot_payload_len h) (length p) \<rparr>"
      using True False n by (simp add: push_slice_def Let_def tk_def bs'_def)
    moreover have "sat_add (hot_payload_len h) (length p) =
        (\<Sum>b\<leftarrow>bs' @ place_chunks (s + tk) (chunks hot_block_bytes (drop tk p)). length (hb_bytes b))"
      using P E(3) len tk sum_length_u64[OF conjunct1[OF P]] by (simp add: sat_add_exact)
    ultimately show ?thesis using P E(2) tk by (simp add: hot_inv_def hot_below_def hot_map_def split)
  next
    case no: False
    note P = place_at_end[OF ok below assms(3)]
    have "sat_add (hot_payload_len h) (length p) =
        (\<Sum>b\<leftarrow>?bs @ place_chunks s (chunks hot_block_bytes p). length (hb_bytes b))"
      using P len sum_length_u64[OF conjunct1[OF P]] by (simp add: sat_add_exact)
    then show ?thesis using P no False
      by (simp add: push_slice_def Let_def hot_inv_def hot_below_def hot_map_def)
  qed
qed

lemma push_slice_bounded: "blocks_bounded h \<Longrightarrow> blocks_bounded (push_slice s p h)"
  by (auto simp: blocks_bounded_def push_slice_def Let_def extends_last_def
      dest: place_chunks_bounded in_set_butlastD)

section \<open>Flushing a prefix\<close>

lemma flush_loop_blocks:
  assumes "blocks_ok bs" "n = (\<Sum>b\<leftarrow>bs. length (hb_bytes b))"
  shows "snd (flush_loop e n bs) = blocks_from e bs \<and>
    fst (flush_loop e n bs) = (\<Sum>b\<leftarrow>blocks_from e bs. length (hb_bytes b))"
  using assms by (induction e n bs rule: flush_loop.induct) (auto simp: blocks_from_def block_end_exact)

lemma restrict_split:
  "m |` {e..} = m'" if "\<And>off. m' off = (if e \<le> off then m off else None)"
  using that by (auto simp: restrict_map_def fun_eq_iff)

lemma flush_prefix_refines:
  assumes "hot_inv h"
  shows "hot_inv (flush_prefix e h) \<and> hot_map (flush_prefix e h) = hot_map h |` {e..} \<and>
    (hot_below h t \<longrightarrow> hot_below (flush_prefix e h) t)"
proof -
  let ?bs = "hot_blocks h" and ?r = "blocks_from e (hot_blocks h)"
  have ok: "blocks_ok ?bs" and len: "hot_payload_len h = (\<Sum>b\<leftarrow>?bs. length (hb_bytes b))"
    using assms by (auto simp: hot_inv_def)
  have F: "flush_loop e (hot_payload_len h) ?bs = ((\<Sum>b\<leftarrow>?r. length (hb_bytes b)), ?r)"
    using flush_loop_blocks[OF ok len] by (metis prod.collapse)
  have rok: "blocks_ok ?r" by (rule blocks_from_ok[OF ok])
  have above: "\<forall>b \<in> set ?r. e < hb_end b" using blocks_from_above[OF ok] by blast
  have sub: "set ?r \<subseteq> set ?bs" by (auto simp: blocks_from_def dest: set_dropWhileD)
  have old: "blocks_map ?r off = blocks_map ?bs off" if "e \<le> off" for off
    by (rule blocks_from_map[OF ok that])
  show ?thesis
  proof (cases ?r)
    case Nil
    then have "flush_prefix e h = \<lparr> hot_blocks = [], hot_payload_len = 0 \<rparr>"
      using F by (simp add: flush_prefix_def)
    then show ?thesis using old Nil
      by (auto simp: hot_inv_def hot_map_def hot_below_def intro!: restrict_split[symmetric])
  next
    case (Cons f rest)
    show ?thesis
    proof (cases "hb_start_offset f < e")
      case False
      have "blocks_map ?r off = None" if "off < e" for off
        using rok Cons False that by (intro blocks_map_below) (force simp: hb_end_def)
      moreover have "flush_prefix e h = \<lparr> hot_blocks = ?r, hot_payload_len = (\<Sum>b\<leftarrow>?r. length (hb_bytes b)) \<rparr>"
        using F Cons False by (simp add: flush_prefix_def)
      ultimately show ?thesis using old rok sub
        by (auto simp: hot_inv_def hot_map_def hot_below_def intro!: restrict_split[symmetric])
    next
      case True
      let ?d = "e - hb_start_offset f"
      let ?f = "\<lparr> hb_start_offset = e, hb_bytes = drop ?d (hb_bytes f) \<rparr>"
      have d: "?d < length (hb_bytes f)" and fend: "hb_end ?f = hb_end f"
        using above Cons True by (auto simp: hb_end_def)
      have fp: "flush_prefix e h = \<lparr> hot_blocks = ?f # rest,
          hot_payload_len = (\<Sum>b\<leftarrow>?f # rest. length (hb_bytes b)) \<rparr>"
        using F Cons True d by (simp add: flush_prefix_def Let_def offset_delta_def min_def)
      have ok': "blocks_ok (?f # rest)" using rok Cons d fend by auto
      have "blocks_map (?f # rest) off = (if e \<le> off then blocks_map ?bs off else None)" for off
        using old[of off, unfolded Cons] True d fend rok ok' unfolding Cons
        by (auto simp: blocks_map_ConsD simp del: blocks_map.simps blocks_ok_simps)
      then have "hot_map (flush_prefix e h) = hot_map h |` {e..}"
        by (simp add: hot_map_def fp restrict_split[symmetric] del: blocks_map.simps)
      then show ?thesis using ok' fp fend sub Cons by (auto simp: hot_inv_def hot_below_def)
    qed
  qed
qed

lemma flush_prefix_bounded: "blocks_bounded h \<Longrightarrow> blocks_bounded (flush_prefix e h)"
proof -
  have "set (snd (flush_loop e n bs)) \<subseteq> set bs" for n bs
    by (induction e n bs rule: flush_loop.induct) auto
  then show "blocks_bounded h \<Longrightarrow> blocks_bounded (flush_prefix e h)"
    by (fastforce simp: flush_prefix_def blocks_bounded_def Let_def split: prod.splits list.splits
        dest: arg_cong[of _ _ "\<lambda>x. set (snd x)"])
qed

section \<open>Reading\<close>

lemma byte_at_map:
  assumes "hot_inv h"
  shows "byte_at off h = hot_map h off"
proof -
  have ok: "blocks_ok (hot_blocks h)" using assms by (simp add: hot_inv_def)
  note after = blocks_after_from[OF assms, of off] and rok = blocks_from_ok[OF ok, of off]
    and map = blocks_from_map[OF ok order.refl, of off]
  show ?thesis
  proof (cases "blocks_from off (hot_blocks h)")
    case Nil
    with map show ?thesis by (simp add: byte_at_def after hot_map_def)
  next
    case (Cons b bs)
    then have "off < hb_end b" using blocks_from_above[OF ok, of b off] by simp
    with Cons map[symmetric] rok show ?thesis
      by (auto simp: byte_at_def Let_def after hot_map_def offset_delta_def hb_end_def blocks_map_ConsD
          simp del: blocks_map.simps)
  qed
qed

lemma covers_loop_map:
  "blocks_ok bs \<Longrightarrow> c < e \<Longrightarrow> \<forall>b \<in> set bs. c < hb_end b \<Longrightarrow>
   covers_loop c e bs \<longleftrightarrow> (\<forall>off \<in> {c..<e}. blocks_map bs off \<noteq> None)"
proof (induction c e bs rule: covers_loop.induct)
  case (1 c e)
  then show ?case by (auto intro: bexI[of _ c])
next
  case (2 c e b bs)
  have eb: "block_end_offset b = hb_end b" using "2.prems"(1) by (simp add: block_end_exact)
  show ?case
  proof (cases "hb_start_offset b > c \<or> hb_end b \<ge> e")
    case True
    with "2.prems" show ?thesis
      by (auto simp: eb blocks_map_ConsD simp del: blocks_map.simps intro: bexI[of _ c])
  next
    case False
    have "\<forall>b' \<in> set bs. hb_end b < hb_end b'" using "2.prems"(1) hb_end_greater[of bs] by force
    then have "covers_loop (hb_end b) e bs \<longleftrightarrow> (\<forall>off \<in> {hb_end b..<e}. blocks_map bs off \<noteq> None)"
      using "2.IH"[unfolded eb] "2.prems" False by simp
    with False "2.prems" show ?thesis
      by (auto simp: eb blocks_map_ConsD simp del: blocks_map.simps)
  qed
qed

lemma covers_map:
  assumes "hot_inv h"
  shows "covers s e h \<longleftrightarrow> (\<forall>off \<in> {s..<e}. hot_map h off \<noteq> None)"
proof -
  have ok: "blocks_ok (hot_blocks h)" using assms by (simp add: hot_inv_def)
  show ?thesis
    using covers_loop_map[OF blocks_from_ok[OF ok], of s e s] blocks_from_above[OF ok]
      blocks_from_map[OF ok, of s] blocks_after_from[OF assms, of s]
    by (auto simp: covers_def hot_map_def)
qed

lemma hot_run_length: "length (hot_run m off n) \<le> n"
  by (induction m off n rule: hot_run.induct) (auto split: option.split)

lemma hot_run_nth:
  "i < length (hot_run m off n) \<Longrightarrow> m (off + i) = Some (hot_run m off n ! i)"
  by (induction m off n arbitrary: i rule: hot_run.induct)
    (auto simp: less_Suc_eq_0_disj split: option.splits)

lemma hot_run_stops:
  "length (hot_run m off n) < n \<Longrightarrow> m (off + length (hot_run m off n)) = None"
  by (induction m off n rule: hot_run.induct) (auto split: option.splits)

lemma hot_run_prefix:
  assumes "\<forall>i < length xs. m (off + i) = Some (xs ! i)" "length xs \<le> n"
  shows "hot_run m off n = xs @ hot_run m (off + length xs) (n - length xs)"
  using assms
proof (induction xs arbitrary: off n)
  case (Cons x xs)
  then obtain k where n: "n = Suc k" by (cases n) auto
  have "m off = Some x" using Cons.prems(1) by (metis add_0_right length_greater_0_conv list.distinct(1) nth_Cons_0)
  moreover have "\<forall>i < length xs. m (off + 1 + i) = Some (xs ! i)"
    using Cons.prems(1) by (metis Suc_less_eq add_Suc_right add_Suc_shift Suc_eq_plus1 length_Cons nth_Cons_Suc)
  ultimately show ?case using Cons.IH[of "off + 1" k] Cons.prems(2) n by simp
qed simp

lemma hot_run_cong:
  "\<forall>o' \<ge> off. m o' = m' o' \<Longrightarrow> hot_run m off n = hot_run m' off n"
  by (induction m off n rule: hot_run.induct) (auto split: option.splits)

lemma hot_run_full:
  "\<forall>i < n. m (off + i) \<noteq> None \<Longrightarrow> length (hot_run m off n) = n"
proof (induction m off n rule: hot_run.induct)
  case (2 m off n)
  then have "m off \<noteq> None" "\<forall>i < n. m (off + 1 + i) \<noteq> None"
    by (metis add_0_right zero_less_Suc) (use "2.prems" in auto)
  with "2.IH" show ?case by auto
qed simp

section \<open>Planning a flush\<close>

lemma plan_loop_run:
  assumes "blocks_ok bs" "f + length p \<le> u64_max" "\<forall>b \<in> set bs. f + length p < hb_end b"
    "p = [] \<or> (\<forall>b \<in> set bs. f + length p \<le> hb_start_offset b)"
  shows "plan_loop f n p bs = p @ hot_run (blocks_map bs) (f + length p) (n - length p)"
  using assms
proof (induction bs arbitrary: p)
  case Nil
  then show ?case by (cases "n - length p") auto
next
  case (Cons b bs)
  let ?pe = "f + length p" and ?m = "blocks_map (b # bs)"
  have pe: "sat_add f (len_u64 (length p)) = ?pe" using Cons.prems(2) by (simp add: sat_add_def len_u64_def)
  have bend: "?pe < hb_end b" using Cons.prems(3) by simp
  show ?case
  proof (cases "hb_start_offset b > ?pe \<or> n \<le> length p")
    case True
    then show ?thesis
      using Cons.prems(1) pe by (cases "n - length p") (auto simp: blocks_map_None_below simp del: blocks_map.simps)
  next
    case False
    define av where "av = drop (?pe - hb_start_offset b) (hb_bytes b)"
    have A: "drop (min (offset_delta (hb_start_offset b) f) (length (hb_bytes b))) (hb_bytes b) = av"
      using Cons.prems(4) False bend by (auto simp: av_def offset_delta_def hb_end_def min_def)
    have step: "plan_loop f n p (b # bs) =
        (if min (length av) (n - length p) < length av
         then p @ take (min (length av) (n - length p)) av
         else plan_loop f n (p @ take (min (length av) (n - length p)) av) bs)"
      unfolding plan_loop.simps Let_def A pe using False by simp
    have av_len: "length av = hb_end b - ?pe" using False by (auto simp: av_def hb_end_def)
    have av: "\<forall>i < length av. ?m (?pe + i) = Some (av ! i)"
      using Cons.prems(1) False av_len
      by (auto simp: blocks_map_ConsD av_def nth_drop algebra_simps hb_end_def simp del: blocks_map.simps)
    show ?thesis
    proof (cases "n - length p < length av")
      case True
      then have "hot_run ?m ?pe (n - length p) = take (n - length p) av"
        using hot_run_prefix[of "take (n - length p) av" ?m ?pe "n - length p"] av by simp
      with True step show ?thesis by (simp del: blocks_map.simps)
    next
      case le: False
      let ?p = "p @ av"
      have p': "f + length ?p = hb_end b" using bend av_len by simp
      have above: "\<forall>c \<in> set bs. hb_end b \<le> hb_start_offset c \<and> hb_end b < hb_end c"
        using Cons.prems(1) hb_end_greater[of bs] by force
      have eq: "plan_loop f n p (b # bs) = plan_loop f n ?p bs" using step le by simp
      have "plan_loop f n ?p bs = ?p @ hot_run (blocks_map bs) (f + length ?p) (n - length ?p)"
        using Cons.prems(1) above p' by (intro Cons.IH) auto
      moreover have "hot_run (blocks_map bs) (hb_end b) k = hot_run ?m (hb_end b) k" for k
        using Cons.prems(1) by (intro hot_run_cong) (auto simp: blocks_map_ConsD hb_end_def simp del: blocks_map.simps)
      moreover have "hot_run ?m ?pe (n - length p) = av @ hot_run ?m (?pe + length av) (n - length p - length av)"
        using hot_run_prefix[OF av, of "n - length p"] le by simp
      ultimately show ?thesis using eq p' by (simp add: add.assoc del: blocks_map.simps)
    qed
  qed
qed

lemma plan_cold_flush_from_run:
  assumes "hot_inv h" "f \<le> u64_max"
  shows "plan_cold_flush_from f lo hi h =
    (let p = hot_run (hot_map h) f hi in if length p < lo then None else Some (f, f + length p, p))"
proof -
  have ok: "blocks_ok (hot_blocks h)" using assms by (simp add: hot_inv_def)
  have "plan_loop f hi [] (blocks_after f h) = hot_run (blocks_map (blocks_from f (hot_blocks h))) f hi"
    using plan_loop_run[OF blocks_from_ok[OF ok], of f "[]" f hi] blocks_from_above[OF ok] assms
    by (simp add: blocks_after_from)
  also have "\<dots> = hot_run (hot_map h) f hi"
    using blocks_from_map[OF ok] by (intro hot_run_cong) (simp add: hot_map_def)
  finally have loop: "plan_loop f hi [] (blocks_after f h) = hot_run (hot_map h) f hi" .
  have "f + length (hot_run (hot_map h) f hi) \<le> u64_max"
  proof (cases "hot_run (hot_map h) f hi = []")
    case False
    then have "hot_map h (f + (length (hot_run (hot_map h) f hi) - 1)) \<noteq> None"
      using hot_run_nth[of "length (hot_run (hot_map h) f hi) - 1" "hot_map h" f hi] by simp
    with blocks_map_bound[OF ok] False show ?thesis
      by (fastforce simp: hot_map_def Suc_le_eq)
  qed (use assms in simp)
  then have "sat_add f (len_u64 (length (hot_run (hot_map h) f hi))) = f + length (hot_run (hot_map h) f hi)"
    by (simp add: sat_add_def len_u64_def)
  then show ?thesis by (simp add: plan_cold_flush_from_def loop Let_def)
qed

section \<open>Read segments\<close>

lemma read_loop_Cons:
  assumes "hb_end b \<le> u64_max" "hb_start_offset b < nx"
  shows "read_loop off nx (b # bs) =
    (let s = max off (hb_start_offset b); e = min nx (hb_end b)
     in if s < e then (s, Hot (take (e - s) (drop (s - hb_start_offset b) (hb_bytes b)))) # read_loop off nx bs
        else read_loop off nx bs)"
  using assms by (auto simp: Let_def block_end_exact slice_get_def offset_delta_def hb_end_def)

lemma read_loop_mem:
  assumes "blocks_ok bs" "(s, seg) \<in> set (read_loop off nx bs)"
  shows "\<exists>b \<in> set bs. \<exists>xs. seg = Hot xs \<and> xs \<noteq> [] \<and> s = max off (hb_start_offset b) \<and>
    s + length xs = min nx (hb_end b)"
  using assms
proof (induction bs)
  case (Cons b bs)
  show ?case
  proof (cases "hb_start_offset b \<ge> nx")
    case False
    then have "read_loop off nx (b # bs) =
      (let s = max off (hb_start_offset b); e = min nx (hb_end b)
       in if s < e then (s, Hot (take (e - s) (drop (s - hb_start_offset b) (hb_bytes b)))) # read_loop off nx bs
          else read_loop off nx bs)"
      using Cons.prems(1) by (intro read_loop_Cons) auto
    then consider "(s, seg) \<in> set (read_loop off nx bs)"
      | "max off (hb_start_offset b) < min nx (hb_end b)" "s = max off (hb_start_offset b)"
        "seg = Hot (take (min nx (hb_end b) - s) (drop (s - hb_start_offset b) (hb_bytes b)))"
      using Cons.prems(2) by (auto simp only: Let_def list.set insert_iff prod.inject split: if_splits)
    then show ?thesis
    proof cases
      case 1
      with Cons show ?thesis by simp
    next
      case 2
      then show ?thesis
        by (intro bexI[of _ b] exI[of _ "take (min nx (hb_end b) - s) (drop (s - hb_start_offset b) (hb_bytes b))"])
          (auto simp: hb_end_def min_def max_def split: if_splits)
    qed
  qed (use Cons in simp)
qed simp

lemma read_loop_sorted:
  assumes "blocks_ok bs"
  shows "sorted_wrt (\<lambda>(s, x) (s', y). \<forall>xs. x = Hot xs \<longrightarrow> s + length xs \<le> s') (read_loop off nx bs)"
  using assms
proof (induction bs)
  case (Cons b bs)
  have later: "min nx (hb_end b) \<le> fst p" if "p \<in> set (read_loop off nx bs)" for p
    using read_loop_mem[of bs "fst p" "snd p" off nx] Cons.prems that by fastforce
  show ?case
  proof (cases "hb_start_offset b \<ge> nx")
    case False
    then have "read_loop off nx (b # bs) =
      (let s = max off (hb_start_offset b); e = min nx (hb_end b)
       in if s < e then (s, Hot (take (e - s) (drop (s - hb_start_offset b) (hb_bytes b)))) # read_loop off nx bs
          else read_loop off nx bs)"
      using Cons.prems(1) by (intro read_loop_Cons) auto
    then show ?thesis
      using Cons later by (simp add: Let_def split_beta del: read_loop.simps) (fastforce simp: hb_end_def)
  qed simp
qed simp

lemma read_loop_map:
  assumes "blocks_ok bs" "\<forall>b \<in> set bs. off < hb_end b"
  shows "segments_map (read_loop off nx bs) = blocks_map bs |` {off..<nx}"
  using assms
proof (induction bs)
  case (Cons b bs)
  show ?case
  proof (cases "hb_start_offset b \<ge> nx")
    case True
    have "blocks_map (b # bs) o' = None" if "o' < nx" for o'
      using Cons.prems(1) True that by (simp add: blocks_map_None_below del: blocks_map.simps)
    with True show ?thesis by (auto simp: restrict_map_def fun_eq_iff simp del: blocks_map.simps)
  next
    case False
    let ?s = "max off (hb_start_offset b)" and ?e = "min nx (hb_end b)"
    let ?xs = "take (?e - ?s) (drop (?s - hb_start_offset b) (hb_bytes b))"
    have IH: "segments_map (read_loop off nx bs) = blocks_map bs |` {off..<nx}"
      using Cons.IH Cons.prems by auto
    show ?thesis
    proof (cases "?s < ?e")
      case True
      have step: "read_loop off nx (b # bs) = (?s, Hot ?xs) # read_loop off nx bs"
        using read_loop_Cons[of b nx off bs] Cons.prems(1) True False by (simp add: Let_def)
      have len: "length ?xs = ?e - ?s" using True by (auto simp: hb_end_def)
      have "range_map ?s ?xs o' = block_map b o'" if "off \<le> o'" "o' < nx" for o'
        using that True len by (auto simp: range_map_def block_map_def hb_end_def nth_take nth_drop)
      moreover have "range_map ?s ?xs o' = None" if "\<not> (off \<le> o' \<and> o' < nx)" for o'
        using that True len by (auto simp: range_map_def)
      ultimately show ?thesis
        unfolding step using IH by (auto simp: fun_eq_iff restrict_map_def map_add_def split: option.split)
    next
      case no: False
      have "read_loop off nx (b # bs) = read_loop off nx bs"
        using read_loop_Cons[of b nx off bs] Cons.prems(1) no False by (simp add: Let_def)
      moreover have "block_map b o' = None" if "off \<le> o'" "o' < nx" for o'
        using that no False Cons.prems by (auto simp: block_map_def range_map_def hb_end_def)
      ultimately show ?thesis using IH
        by (auto simp: fun_eq_iff restrict_map_def map_add_def)
    qed
  qed
qed auto

lemma read_segments_map:
  assumes "hot_inv h"
  shows "segments_map (read_segments off nx h) = hot_map h |` {off..<nx}"
proof -
  have ok: "blocks_ok (hot_blocks h)" using assms by (simp add: hot_inv_def)
  have "blocks_map (blocks_from off (hot_blocks h)) |` {off..<nx} = hot_map h |` {off..<nx}"
    using blocks_from_map[OF ok, of off] by (auto simp: restrict_map_def hot_map_def fun_eq_iff)
  moreover have "\<forall>b \<in> set (blocks_from off (hot_blocks h)). off < hb_end b"
    using blocks_from_above[OF ok] by blast
  ultimately show ?thesis
    using read_loop_map[OF blocks_from_ok[OF ok], of off off nx]
    unfolding read_segments_def blocks_after_from[OF assms] by simp
qed

lemma read_segments_mem:
  assumes "hot_inv h" "(s, seg) \<in> set (read_segments off nx h)"
  shows "\<exists>xs. seg = Hot xs \<and> xs \<noteq> [] \<and> off \<le> s \<and> s + length xs \<le> nx"
proof -
  have ok: "blocks_ok (hot_blocks h)" using assms by (simp add: hot_inv_def)
  show ?thesis
    using read_loop_mem[OF blocks_from_ok[OF ok], of s seg off nx off] assms
    unfolding read_segments_def blocks_after_from[OF assms(1)] by auto
qed

lemma read_segments_sorted:
  "hot_inv h \<Longrightarrow>
   sorted_wrt (\<lambda>(s, x) (s', y). \<forall>xs. x = Hot xs \<longrightarrow> s + length xs \<le> s') (read_segments off nx h)"
  unfolding read_segments_def
  by (simp only: blocks_after_from) (intro read_loop_sorted blocks_from_ok, simp add: hot_inv_def)

section \<open>Message ends in hot bytes\<close>

lemma memchr_iter_append:
  "memchr_iter b (xs @ ys) = memchr_iter b xs @ map (\<lambda>i. length xs + i) (memchr_iter b ys)"
proof -
  have upt: "[0..<length (xs @ ys)] = [0..<length xs] @ map (\<lambda>i. length xs + i) [0..<length ys]"
    using upt_add_eq_append[of 0 "length xs" "length ys"] map_add_upt[of "length xs" "length ys"]
    by (simp add: add.commute)
  have "filter (\<lambda>i. (xs @ ys) ! i = b) [0..<length xs] = filter (\<lambda>i. xs ! i = b) [0..<length xs]"
    by (intro filter_cong) (auto simp: nth_append)
  then show ?thesis unfolding memchr_iter_def upt filter_append filter_map by (simp add: comp_def)
qed

lemma lf_positions_append:
  "lf_positions off (xs @ ys) = lf_positions off xs @ lf_positions (off + length xs) ys"
  by (simp add: lf_positions_def memchr_iter_append comp_def add.assoc)

lemma lf_positions_sorted: "sorted_wrt (<) (lf_positions off xs)"
proof -
  have "sorted_wrt (<) (memchr_iter lf_byte xs)"
    unfolding memchr_iter_def by (intro sorted_wrt_filter) simp
  then show ?thesis unfolding lf_positions_def sorted_wrt_map by simp
qed

lemma lf_positions_range: "e \<in> set (lf_positions off xs) \<Longrightarrow> off < e \<and> e \<le> off + length xs"
  by (auto simp: lf_positions_def memchr_iter_def)

lemma takeWhile_all_less: "\<forall>e \<in> set es. e < (l::nat) \<Longrightarrow> takeWhile (\<lambda>x. x \<le> l) (es @ fs) = es @ takeWhile (\<lambda>x. x \<le> l) fs"
  by (induction es) auto

lemma lf_cut_less: "\<forall>e \<in> set es. e < l \<Longrightarrow> es \<noteq> [] \<Longrightarrow> lf_cut l (es @ fs) = es @ takeWhile (\<lambda>x. x \<le> l) fs"
  by (cases es) (auto simp: lf_cut_def takeWhile_all_less)

lemma lf_cut_all_less: "\<forall>e \<in> set es. e < l \<Longrightarrow> lf_cut l es = es"
  using lf_cut_less[of es l "[]"] by (cases es) (auto simp: lf_cut_def)

lemma takeWhile_none: "\<forall>y \<in> set ys. (l::nat) < y \<Longrightarrow> takeWhile (\<lambda>x. x \<le> l) ys = []"
  by (cases ys) auto

lemma takeWhile_stop:
  "sorted_wrt (<) (es @ fs) \<Longrightarrow> e \<in> set es \<Longrightarrow> l \<le> (e::nat) \<Longrightarrow>
   takeWhile (\<lambda>x. x \<le> l) (es @ fs) = takeWhile (\<lambda>x. x \<le> l) es"
proof (induction es)
  case (Cons x es)
  show ?case
  proof (cases "e = x")
    case True
    then have "\<forall>y \<in> set (es @ fs). l < y" using Cons.prems by (auto intro: le_less_trans)
    then show ?thesis by (simp add: takeWhile_none)
  qed (use Cons in auto)
qed simp

lemma lf_cut_stop:
  assumes "sorted_wrt (<) (es @ fs)" "e \<in> set es" "l \<le> e"
  shows "lf_cut l (es @ fs) = lf_cut l es"
proof (cases es)
  case (Cons x xs)
  show ?thesis
  proof (cases "e = x")
    case True
    then have "\<forall>y \<in> set (xs @ fs). l < y" using assms Cons by (auto intro: le_less_trans)
    then show ?thesis using Cons by (simp add: lf_cut_def takeWhile_none)
  next
    case False
    then show ?thesis using assms Cons takeWhile_stop[of xs fs e l] by (simp add: lf_cut_def)
  qed
qed (use assms in simp)

lemma lf_scan_spec:
  assumes "\<forall>e \<in> set ends. e < limit" "\<forall>i \<in> set is. c + i + 1 \<le> u64_max"
    "sorted_wrt (<) (map (\<lambda>i. c + i + 1) is)"
  shows "case lf_scan c limit ends is of
      Inl r \<Rightarrow> (\<exists>i \<in> set is. limit \<le> c + i + 1) \<and> r = lf_cut limit (ends @ map (\<lambda>i. c + i + 1) is)
    | Inr r \<Rightarrow> r = ends @ map (\<lambda>i. c + i + 1) is \<and> (\<forall>e \<in> set r. e < limit)"
  using assms
proof (induction "is" arbitrary: ends)
  case (Cons i js)
  let ?e = "c + i + 1"
  have e: "sat_add (sat_add c (len_u64 i)) 1 = ?e"
    using Cons.prems(2) by (simp add: sat_add_def len_u64_def)
  have beyond: "takeWhile (\<lambda>x. x \<le> limit) (map (\<lambda>i. c + i + 1) js) = []" if "limit \<le> ?e"
    using Cons.prems(3) that by (cases js) auto
  show ?case
  proof (cases "?e \<ge> limit")
    case True
    show ?thesis
    proof (cases "ends = []")
      case True
      with \<open>?e \<ge> limit\<close> e beyond show ?thesis by (simp add: lf_cut_def)
    next
      case False
      with True e beyond lf_cut_less[OF Cons.prems(1) False, of "map (\<lambda>i. c + i + 1) (i # js)"]
      show ?thesis by auto
    qed
  next
    case False
    with Cons.IH[of "ends @ [?e]"] Cons.prems e show ?thesis
      by (auto split: sum.split)
  qed
qed simp

lemma lf_loop_spec:
  assumes "blocks_ok bs" "\<forall>b \<in> set bs. c < hb_end b" "sorted_wrt (<) ends" "\<forall>e \<in> set ends. e < limit \<and> e \<le> c"
  shows "lf_loop e limit c ends bs =
    lf_cut limit (ends @ lf_positions c (hot_run (blocks_map bs) c (e - c)))"
  using assms
proof (induction bs arbitrary: c ends)
  case Nil
  then show ?case by (cases "e - c") (simp_all add: lf_cut_all_less lf_positions_def memchr_iter_def)
next
  case (Cons b bs)
  let ?m = "blocks_map (b # bs)"
  have eb: "block_end_offset b = hb_end b" using Cons.prems(1) by (simp add: block_end_exact)
  show ?case
  proof (cases "hb_start_offset b > c \<or> c \<ge> e")
    case True
    then have "hot_run ?m c (e - c) = []"
      using Cons.prems(1) by (cases "e - c") (auto simp: blocks_map_None_below simp del: blocks_map.simps)
    with True Cons.prems show ?thesis
      by (simp add: lf_cut_all_less lf_positions_def memchr_iter_def del: blocks_map.simps)
  next
    case False
    define to where "to = min e (hb_end b)"
    define xs where "xs = take (to - c) (drop (c - hb_start_offset b) (hb_bytes b))"
    have len: "length xs = to - c" and c_to: "c < to"
      using False Cons.prems(2) by (auto simp: xs_def to_def hb_end_def)
    have slice: "slice_get (hb_bytes b) (offset_delta (hb_start_offset b) c)
        (offset_delta (hb_start_offset b) to) = Some xs"
      using False c_to by (auto simp: slice_get_def offset_delta_def xs_def to_def hb_end_def)
    have "\<forall>i < length xs. ?m (c + i) = Some (xs ! i)"
      using Cons.prems(1) False len
      by (auto simp: blocks_map_ConsD xs_def to_def nth_drop algebra_simps hb_end_def simp del: blocks_map.simps)
    then have run: "hot_run ?m c (e - c) = xs @ hot_run ?m to (e - to)"
      using hot_run_prefix[of xs ?m c "e - c"] len c_to False by (simp add: to_def)
    have rest: "hot_run ?m to (e - to) = hot_run (blocks_map bs) to (e - to)"
    proof (cases "to = e")
      case False
      then show ?thesis using Cons.prems(1)
        by (intro hot_run_cong) (auto simp: to_def blocks_map_ConsD hb_end_def simp del: blocks_map.simps)
    qed simp
    let ?es = "lf_positions c xs"
    have all: "lf_positions c (hot_run ?m c (e - c)) = ?es @ lf_positions to (hot_run (blocks_map bs) to (e - to))"
      unfolding run rest lf_positions_append using len c_to by simp
    have es: "\<forall>x \<in> set ?es. c < x \<and> x \<le> to" using lf_positions_range[of _ c xs] len c_to by auto
    have sorted: "sorted_wrt (<) (ends @ ?es)"
      using Cons.prems(3,4) es lf_positions_sorted by (force simp: sorted_wrt_append)
    have "\<forall>i \<in> set (memchr_iter lf_byte xs). c + i + 1 \<le> u64_max"
      using Cons.prems(1) len by (auto simp: memchr_iter_def to_def)
    note scan = lf_scan_spec[OF _ this, of ends limit, folded lf_positions_def, OF _ lf_positions_sorted]
    have step: "lf_loop e limit c ends (b # bs) = (case lf_scan c limit ends (memchr_iter lf_byte xs) of
        Inl r \<Rightarrow> r | Inr r \<Rightarrow> lf_loop e limit to r bs)"
      using False slice by (simp add: Let_def eb flip: to_def)
    show ?thesis
    proof (cases "lf_scan c limit ends (memchr_iter lf_byte xs)")
      case (Inl r)
      then obtain i where i: "i \<in> set (memchr_iter lf_byte xs)" "limit \<le> c + i + 1"
          and r: "r = lf_cut limit (ends @ ?es)"
        using scan Cons.prems(4) by auto
      have "c + i + 1 \<in> set (ends @ ?es)" using i(1) by (simp add: lf_positions_def)
      moreover have "sorted_wrt (<) ((ends @ ?es) @ lf_positions to (hot_run (blocks_map bs) to (e - to)))"
        using sorted lf_positions_sorted[of to] lf_positions_range[of _ to] es Cons.prems(4) c_to
        by (fastforce simp: sorted_wrt_append)
      ultimately show ?thesis using step Inl r i(2) lf_cut_stop unfolding all by (metis append_assoc sum.case(1))
    next
      case (Inr r)
      then have r: "r = ends @ ?es" "\<forall>x \<in> set r. x < limit" using scan Cons.prems(4) by auto
      have "lf_loop e limit to r bs = lf_cut limit (r @ lf_positions to (hot_run (blocks_map bs) to (e - to)))"
      proof (cases "to = e")
        case True
        then have "lf_loop e limit to r bs = r" by (cases bs) simp_all
        then show ?thesis using True r(2) by (simp add: lf_cut_all_less lf_positions_def memchr_iter_def)
      next
        case False
        then have "\<forall>b' \<in> set bs. to < hb_end b'"
          using Cons.prems(1) hb_end_greater[of bs] by (force simp: to_def)
        then show ?thesis using Cons.prems r es sorted c_to by (intro Cons.IH) force+
      qed
      then show ?thesis using step Inr r(1) all by simp
    qed
  qed
qed

lemma lf_ends_spec:
  assumes "hot_inv h" "0 < mx" "s < u64_max"
  shows "lf_ends s e mx h = lf_cut (min (s + mx) u64_max) (lf_positions s (hot_run (hot_map h) s (e - s)))"
proof -
  have ok: "blocks_ok (hot_blocks h)" using assms by (simp add: hot_inv_def)
  have "hot_run (blocks_map (blocks_from s (hot_blocks h))) s (e - s) = hot_run (hot_map h) s (e - s)"
    using blocks_from_map[OF ok] by (intro hot_run_cong) (simp add: hot_map_def)
  then show ?thesis
    using lf_loop_spec[OF blocks_from_ok[OF ok], of s s "[]" "sat_add s mx" e] blocks_from_above[OF ok]
    by (simp add: lf_ends_def blocks_after_from[OF assms(1)] sat_add_def)
qed

section \<open>Snapshots of the buffer, prefixes and digests\<close>

lemma from_snapshot_segments:
  assumes "\<forall>b \<in> set bs. hb_bytes b \<noteq> []" "length pre + (\<Sum>b\<leftarrow>bs. length (hb_bytes b)) \<le> u64_max"
  shows "from_snapshot_blocks (pre @ concat (map hb_bytes bs)) (segments_from (length pre) bs) = bs"
  using assms
proof (induction bs arbitrary: pre)
  case (Cons b bs)
  have n: "sat_add (length pre) (length (hb_bytes b)) = length (pre @ hb_bytes b)"
    using Cons.prems by (simp add: sat_add_exact)
  have "slice_get (pre @ hb_bytes b @ concat (map hb_bytes bs)) (length pre) (length (pre @ hb_bytes b)) =
      Some (hb_bytes b)"
    by (simp add: slice_get_def)
  moreover have "from_snapshot_blocks ((pre @ hb_bytes b) @ concat (map hb_bytes bs))
      (segments_from (length (pre @ hb_bytes b)) bs) = bs"
    using Cons.prems by (intro Cons.IH) auto
  ultimately show ?case using Cons.prems(1) n by (simp add: Let_def)
qed simp

lemma from_snapshot_hot_segments:
  assumes "hot_inv h"
  shows "from_snapshot (hot_payload h) (hot_segments h) = h"
proof -
  have ok: "blocks_ok (hot_blocks h)" using assms by (simp add: hot_inv_def)
  have sum: "(\<Sum>b\<leftarrow>hot_blocks h. length (hb_bytes b)) \<le> u64_max" by (rule sum_length_u64[OF ok])
  have "from_snapshot_blocks (hot_payload h) (hot_segments h) = hot_blocks h"
    using from_snapshot_segments[of "hot_blocks h" "[]"] sum ok
    by (simp add: hot_payload_def hot_segments_def blocks_ok_def)
  moreover have "fold (\<lambda>b acc. sat_add acc (length (hb_bytes b))) (hot_blocks h) 0 = hot_payload_len h"
    using fold_sat_add[of 0 "\<lambda>b. length (hb_bytes b)" "hot_blocks h"] sum assms
    by (simp add: hot_inv_def u64_max_def)
  ultimately show ?thesis by (simp add: from_snapshot_def Let_def)
qed

lemma covers_prefix_loop_covers:
  "blocks_ok bs \<Longrightarrow> \<forall>b \<in> set bs. c \<le> hb_start_offset b \<Longrightarrow> covers_prefix_loop c e bs = covers_loop c e bs"
  by (induction bs arbitrary: c) (auto simp: block_end_exact)

lemma covers_prefix_map:
  assumes "hot_inv h" "s < e"
  shows "covers_prefix s e h \<longleftrightarrow> first_start_offset h = Some s \<and> (\<forall>off \<in> {s..<e}. hot_map h off \<noteq> None)"
proof (cases "hot_blocks h")
  case (Cons b bs)
  have ok: "blocks_ok (b # bs)" using assms Cons by (simp add: hot_inv_def)
  show ?thesis
  proof (cases "hb_start_offset b = s")
    case True
    have "s \<le> hb_start_offset c" if "c \<in> set (b # bs)" for c
      using ok True that by (auto simp: hb_end_def)
    then have "\<forall>c \<in> set (b # bs). s \<le> hb_start_offset c \<and> s < hb_end c"
      using hb_end_greater[OF ok] le_less_trans by blast
    then show ?thesis
      using covers_prefix_loop_covers[OF ok, of s e] covers_loop_map[OF ok assms(2)] Cons True
      by (simp add: covers_prefix_def first_start_offset_def hot_map_def del: blocks_map.simps)
  qed (simp add: covers_prefix_def first_start_offset_def Cons)
qed (simp add: covers_prefix_def first_start_offset_def)

lemma run_covers:
  "length (hot_run m s n) = n \<longleftrightarrow> (\<forall>off \<in> {s..<s + n}. m off \<noteq> None)"
proof
  assume "length (hot_run m s n) = n"
  then have "m (s + i) \<noteq> None" if "i < n" for i
    using hot_run_nth[of i m s n] that by simp
  then show "\<forall>off \<in> {s..<s + n}. m off \<noteq> None" by (fastforce simp: le_iff_add)
next
  assume "\<forall>off \<in> {s..<s + n}. m off \<noteq> None"
  then show "length (hot_run m s n) = n" by (intro hot_run_full) auto
qed

lemma digest_prefix_covers:
  assumes "hot_inv h" "s \<le> e" "s \<le> u64_max"
  shows "digest_prefix b3 s e h =
    (if covers s e h then Some (to_hex (b3 (hot_run (hot_map h) s (e - s)))) else None)"
  using assms(2,3) run_covers[of "hot_map h" s "e - s"] hot_run_length[of "hot_map h" s "e - s"]
  by (auto simp: digest_prefix_def plan_cold_flush_from_run[OF assms(1,3)] Let_def covers_map[OF assms(1)])

section \<open>The store of bytes by offset that the stream operations rely on\<close>

locale offset_store =
  fixes inv :: "'h \<Rightarrow> bool"
    and contents :: "'h \<Rightarrow> nat \<rightharpoonup> byte"
    and ends_by :: "'h \<Rightarrow> nat \<Rightarrow> bool"
    and put :: "nat \<Rightarrow> byte list \<Rightarrow> 'h \<Rightarrow> 'h"
    and discard :: "nat \<Rightarrow> 'h \<Rightarrow> 'h"
    and covered :: "nat \<Rightarrow> nat \<Rightarrow> 'h \<Rightarrow> bool"
  assumes put_law: "inv h \<Longrightarrow> ends_by h s \<Longrightarrow> s + length p \<le> u64_max \<Longrightarrow>
      inv (put s p h) \<and> contents (put s p h) = contents h ++ range_map s p \<and>
      ends_by (put s p h) (s + length p)"
    and discard_law: "inv h \<Longrightarrow> inv (discard k h) \<and> contents (discard k h) = contents h |` {k..} \<and>
      (ends_by h t \<longrightarrow> ends_by (discard k h) t)"
    and covered_law: "inv h \<Longrightarrow> covered s e h \<longleftrightarrow> (\<forall>off \<in> {s..<e}. contents h off \<noteq> None)"
    and ends_by_law: "inv h \<Longrightarrow> ends_by h t \<Longrightarrow> contents h off \<noteq> None \<Longrightarrow> off < t"
begin

text \<open>An appended payload can be read back, and older bytes are untouched.\<close>

lemma put_reads_back:
  assumes "inv h" "ends_by h s" "s + length p \<le> u64_max"
  shows "i < length p \<Longrightarrow> contents (put s p h) (s + i) = Some (p ! i)"
    and "off < s \<Longrightarrow> contents (put s p h) off = contents h off"
  using put_law[OF assms] by (auto simp: range_map_def map_add_def)

lemma put_covered:
  assumes "inv h" "ends_by h s" "s + length p \<le> u64_max" "covered k s h" "k \<le> s"
  shows "covered k (s + length p) (put s p h)"
  using assms put_law[OF assms(1-3)] covered_law[of h] covered_law[of "put s p h"]
  by (auto simp: range_map_def map_add_def split: option.split)

lemma discard_covered:
  assumes "inv h" "covered s e h" "k \<le> s"
  shows "covered s e (discard k h)"
  using assms discard_law[OF assms(1), of k] covered_law[of h] covered_law[of "discard k h"] by auto

lemma discard_discard:
  assumes "inv h"
  shows "contents (discard j (discard k h)) = contents (discard (max j k) h)"
  using discard_law[OF assms] discard_law[of "discard k h" j]
  by (auto simp: restrict_map_def fun_eq_iff)

end

lemma push_slice_offset_store:
  "hot_inv h \<Longrightarrow> hot_below h t \<Longrightarrow> hot_map h off \<noteq> None \<Longrightarrow> off < t"
  using blocks_map_above[of "hot_blocks h" off]
  by (force simp: hot_map_def hot_below_def not_less)

interpretation hot: offset_store hot_inv hot_map hot_below push_slice flush_prefix covers
  by unfold_locales
    (use push_slice_refines flush_prefix_refines covers_map push_slice_offset_store in blast)+

lemma empty_hot_buffer_inv [simp]:
  "hot_inv empty_hot_buffer" "hot_map empty_hot_buffer = Map.empty" "hot_below empty_hot_buffer t"
  "blocks_bounded empty_hot_buffer"
  by (simp_all add: empty_hot_buffer_def hot_inv_def hot_map_def hot_below_def blocks_bounded_def)

lemma from_payload_refines:
  "s + length p \<le> u64_max \<Longrightarrow> hot_inv (from_payload s p) \<and> hot_map (from_payload s p) = range_map s p \<and>
    hot_below (from_payload s p) (s + length p) \<and> blocks_bounded (from_payload s p)"
  using push_slice_refines[of empty_hot_buffer s p] push_slice_bounded[of empty_hot_buffer s p]
  by (simp add: from_payload_def)

lemma hot_len_card:
  assumes "hot_inv h"
  shows "hot_len h = card (dom (hot_map h))"
proof -
  have "blocks_ok bs \<Longrightarrow> card (dom (blocks_map bs)) = (\<Sum>b\<leftarrow>bs. length (hb_bytes b))" for bs
  proof (induction bs)
    case (Cons b bs)
    have "dom (block_map b) \<inter> dom (blocks_map bs) = {}"
      using Cons.prems by (force simp: block_map_def dom_range_map dom_blocks_map hb_end_def)
    moreover have "finite (dom (blocks_map bs))" by (simp add: dom_blocks_map)
    ultimately show ?case using Cons
      by (simp add: card_Un_disjoint block_map_def dom_range_map)
  qed simp
  then show ?thesis using assms by (simp add: hot_inv_def hot_len_def hot_map_def)
qed

lemma hot_is_empty_map: "hot_inv h \<Longrightarrow> hot_is_empty h \<longleftrightarrow> hot_len h = 0"
  by (cases "hot_blocks h") (auto simp: hot_is_empty_def hot_inv_def hot_len_def)

lemma push_slice_len:
  assumes "hot_inv h" "hot_below h s" "s + length p \<le> u64_max"
  shows "hot_len (push_slice s p h) = hot_len h + length p"
proof -
  note R = push_slice_refines[OF assms]
  have "dom (hot_map h) \<inter> {s..<s + length p} = {}"
    using push_slice_offset_store[OF assms(1,2)] by force
  moreover have "finite (dom (hot_map h))" by (simp add: hot_map_def dom_blocks_map)
  ultimately have "card (dom (hot_map h ++ range_map s p)) = card (dom (hot_map h)) + length p"
    by (simp add: dom_range_map card_Un_disjoint Un_commute)
  then show ?thesis using R hot_len_card[of "push_slice s p h"] hot_len_card[OF assms(1)] by simp
qed

lemma hot_demo:
  "hot_inv (from_payload 5 [1, 10, 3])" "blocks_bounded (from_payload 5 [1, 10, 3])"
  "hot_below (from_payload 5 [1, 10, 3]) 8" "hot_map (from_payload 5 [1, 10, 3]) = range_map 5 [1, 10, 3]"
  using from_payload_refines[of 5 "[1, 10, 3]"] by (simp_all add: u64_max_def)

lemma hot_demo_run:
  "hot_run (range_map 5 [1, 10, 3]) 6 10 = [10, 3]" "hot_run (range_map 5 [1, 10, 3]) 5 3 = [1, 10, 3]"
  "lf_cut 105 (lf_positions 5 [1, 10, 3]) = [7]"
  by code_simp+

section \<open>Properties\<close>

text \<open>C17. Appending a payload at or above every hot byte refines the map from offsets
  to bytes: the new buffer holds the old bytes and the payload at its offsets, is well
  formed (blocks non-empty, in order, disjoint, each at most 64 KiB), and its running
  length grows by exactly the payload's.\<close>

theorem hot_push_refines:
  assumes "hot_inv h" "blocks_bounded h" "hot_below h s" "s + length p \<le> u64_max"
  shows "hot_inv (push s (s + length p) p h) \<and> blocks_bounded (push s (s + length p) p h) \<and>
    hot_below (push s (s + length p) p h) (s + length p) \<and>
    hot_map (push s (s + length p) p h) = hot_map h ++ range_map s p \<and>
    hot_len (push s (s + length p) p h) = hot_len h + length p"
  using push_slice_refines[OF assms(1,3,4)] push_slice_len[OF assms(1,3,4)] push_slice_bounded[OF assms(2)]
  by (simp add: push_def)

theorem hot_push_refines_witness:
  "hot_map (push 8 10 [7, 9] (from_payload 5 [1, 10, 3])) 9 = Some 9 \<and>
   hot_map (push 8 10 [7, 9] (from_payload 5 [1, 10, 3])) 6 = Some 10"
  using hot_push_refines[OF hot_demo(1-3), of "[7, 9]"] hot_demo(4)
  by (simp add: u64_max_def range_map_def map_add_def)

text \<open>C21. Flushing (or discarding) the bytes below an offset keeps exactly the bytes at
  and above it, keeps the buffer well formed and its length exact.\<close>

theorem hot_flush_refines:
  assumes "hot_inv h" "blocks_bounded h"
  shows "hot_inv (flush_prefix e h) \<and> blocks_bounded (flush_prefix e h) \<and>
    hot_map (flush_prefix e h) = hot_map h |` {e..} \<and>
    hot_len (flush_prefix e h) = card (dom (hot_map h) \<inter> {e..}) \<and>
    discard_before e h = flush_prefix e h"
  using flush_prefix_refines[OF assms(1), of e] flush_prefix_bounded[OF assms(2), of e]
    hot_len_card[of "flush_prefix e h"]
  by (simp add: discard_before_def)

theorem hot_flush_refines_witness:
  "hot_map (flush_prefix 6 (from_payload 5 [1, 10, 3])) 5 = None \<and>
   hot_map (flush_prefix 6 (from_payload 5 [1, 10, 3])) 7 = Some 3"
  using hot_flush_refines[OF hot_demo(1,2), of 6] hot_demo(4) by (simp add: range_map_def)

text \<open>C22. Reads of a well-formed buffer are exact: \<open>byte_at\<close> is the abstract map,
  \<open>covers\<close> says whether every byte of a range is held, and the segments of
  \<open>read_segments\<close> are ordered, disjoint, non-empty hot pieces whose union is the
  map restricted to the range.\<close>

theorem hot_reads_exact:
  assumes "hot_inv h"
  shows "byte_at off h = hot_map h off \<and>
    (covers s e h \<longleftrightarrow> (\<forall>off \<in> {s..<e}. hot_map h off \<noteq> None)) \<and>
    segments_map (read_segments s e h) = hot_map h |` {s..<e} \<and>
    (\<forall>(o', seg) \<in> set (read_segments s e h). \<exists>xs. seg = Hot xs \<and> xs \<noteq> [] \<and> s \<le> o' \<and> o' + length xs \<le> e) \<and>
    sorted_wrt (\<lambda>(s, x) (s', y). \<forall>xs. x = Hot xs \<longrightarrow> s + length xs \<le> s') (read_segments s e h)"
  using byte_at_map[OF assms] covers_map[OF assms] read_segments_map[OF assms] read_segments_mem[OF assms]
    read_segments_sorted[OF assms] by fastforce

theorem hot_reads_exact_witness:
  "byte_at 6 (from_payload 5 [1, 10, 3]) = Some 10 \<and> covers 5 8 (from_payload 5 [1, 10, 3])"
  using hot_reads_exact[OF hot_demo(1), of 6 5 8] hot_demo(4) by (auto simp: range_map_def)

text \<open>C23. A cold-flush plan takes exactly the longest contiguous run of hot bytes from
  the start offset, cut at the maximum, and is refused only when that run is shorter
  than the minimum; so flushing through the planned end removes exactly the planned
  bytes and nothing above.\<close>

theorem plan_cold_flush_exact:
  assumes "hot_inv h" "f \<le> u64_max"
  shows "plan_cold_flush_from f lo hi h =
      (let p = hot_run (hot_map h) f hi in if length p < lo then None else Some (f, f + length p, p)) \<and>
    (\<forall>i < length (hot_run (hot_map h) f hi). hot_map h (f + i) = Some (hot_run (hot_map h) f hi ! i)) \<and>
    (length (hot_run (hot_map h) f hi) < hi \<longrightarrow> hot_map h (f + length (hot_run (hot_map h) f hi)) = None)"
  using plan_cold_flush_from_run[OF assms] hot_run_nth hot_run_stops by blast

theorem plan_cold_flush_exact_witness:
  "plan_cold_flush_from 6 1 10 (from_payload 5 [1, 10, 3]) = Some (6, 8, [10, 3])"
  using plan_cold_flush_exact[OF hot_demo(1), of 6 1 10] hot_demo(4)
  by (simp add: hot_demo_run u64_max_def)

text \<open>C24. The block-wise scan for JSON message ends equals the reference that looks at
  the contiguous hot bytes as one string: the offset after the first LF, and then the
  following ones while they are within \<open>max_bytes\<close> of the start.\<close>

theorem lf_ends_reference:
  assumes "hot_inv h" "0 < mx" "s < u64_max"
  shows "lf_ends s e mx h =
    lf_cut (min (s + mx) u64_max) (lf_positions s (hot_run (hot_map h) s (e - s)))"
  by (rule lf_ends_spec[OF assms])

theorem lf_ends_reference_witness:
  "lf_ends 5 8 100 (from_payload 5 [1, 10, 3]) = [7]"
  using lf_ends_reference[OF hot_demo(1), of 100 5 8] hot_demo(4)
  by (simp add: hot_demo_run u64_max_def)

text \<open>C25. A buffer is restored from its snapshot (payload and hot segments) unchanged,
  block layout and running length included.\<close>

theorem hot_snapshot_roundtrip:
  assumes "hot_inv h"
  shows "from_snapshot (hot_payload h) (hot_segments h) = h"
  by (rule from_snapshot_hot_segments[OF assms])

theorem hot_snapshot_roundtrip_witness:
  "from_snapshot (hot_payload (from_payload 5 [1, 10, 3])) (hot_segments (from_payload 5 [1, 10, 3])) =
     from_payload 5 [1, 10, 3]"
  by (rule hot_snapshot_roundtrip[OF hot_demo(1)])

end
