(* ===== verification/Cold_State.thy ===== *)
theory Cold_State
  imports Model
begin

text \<open>
  Per-stream references to cold objects, \<^verbatim>\<open>state_machine/cold_state.rs\<close>: slices of shared
  packs (\<open>cold_chunks\<close>), external payloads not yet offloaded to the cold index
  (\<open>external_segments\<close>) and the cold generation of the incarnation.
\<close>

record stream_cold_state =
  cold_chunks :: "cold_chunk_ref list"
  external_segments :: "object_payload_ref list"
  cold_generation :: u64

record compacted =
  cp_shared_paths :: "string list"
  cp_external_paths :: "string list"

definition with_generation :: "u64 \<Rightarrow> stream_cold_state" where
  "with_generation gen = \<lparr> cold_chunks = [], external_segments = [], cold_generation = gen \<rparr>"

definition push_direct_external_segment ::
  "object_payload_ref \<Rightarrow> stream_cold_state \<Rightarrow> stream_cold_state" where
  "push_direct_external_segment obj c = c\<lparr> external_segments := external_segments c @ [obj] \<rparr>"

definition remove_external_segments ::
  "object_payload_ref list \<Rightarrow> stream_cold_state \<Rightarrow> stream_cold_state \<times> u64" where
  "remove_external_segments refs c =
     (let kept = filter (\<lambda>obj. obj \<notin> set refs) (external_segments c)
      in (c\<lparr> external_segments := kept \<rparr>, len_u64 (length (external_segments c) - length kept)))"

definition push_cold_chunk :: "cold_chunk_ref \<Rightarrow> stream_cold_state \<Rightarrow> stream_cold_state" where
  "push_cold_chunk chunk c =
     (if cc_shared_object chunk then c\<lparr> cold_chunks := cold_chunks c @ [chunk] \<rparr> else c)"

definition restore_cold_state ::
  "u64 \<Rightarrow> cold_chunk_ref list \<Rightarrow> object_payload_ref list \<Rightarrow> stream_cold_state" where
  "restore_cold_state gen shared externals =
     \<lparr> cold_chunks = shared, external_segments = externals, cold_generation = gen \<rparr>"

definition has_state_refs :: "stream_cold_state \<Rightarrow> bool" where
  "has_state_refs c \<longleftrightarrow> cold_chunks c \<noteq> [] \<or> external_segments c \<noteq> []"

definition compact_before :: "u64 \<Rightarrow> stream_cold_state \<Rightarrow> stream_cold_state \<times> compacted" where
  "compact_before retained_offset c =
     (c\<lparr> cold_chunks := filter (\<lambda>ch. cc_end_offset ch > retained_offset) (cold_chunks c),
         external_segments := filter (\<lambda>obj. op_end_offset obj > retained_offset) (external_segments c) \<rparr>,
      \<lparr> cp_shared_paths =
          map cc_s3_path (filter (\<lambda>ch. \<not> cc_end_offset ch > retained_offset) (cold_chunks c)),
        cp_external_paths =
          map op_s3_path (filter (\<lambda>obj. \<not> op_end_offset obj > retained_offset) (external_segments c)) \<rparr>)"

definition shared_object_paths :: "stream_cold_state \<Rightarrow> string list" where
  "shared_object_paths c = map cc_s3_path (filter cc_shared_object (cold_chunks c))"

definition remove_shared_chunks ::
  "cold_chunk_ref list \<Rightarrow> stream_cold_state \<Rightarrow> stream_cold_state \<times> bool" where
  "remove_shared_chunks old_chunks c =
     (let kept = filter (\<lambda>ch. ch \<notin> set old_chunks) (cold_chunks c)
      in (c\<lparr> cold_chunks := kept \<rparr>, length (cold_chunks c) - length kept = length old_chunks))"

text \<open>Only shared slices are kept as chunks: the others are in the cold index.\<close>

definition cold_state_inv :: "stream_cold_state \<Rightarrow> bool" where
  "cold_state_inv c \<longleftrightarrow> (\<forall>ch \<in> set (cold_chunks c). cc_shared_object ch)"

lemma cold_state_inv_ops [simp]:
  "cold_state_inv (with_generation g)"
  "cold_state_inv c \<Longrightarrow> cold_state_inv (push_cold_chunk ch c)"
  "cold_state_inv c \<Longrightarrow> cold_state_inv (push_direct_external_segment obj c)"
  "cold_state_inv c \<Longrightarrow> cold_state_inv (fst (remove_external_segments refs c))"
  "cold_state_inv c \<Longrightarrow> cold_state_inv (fst (compact_before r c))"
  "cold_state_inv c \<Longrightarrow> cold_state_inv (fst (remove_shared_chunks old c))"
  by (auto simp: cold_state_inv_def with_generation_def push_cold_chunk_def
      push_direct_external_segment_def remove_external_segments_def compact_before_def
      remove_shared_chunks_def Let_def)

lemma cold_generation_ops [simp]:
  "cold_generation (with_generation g) = g"
  "cold_generation (push_cold_chunk ch c) = cold_generation c"
  "cold_generation (push_direct_external_segment obj c) = cold_generation c"
  "cold_generation (fst (remove_external_segments refs c)) = cold_generation c"
  "cold_generation (fst (compact_before r c)) = cold_generation c"
  "cold_generation (fst (remove_shared_chunks old c)) = cold_generation c"
  by (simp_all add: with_generation_def push_cold_chunk_def push_direct_external_segment_def
      remove_external_segments_def compact_before_def remove_shared_chunks_def Let_def)

lemma shared_object_paths_inv: "cold_state_inv c \<Longrightarrow> shared_object_paths c = map cc_s3_path (cold_chunks c)"
  by (simp add: cold_state_inv_def shared_object_paths_def filter_id_conv)

text \<open>Compaction moves references: each path is still held or was reported dropped.\<close>

lemma compact_before_paths:
  assumes "cold_state_inv c"
  shows "mset (shared_object_paths (fst (compact_before r c))) +
      mset (cp_shared_paths (snd (compact_before r c))) = mset (shared_object_paths c)"
  using mset_filter_split[of cc_s3_path "cold_chunks c" "\<lambda>ch. cc_end_offset ch > r"]
    shared_object_paths_inv[OF cold_state_inv_ops(5)[OF assms], of r] shared_object_paths_inv[OF assms]
  by (simp add: compact_before_def)

end
