(* ===== verification/Stream_Slot.thy ===== *)
theory Stream_Slot
  imports Hot_Buffer Cold_State
begin

text \<open>
  The state of one stream, \<^verbatim>\<open>StreamSlot\<close> of \<^verbatim>\<open>state_machine.rs\<close>.
\<close>

record stream_slot =
  slot_metadata :: stream_metadata
  slot_hot_buffer :: hot_buffer
  slot_cold :: stream_cold_state
  slot_retained_offset :: u64
  slot_visible_snapshot :: "stream_visible_snapshot option"
  slot_producers :: "(string, producer_state) hashmap"
  slot_retired_epoch_watermark :: "u64 option"
  slot_history :: u64
  slot_inherited :: "inherited_history option"
  slot_usage :: version_usage

definition slot_stream_id :: "stream_slot \<Rightarrow> bucket_stream_id" where
  "slot_stream_id s = md_stream_id (slot_metadata s)"

text \<open>Seal point: the first hot byte, or the tail when nothing is hot.\<close>

definition seal_point :: "stream_slot \<Rightarrow> u64" where
  "seal_point s =
     (case first_start_offset (slot_hot_buffer s) of
        Some off \<Rightarrow> off | None \<Rightarrow> md_tail_offset (slot_metadata s))"

end
