(* ===== verification/Registry.thy ===== *)
theory Registry
  imports Stream_Slot "HOL-Library.Product_Lexorder"
begin

text \<open>
  The stream registry of a group, \<^verbatim>\<open>state_machine/registry.rs\<close> and \<^verbatim>\<open>state_machine/ttl.rs\<close>:
  streams by id, their slots by slot-map key, and the time-to-live index, a min-heap of
  armed expiries with lazily discarded stale entries.  The slot map is a third-party
  container: the sequence of keys it hands out is the field \<open>reg_key_seq\<close>, of which the
  invariant asks only that no key is handed out twice.  A binary heap of the standard
  library is represented by the sorted list of its entries.
\<close>

type_synonym stream_key = nat

datatype ttl_entry =
  TtlEntry (te_expires_at_ms: u64) (te_stream_id: bucket_stream_id) (te_key: stream_key)

record stream_registry =
  reg_keys :: "(bucket_stream_id, stream_key) hashmap"
  reg_slots :: "(stream_key, stream_slot) hashmap"
  reg_ttl :: "ttl_entry list"
  reg_armed :: "(stream_key, u64) hashmap"
  reg_key_seq :: "nat \<Rightarrow> stream_key"
  reg_allocated :: nat

text \<open>\<^verbatim>\<open>cmp\<close> of \<^verbatim>\<open>TtlEntry\<close>: the expiry, then the stream, then the number of the key.\<close>

definition ttl_entry_cmp :: "ttl_entry \<Rightarrow> ttl_entry \<Rightarrow> ordering" where
  "ttl_entry_cmp a b =
     then_with
       (then_with (ord_cmp (te_expires_at_ms a) (te_expires_at_ms b)) (compare_stream_ids (te_stream_id a) (te_stream_id b)))
       (ord_cmp (te_key a) (te_key b))"

lemma ttl_entry_cmp_prod:
  "ttl_entry_cmp a b = ord_cmp (te_expires_at_ms a, te_stream_id a, te_key a) (te_expires_at_ms b, te_stream_id b, te_key b)"
  by (rule ordering_eqI) (auto simp: ttl_entry_cmp_def compare_stream_ids_cmp less_prod_def less_eq_prod_def)

instantiation ttl_entry :: linorder
begin

definition less_eq_ttl_entry :: "ttl_entry \<Rightarrow> ttl_entry \<Rightarrow> bool" where
  "less_eq_ttl_entry a b \<longleftrightarrow> ttl_entry_cmp a b \<noteq> Greater_Ord"

definition less_ttl_entry :: "ttl_entry \<Rightarrow> ttl_entry \<Rightarrow> bool" where
  "less_ttl_entry a b \<longleftrightarrow> ttl_entry_cmp a b = Less_Ord"

instance
  by standard
    (auto simp: less_eq_ttl_entry_def less_ttl_entry_def ttl_entry_cmp_def compare_stream_ids_cmp intro: ttl_entry.expand)

end

text \<open>The order of the entries is that of the tuples of their fields.\<close>

lemma ttl_entry_order:
  "a \<le> b \<longleftrightarrow> (te_expires_at_ms a, te_stream_id a, te_key a) \<le> (te_expires_at_ms b, te_stream_id b, te_key b)"
  "a < b \<longleftrightarrow> (te_expires_at_ms a, te_stream_id a, te_key a) < (te_expires_at_ms b, te_stream_id b, te_key b)"
  for a b :: ttl_entry
  unfolding less_eq_ttl_entry_def less_ttl_entry_def ttl_entry_cmp_prod ord_cmp_iff by (simp_all only: linorder_not_less)

definition stream_expiry_at_ms :: "stream_metadata \<Rightarrow> u64 option" where
  "stream_expiry_at_ms m =
     (case md_stream_expires_at_ms m of
        Some e \<Rightarrow> Some e
      | None \<Rightarrow> map_option (\<lambda>ttl. sat_add (md_last_ttl_touch_at_ms m) (sat_mul ttl 1000))
                  (md_stream_ttl_seconds m))"

definition stream_is_expired :: "stream_metadata \<Rightarrow> u64 \<Rightarrow> bool" where
  "stream_is_expired m now_ms = (case stream_expiry_at_ms m of None \<Rightarrow> False | Some e \<Rightarrow> now_ms \<ge> e)"

definition empty_registry :: "(nat \<Rightarrow> stream_key) \<Rightarrow> stream_registry" where
  "empty_registry ks = \<lparr> reg_keys = [], reg_slots = [], reg_ttl = [], reg_armed = [],
     reg_key_seq = ks, reg_allocated = 0 \<rparr>"

definition reg_slot :: "stream_registry \<Rightarrow> bucket_stream_id \<Rightarrow> stream_slot option" where
  "reg_slot reg stream_id =
     (case map_of (reg_keys reg) stream_id of None \<Rightarrow> None | Some k \<Rightarrow> map_of (reg_slots reg) k)"

text \<open>Writing through \<^verbatim>\<open>slot_mut\<close>.\<close>

definition modify_slot ::
  "bucket_stream_id \<Rightarrow> (stream_slot \<Rightarrow> stream_slot) \<Rightarrow> stream_registry \<Rightarrow> stream_registry" where
  "modify_slot stream_id f reg =
     (case map_of (reg_keys reg) stream_id of
        None \<Rightarrow> reg
      | Some k \<Rightarrow> (case map_of (reg_slots reg) k of
                     None \<Rightarrow> reg
                   | Some s \<Rightarrow> reg\<lparr> reg_slots := AList.update k (f s) (reg_slots reg) \<rparr>))"

definition reg_metadata :: "stream_registry \<Rightarrow> bucket_stream_id \<Rightarrow> stream_metadata option" where
  "reg_metadata reg stream_id = map_option slot_metadata (reg_slot reg stream_id)"

definition reg_len :: "stream_registry \<Rightarrow> usize" where
  "reg_len reg = length (reg_keys reg)"

definition reg_is_empty :: "stream_registry \<Rightarrow> bool" where
  "reg_is_empty reg \<longleftrightarrow> reg_keys reg = []"

definition bucket_stream_ids :: "string \<Rightarrow> stream_registry \<Rightarrow> bucket_stream_id list" where
  "bucket_stream_ids bucket_id reg =
     sort (filter (\<lambda>i. bsi_bucket i = bucket_id) (map fst (reg_keys reg)))"

definition reg_slot_values :: "stream_registry \<Rightarrow> stream_slot list" where
  "reg_slot_values reg = map snd (reg_slots reg)"

definition reg_contains_key :: "stream_registry \<Rightarrow> bucket_stream_id \<Rightarrow> bool" where
  "reg_contains_key reg stream_id \<longleftrightarrow> map_of (reg_keys reg) stream_id \<noteq> None"

definition arm_ttl_entry :: "bucket_stream_id \<Rightarrow> stream_key \<Rightarrow> stream_registry \<Rightarrow> stream_registry" where
  "arm_ttl_entry stream_id k reg =
     (case map_of (reg_slots reg) k of
        None \<Rightarrow> reg
      | Some s \<Rightarrow> (case stream_expiry_at_ms (slot_metadata s) of
          None \<Rightarrow> reg
        | Some e \<Rightarrow>
            if (case map_of (reg_armed reg) k of None \<Rightarrow> False | Some a \<Rightarrow> a \<le> e) then reg
            else reg\<lparr> reg_armed := AList.update k e (reg_armed reg),
                      reg_ttl := insort (TtlEntry e stream_id k) (reg_ttl reg) \<rparr>))"

text \<open>The entries a rebuild keeps: one per armed key that still has a slot.\<close>

definition armed_entries :: "stream_registry \<Rightarrow> ttl_entry list" where
  "armed_entries reg =
     concat (map (\<lambda>(k, a). case map_of (reg_slots reg) k of
                      None \<Rightarrow> []
                    | Some s \<Rightarrow> [TtlEntry a (md_stream_id (slot_metadata s)) k]) (reg_armed reg))"

definition rebuild_ttl_if_bloated :: "stream_registry \<Rightarrow> stream_registry" where
  "rebuild_ttl_if_bloated reg =
     (if length (reg_ttl reg) \<le> sat_mul (length (reg_armed reg)) 2 then reg
      else reg\<lparr> reg_ttl := sort (armed_entries reg) \<rparr>)"

definition reg_insert :: "stream_slot \<Rightarrow> stream_registry \<Rightarrow> stream_registry \<times> stream_key option" where
  "reg_insert s reg =
     (let stream_id = md_stream_id (slot_metadata s)
      in if reg_contains_key reg stream_id then (reg, None)
         else
           let k = reg_key_seq reg (reg_allocated reg);
               reg' = reg\<lparr> reg_slots := AList.update k s (reg_slots reg),
                           reg_allocated := reg_allocated reg + 1,
                           reg_keys := AList.update stream_id k (reg_keys reg) \<rparr>
           in (arm_ttl_entry stream_id k reg', Some k))"

definition reg_remove :: "bucket_stream_id \<Rightarrow> stream_registry \<Rightarrow> stream_registry \<times> stream_slot option" where
  "reg_remove stream_id reg =
     (case map_of (reg_keys reg) stream_id of
        None \<Rightarrow> (reg, None)
      | Some k \<Rightarrow>
          (rebuild_ttl_if_bloated
             (reg\<lparr> reg_keys := AList.delete stream_id (reg_keys reg),
                   reg_armed := AList.delete k (reg_armed reg),
                   reg_slots := AList.delete k (reg_slots reg) \<rparr>),
           map_of (reg_slots reg) k))"

definition ttl_heap_len :: "stream_registry \<Rightarrow> usize" where
  "ttl_heap_len reg = length (reg_ttl reg)"

definition refresh_ttl :: "bucket_stream_id \<Rightarrow> stream_registry \<Rightarrow> stream_registry" where
  "refresh_ttl stream_id reg =
     (case map_of (reg_keys reg) stream_id of
        None \<Rightarrow> reg
      | Some k \<Rightarrow> rebuild_ttl_if_bloated (arm_ttl_entry stream_id k reg))"

definition ttl_front_due :: "u64 \<Rightarrow> stream_registry \<Rightarrow> bool" where
  "ttl_front_due now_ms reg = (case reg_ttl reg of [] \<Rightarrow> False | e # _ \<Rightarrow> te_expires_at_ms e \<le> now_ms)"

text \<open>The current expiry of the slot an entry names.\<close>

definition key_expiry :: "stream_registry \<Rightarrow> stream_key \<Rightarrow> u64 option" where
  "key_expiry reg k =
     (case map_of (reg_slots reg) k of None \<Rightarrow> None | Some s \<Rightarrow> stream_expiry_at_ms (slot_metadata s))"

text \<open>Entries that a pass of \<open>pop_expired\<close> will re-arm: the loop's measure.\<close>

definition renewable :: "stream_registry \<Rightarrow> ttl_entry \<Rightarrow> bool" where
  "renewable reg e \<longleftrightarrow> map_of (reg_armed reg) (te_key e) = Some (te_expires_at_ms e) \<and>
     (case key_expiry reg (te_key e) of None \<Rightarrow> False | Some c \<Rightarrow> te_expires_at_ms e < c)"

function pop_expired :: "u64 \<Rightarrow> stream_registry \<Rightarrow> stream_registry \<times> bucket_stream_id option" where
  "pop_expired now_ms reg =
     (case reg_ttl reg of
        [] \<Rightarrow> (reg, None)
      | entry # rest \<Rightarrow>
          if te_expires_at_ms entry > now_ms then (reg, None)
          else
            let reg1 = reg\<lparr> reg_ttl := rest \<rparr>; k = te_key entry
            in if map_of (reg_keys reg1) (te_stream_id entry) \<noteq> Some k then pop_expired now_ms reg1
               else if map_of (reg_armed reg1) k \<noteq> Some (te_expires_at_ms entry) then pop_expired now_ms reg1
               else (case key_expiry reg1 k of
                   Some e \<Rightarrow>
                     if e > te_expires_at_ms entry then
                       pop_expired now_ms
                         (reg1\<lparr> reg_armed := AList.update k e (reg_armed reg1),
                                reg_ttl := insort (TtlEntry e (te_stream_id entry) k) (reg_ttl reg1) \<rparr>)
                     else if e = te_expires_at_ms entry then
                       (let reg2 = reg1\<lparr> reg_armed := AList.delete k (reg_armed reg1) \<rparr>
                        in if (case map_of (reg_slots reg2) k of
                                 None \<Rightarrow> False | Some s \<Rightarrow> stream_is_expired (slot_metadata s) now_ms)
                           then (reg2, Some (te_stream_id entry))
                           else pop_expired now_ms reg2)
                     else pop_expired now_ms (reg1\<lparr> reg_armed := AList.delete k (reg_armed reg1) \<rparr>)
                 | None \<Rightarrow> pop_expired now_ms (reg1\<lparr> reg_armed := AList.delete k (reg_armed reg1) \<rparr>)))"
  by pat_completeness auto

lemma renewable_ttl_update [simp]:
  "renewable (reg\<lparr> reg_ttl := t \<rparr>) = renewable reg"
  "renewable (reg\<lparr> reg_ttl := t, reg_armed := a \<rparr>) = renewable (reg\<lparr> reg_armed := a \<rparr>)"
  by (simp_all add: renewable_def key_expiry_def fun_eq_iff)

lemma renewable_delete:
  "renewable (reg\<lparr> reg_armed := AList.delete k (reg_armed reg) \<rparr>) e \<Longrightarrow> renewable reg e"
  by (auto simp: renewable_def key_expiry_def map_of_delete_iff split: if_splits)

lemma renewable_rearm:
  assumes "key_expiry reg k = Some c"
  shows "renewable (reg\<lparr> reg_armed := AList.update k c (reg_armed reg) \<rparr>) e \<longleftrightarrow>
    te_key e \<noteq> k \<and> renewable reg e"
  using assms by (auto simp: renewable_def key_expiry_def map_of_update_iff split: if_splits)

lemma length_filter_mono: "(\<And>x. P x \<Longrightarrow> Q x) \<Longrightarrow> length (filter P xs) \<le> length (filter Q xs)"
  by (induction xs) auto

lemma length_filter_insort: "length (filter P (insort x xs)) = length (filter P (x # xs))"
  by (induction xs) auto

lemma renewable_delete_length:
  "length (filter (renewable (reg\<lparr> reg_armed := AList.delete k (reg_armed reg) \<rparr>)) xs)
     \<le> length (filter (renewable reg) xs)"
  by (rule length_filter_mono) (rule renewable_delete)

termination pop_expired
proof (relation "measure (\<lambda>(now, reg). length (filter (renewable reg) (reg_ttl reg)) + length (reg_ttl reg))",
    goal_cases)
  case (4 now_ms reg entry rest reg1 k)
  then show ?case using renewable_delete_length[where reg = reg and k = k and xs = rest] by simp
next
  case (5 now_ms reg entry rest reg1 k e)
  then have r1: "reg1 = reg\<lparr> reg_ttl := rest \<rparr>" and ke: "key_expiry reg k = Some e"
    and ren: "renewable reg entry"
    by (auto simp: renewable_def key_expiry_def)
  have "length (filter (renewable (reg\<lparr> reg_armed := AList.update k e (reg_armed reg) \<rparr>)) (insort (TtlEntry e (te_stream_id entry) k) rest))
      \<le> length (filter (renewable reg) rest)"
    using ke by (auto simp: length_filter_insort renewable_rearm intro: length_filter_mono)
  with ren 5 show ?case by (simp add: r1)
next
  case (6 now_ms reg entry rest reg1 k e reg2)
  then show ?case using renewable_delete_length[where reg = reg and k = k and xs = rest] by simp
next
  case (7 now_ms reg entry rest reg1 k e)
  then show ?case using renewable_delete_length[where reg = reg and k = k and xs = rest] by simp
qed simp_all

declare pop_expired.simps [simp del]

text \<open>Structure: ids and slots correspond one to one and every key was handed out once.\<close>

definition reg_struct_inv :: "stream_registry \<Rightarrow> bool" where
  "reg_struct_inv reg \<longleftrightarrow>
     distinct (map fst (reg_keys reg)) \<and> distinct (map fst (reg_slots reg)) \<and>
     (\<forall>i k. map_of (reg_keys reg) i = Some k \<longrightarrow> (\<exists>s. map_of (reg_slots reg) k = Some s \<and> slot_stream_id s = i)) \<and>
     (\<forall>k s. map_of (reg_slots reg) k = Some s \<longrightarrow> map_of (reg_keys reg) (slot_stream_id s) = Some k) \<and>
     keys_of (reg_slots reg) \<subseteq> reg_key_seq reg ` {..<reg_allocated reg} \<and> inj (reg_key_seq reg)"

text \<open>Time to live: every armed expiry has its entry in the heap, and every live stream with an
  expiry, except those in \<open>X\<close>, is armed at or before it.\<close>

definition ttl_inv_except :: "bucket_stream_id set \<Rightarrow> stream_registry \<Rightarrow> bool" where
  "ttl_inv_except X reg \<longleftrightarrow> sorted (reg_ttl reg) \<and>
     (\<forall>k a. map_of (reg_armed reg) k = Some a \<longrightarrow>
        (\<exists>s. map_of (reg_slots reg) k = Some s \<and> TtlEntry a (slot_stream_id s) k \<in> set (reg_ttl reg))) \<and>
     (\<forall>k s e. map_of (reg_slots reg) k = Some s \<and> slot_stream_id s \<notin> X \<and>
        stream_expiry_at_ms (slot_metadata s) = Some e \<longrightarrow> (\<exists>a \<le> e. map_of (reg_armed reg) k = Some a))"

definition reg_inv :: "stream_registry \<Rightarrow> bool" where
  "reg_inv reg \<longleftrightarrow> reg_struct_inv reg \<and> ttl_inv_except {} reg"

text \<open>Reference: \<open>i\<close> is the expired stream with the least expiry, ties broken by id.\<close>

definition next_expired :: "u64 \<Rightarrow> stream_registry \<Rightarrow> bucket_stream_id option \<Rightarrow> bool" where
  "next_expired now_ms reg r =
     (case r of
        None \<Rightarrow> \<forall>i s. reg_slot reg i = Some s \<longrightarrow> \<not> stream_is_expired (slot_metadata s) now_ms
      | Some i \<Rightarrow> \<exists>s e. reg_slot reg i = Some s \<and> stream_is_expired (slot_metadata s) now_ms \<and>
          stream_expiry_at_ms (slot_metadata s) = Some e \<and>
          (\<forall>j s' e'. reg_slot reg j = Some s' \<and> stream_is_expired (slot_metadata s') now_ms \<and>
             stream_expiry_at_ms (slot_metadata s') = Some e' \<longrightarrow> (e, i) \<le> (e', j)))"

text \<open>What a pass of \<open>pop_expired\<close> promises.\<close>

definition pop_ok :: "u64 \<Rightarrow> stream_registry \<Rightarrow> stream_registry \<Rightarrow> bucket_stream_id option \<Rightarrow> bool" where
  "pop_ok now_ms reg reg' r \<longleftrightarrow>
     reg_keys reg' = reg_keys reg \<and> reg_slots reg' = reg_slots reg \<and> reg_key_seq reg' = reg_key_seq reg \<and>
     reg_allocated reg' = reg_allocated reg \<and> ttl_inv_except (set_option r) reg' \<and> next_expired now_ms reg r"

text \<open>A write through a slot that does not make its expiry earlier.\<close>

definition expiry_not_earlier :: "stream_slot \<Rightarrow> stream_slot \<Rightarrow> bool" where
  "expiry_not_earlier s s' \<longleftrightarrow> (\<forall>e'. stream_expiry_at_ms (slot_metadata s') = Some e' \<longrightarrow>
     (\<exists>e \<le> e'. stream_expiry_at_ms (slot_metadata s) = Some e))"

text \<open>An empty stream of bucket \<open>acme\<close>.\<close>

definition sample_slot :: "string \<Rightarrow> u64 option \<Rightarrow> stream_slot" where
  "sample_slot name expires = \<lparr> slot_metadata = \<lparr> md_stream_id = BucketStreamId ''acme'' name, md_content_type = ''text/plain'',
       md_status = Open, md_tail_offset = 0, md_last_stream_seq = None, md_stream_ttl_seconds = None,
       md_stream_expires_at_ms = expires, md_created_at_ms = 1, md_last_ttl_touch_at_ms = 1 \<rparr>,
     slot_hot_buffer = empty_hot_buffer, slot_cold = with_generation 1, slot_retained_offset = 0,
     slot_visible_snapshot = None, slot_producers = [], slot_retired_epoch_watermark = None,
     slot_history = 7, slot_inherited = None,
     slot_usage = \<lparr> vu_seq = 1,
       vu_counters = \<lparr> vc_committed = \<lparr> cu_append_bytes = 0, cu_records = 0, cu_write_units = 0 \<rparr>, vc_appends = 0 \<rparr>,
       vu_history_baseline = \<lparr> vc_committed = \<lparr> cu_append_bytes = 0, cu_records = 0, cu_write_units = 0 \<rparr>, vc_appends = 0 \<rparr>,
       vu_last_write = At 1, vu_counted_since = 7 \<rparr> \<rparr>"

section \<open>Lookup laws\<close>

lemma reg_structD:
  assumes "reg_struct_inv reg"
  shows "map_of (reg_keys reg) i = Some k \<Longrightarrow> \<exists>s. map_of (reg_slots reg) k = Some s \<and> slot_stream_id s = i"
    and "map_of (reg_slots reg) k = Some s \<Longrightarrow> map_of (reg_keys reg) (slot_stream_id s) = Some k"
  using assms unfolding reg_struct_inv_def by blast+

lemma reg_struct_parts:
  assumes "reg_struct_inv reg"
  shows "distinct (map fst (reg_keys reg))" "distinct (map fst (reg_slots reg))"
    "keys_of (reg_slots reg) \<subseteq> reg_key_seq reg ` {..<reg_allocated reg}" "inj (reg_key_seq reg)"
  using assms unfolding reg_struct_inv_def by blast+

lemma reg_struct_invI:
  assumes "distinct (map fst (reg_keys reg))" "distinct (map fst (reg_slots reg))"
    "\<And>i k. map_of (reg_keys reg) i = Some k \<Longrightarrow> \<exists>s. map_of (reg_slots reg) k = Some s \<and> slot_stream_id s = i"
    "\<And>k s. map_of (reg_slots reg) k = Some s \<Longrightarrow> map_of (reg_keys reg) (slot_stream_id s) = Some k"
    "keys_of (reg_slots reg) \<subseteq> reg_key_seq reg ` {..<reg_allocated reg}" "inj (reg_key_seq reg)"
  shows "reg_struct_inv reg"
  using assms unfolding reg_struct_inv_def by blast

lemma reg_slot_Some:
  assumes "reg_struct_inv reg"
  shows "reg_slot reg i = Some s \<longleftrightarrow> (\<exists>k. map_of (reg_keys reg) i = Some k \<and> map_of (reg_slots reg) k = Some s)"
    and "reg_slot reg i = Some s \<Longrightarrow> slot_stream_id s = i"
    and "reg_slot reg i = None \<longleftrightarrow> map_of (reg_keys reg) i = None"
  using reg_structD(1)[OF assms, of i]
  by (auto simp: reg_slot_def split: option.splits)

lemma reg_slot_values_iff:
  assumes "reg_struct_inv reg"
  shows "s \<in> set (reg_slot_values reg) \<longleftrightarrow> reg_slot reg (slot_stream_id s) = Some s"
proof
  assume "s \<in> set (reg_slot_values reg)"
  then obtain k where "(k, s) \<in> set (reg_slots reg)" by (auto simp: reg_slot_values_def)
  then have "map_of (reg_slots reg) k = Some s" using assms by (simp add: reg_struct_inv_def)
  then show "reg_slot reg (slot_stream_id s) = Some s"
    using reg_structD(2)[OF assms] reg_slot_Some(1)[OF assms] by blast
next
  assume "reg_slot reg (slot_stream_id s) = Some s"
  then obtain k where "map_of (reg_slots reg) k = Some s" using reg_slot_Some(1)[OF assms] by blast
  from map_of_SomeD[OF this] show "s \<in> set (reg_slot_values reg)" by (force simp: reg_slot_values_def)
qed

lemma fresh_key:
  assumes "reg_struct_inv reg"
  shows "map_of (reg_slots reg) (reg_key_seq reg (reg_allocated reg)) = None"
proof -
  have "reg_key_seq reg (reg_allocated reg) \<notin> keys_of (reg_slots reg)"
    using assms by (auto simp: reg_struct_inv_def inj_def) (metis imageE lessThan_iff less_irrefl subsetD)
  then show ?thesis by (simp add: map_of_None_keys)
qed

lemma key_inj:
  assumes "reg_struct_inv reg" "map_of (reg_keys reg) i = Some k" "map_of (reg_keys reg) j = Some k"
  shows "i = j"
  using reg_structD(1)[OF assms(1,2)] reg_structD(1)[OF assms(1,3)] by auto

text \<open>Operations of the time-to-live index leave ids and slots alone.\<close>

lemma ttl_ops_frame [simp]:
  "reg_keys (arm_ttl_entry i k reg) = reg_keys reg" "reg_slots (arm_ttl_entry i k reg) = reg_slots reg"
  "reg_key_seq (arm_ttl_entry i k reg) = reg_key_seq reg" "reg_allocated (arm_ttl_entry i k reg) = reg_allocated reg"
  "reg_keys (rebuild_ttl_if_bloated reg) = reg_keys reg" "reg_slots (rebuild_ttl_if_bloated reg) = reg_slots reg"
  "reg_key_seq (rebuild_ttl_if_bloated reg) = reg_key_seq reg"
  "reg_allocated (rebuild_ttl_if_bloated reg) = reg_allocated reg"
  "reg_armed (rebuild_ttl_if_bloated reg) = reg_armed reg"
  by (simp_all add: arm_ttl_entry_def rebuild_ttl_if_bloated_def split: option.split)

lemma refresh_ttl_frame [simp]:
  "reg_keys (refresh_ttl i reg) = reg_keys reg" "reg_slots (refresh_ttl i reg) = reg_slots reg"
  "reg_key_seq (refresh_ttl i reg) = reg_key_seq reg" "reg_allocated (refresh_ttl i reg) = reg_allocated reg"
  by (simp_all add: refresh_ttl_def split: option.split)

lemma reg_slot_cong: "reg_keys r' = reg_keys r \<Longrightarrow> reg_slots r' = reg_slots r \<Longrightarrow> reg_slot r' = reg_slot r"
  by (auto simp: reg_slot_def fun_eq_iff split: option.split)

lemma reg_struct_cong:
  "reg_keys r' = reg_keys r \<Longrightarrow> reg_slots r' = reg_slots r \<Longrightarrow> reg_key_seq r' = reg_key_seq r \<Longrightarrow>
   reg_allocated r' = reg_allocated r \<Longrightarrow> reg_struct_inv r' = reg_struct_inv r"
  by (simp add: reg_struct_inv_def)

lemma reg_struct_ttl_ops [simp]:
  "reg_struct_inv (arm_ttl_entry i k reg) = reg_struct_inv reg"
  "reg_struct_inv (rebuild_ttl_if_bloated reg) = reg_struct_inv reg"
  "reg_struct_inv (refresh_ttl i reg) = reg_struct_inv reg"
  by (rule reg_struct_cong; simp)+

lemma reg_struct_insert:
  assumes "reg_struct_inv reg" "map_of (reg_keys reg) (slot_stream_id s) = None"
  shows "reg_struct_inv (reg\<lparr> reg_slots := AList.update (reg_key_seq reg (reg_allocated reg)) s (reg_slots reg),
      reg_allocated := reg_allocated reg + 1,
      reg_keys := AList.update (slot_stream_id s) (reg_key_seq reg (reg_allocated reg)) (reg_keys reg) \<rparr>)"
proof -
  let ?k = "reg_key_seq reg (reg_allocated reg)"
  have new: "map_of (reg_slots reg) ?k = None" by (rule fresh_key[OF assms(1)])
  have "map_of (reg_keys reg) i \<noteq> Some ?k" for i
    using reg_structD(1)[OF assms(1), of i ?k] new by auto
  moreover have "slot_stream_id s' \<noteq> slot_stream_id s" if "map_of (reg_slots reg) k = Some s'" for k s'
    using reg_structD(2)[OF assms(1) that] assms(2) by auto
  moreover have "reg_key_seq reg ` {..<reg_allocated reg} \<subseteq> reg_key_seq reg ` {..<Suc (reg_allocated reg)}" by auto
  ultimately show ?thesis
    using reg_struct_parts[OF assms(1)] reg_structD[OF assms(1)] new
    by (intro reg_struct_invI) (auto simp: map_of_update_iff split: if_splits)
qed

lemma reg_insert_struct:
  assumes "reg_struct_inv reg" "reg_slot reg (slot_stream_id s) = None"
  shows "reg_struct_inv (fst (reg_insert s reg))"
proof -
  have none: "map_of (reg_keys reg) (slot_stream_id s) = None" using assms(2) reg_slot_Some(3)[OF assms(1)] by simp
  show ?thesis using reg_struct_insert[OF assms(1) none] none
    by (simp add: reg_insert_def reg_contains_key_def Let_def slot_stream_id_def)
qed

lemma reg_struct_delete:
  assumes "reg_struct_inv reg" "map_of (reg_keys reg) i = Some k"
  shows "reg_struct_inv (reg\<lparr> reg_keys := AList.delete i (reg_keys reg), reg_armed := a,
      reg_slots := AList.delete k (reg_slots reg) \<rparr>)" (is "reg_struct_inv ?r")
proof (rule reg_struct_invI)
  fix j k'
  assume "map_of (reg_keys ?r) j = Some k'"
  then have j: "j \<noteq> i" "map_of (reg_keys reg) j = Some k'" by (auto simp: map_of_delete_iff split: if_splits)
  have "k' \<noteq> k" using key_inj[OF assms(1) j(2)] assms(2) j(1) by blast
  with reg_structD(1)[OF assms(1) j(2)]
  show "\<exists>s. map_of (reg_slots ?r) k' = Some s \<and> slot_stream_id s = j" by (simp add: map_of_delete_iff)
next
  fix k' s
  assume "map_of (reg_slots ?r) k' = Some s"
  then have k': "k' \<noteq> k" "map_of (reg_slots reg) k' = Some s" by (auto simp: map_of_delete_iff split: if_splits)
  have "map_of (reg_keys reg) (slot_stream_id s) = Some k'" by (rule reg_structD(2)[OF assms(1) k'(2)])
  with k'(1) assms(2) show "map_of (reg_keys ?r) (slot_stream_id s) = Some k'" by (auto simp: map_of_delete_iff)
qed (use reg_struct_parts[OF assms(1)] in auto)

lemma reg_remove_struct:
  assumes "reg_struct_inv reg"
  shows "reg_struct_inv (fst (reg_remove i reg))"
proof (cases "map_of (reg_keys reg) i")
  case (Some k)
  then show ?thesis using reg_struct_delete[OF assms Some] by (simp add: reg_remove_def)
qed (simp add: reg_remove_def assms)

lemma empty_registry_inv: "inj ks \<Longrightarrow> reg_inv (empty_registry ks)"
  by (simp add: reg_inv_def reg_struct_inv_def ttl_inv_except_def empty_registry_def)

lemma reg_struct_modify:
  assumes "reg_struct_inv reg" "\<And>s. slot_stream_id (f s) = slot_stream_id s"
  shows "reg_struct_inv (modify_slot i f reg)"
proof (cases "map_of (reg_keys reg) i")
  case (Some k)
  then obtain s where s: "map_of (reg_slots reg) k = Some s" "slot_stream_id s = i"
    using reg_structD(1)[OF assms(1)] by blast
  have "k \<in> keys_of (reg_slots reg)" using s(1) by (rule map_of_Some_keys)
  moreover have "map_of (reg_keys reg) j = Some k \<Longrightarrow> slot_stream_id s = j" for j
    using key_inj[OF assms(1) Some] s(2) by blast
  ultimately have "reg_struct_inv (reg\<lparr> reg_slots := AList.update k (f s) (reg_slots reg) \<rparr>)" (is "reg_struct_inv ?r")
  proof (intro reg_struct_invI)
    fix j k'
    assume j: "map_of (reg_keys ?r) j = Some k'" and inj: "\<And>j. map_of (reg_keys reg) j = Some k \<Longrightarrow> slot_stream_id s = j"
    show "\<exists>s. map_of (reg_slots ?r) k' = Some s \<and> slot_stream_id s = j"
      using reg_structD(1)[OF assms(1), of j k'] j inj[of j] assms(2)[of s]
      by (cases "k' = k") (simp_all add: map_of_update_iff)
  next
    fix k' s'
    assume "map_of (reg_slots ?r) k' = Some s'"
    then show "map_of (reg_keys ?r) (slot_stream_id s') = Some k'"
      using reg_structD(2)[OF assms(1), of k' s'] Some s(2) assms(2)[of s]
      by (cases "k' = k") (auto simp: map_of_update_iff)
  qed (use reg_struct_parts[OF assms(1)] in auto)
  then show ?thesis using Some s(1) by (simp add: modify_slot_def)
qed (simp add: modify_slot_def assms(1))

lemma reg_slot_modify:
  assumes "reg_struct_inv reg"
  shows "reg_slot (modify_slot i f reg) j = (if j = i then map_option f (reg_slot reg i) else reg_slot reg j)"
proof (cases "map_of (reg_keys reg) i")
  case (Some k)
  then obtain s where s: "map_of (reg_slots reg) k = Some s" using reg_structD(1)[OF assms] by blast
  have "map_of (reg_keys reg) j \<noteq> Some k" if "j \<noteq> i" using key_inj[OF assms _ Some] that by blast
  with Some s show ?thesis
    by (cases "j = i") (auto simp: modify_slot_def reg_slot_def map_of_update_iff split: option.split)
qed (auto simp: modify_slot_def reg_slot_def)

lemma reg_slot_insert:
  assumes "reg_struct_inv reg" "reg_slot reg (slot_stream_id s) = None"
  shows "reg_slot (fst (reg_insert s reg)) j = (if j = slot_stream_id s then Some s else reg_slot reg j)"
proof -
  have "map_of (reg_keys reg) j \<noteq> Some (reg_key_seq reg (reg_allocated reg))"
    using reg_structD(1)[OF assms(1), of j] fresh_key[OF assms(1)] by auto
  then show ?thesis
    using assms(2) reg_slot_Some(3)[OF assms(1)]
    by (auto simp: reg_insert_def reg_contains_key_def slot_stream_id_def Let_def reg_slot_def
        map_of_update_iff split: option.split)
qed

lemma reg_slot_remove:
  assumes "reg_struct_inv reg"
  shows "reg_slot (fst (reg_remove i reg)) j = (if j = i then None else reg_slot reg j)"
    and "snd (reg_remove i reg) = reg_slot reg i"
proof -
  have "map_of (reg_keys reg) j \<noteq> Some k" if "map_of (reg_keys reg) i = Some k" "j \<noteq> i" for k
    using key_inj[OF assms] that by blast
  then show "reg_slot (fst (reg_remove i reg)) j = (if j = i then None else reg_slot reg j)"
    by (cases "j = i") (auto simp: reg_remove_def reg_slot_def map_of_delete_iff split: option.split)
  show "snd (reg_remove i reg) = reg_slot reg i"
    by (simp add: reg_remove_def reg_slot_def split: option.split)
qed

section \<open>The time-to-live index\<close>

lemma ttl_invD:
  assumes "ttl_inv_except X reg"
  shows "sorted (reg_ttl reg)"
    and "map_of (reg_armed reg) k = Some a \<Longrightarrow>
      \<exists>s. map_of (reg_slots reg) k = Some s \<and> TtlEntry a (slot_stream_id s) k \<in> set (reg_ttl reg)"
    and "map_of (reg_slots reg) k = Some s \<Longrightarrow> slot_stream_id s \<notin> X \<Longrightarrow>
      stream_expiry_at_ms (slot_metadata s) = Some e \<Longrightarrow> \<exists>a \<le> e. map_of (reg_armed reg) k = Some a"
  using assms unfolding ttl_inv_except_def by blast+

lemma ttl_invI:
  assumes "sorted (reg_ttl reg)"
    and "\<And>k a. map_of (reg_armed reg) k = Some a \<Longrightarrow>
      \<exists>s. map_of (reg_slots reg) k = Some s \<and> TtlEntry a (slot_stream_id s) k \<in> set (reg_ttl reg)"
    and "\<And>k s e. map_of (reg_slots reg) k = Some s \<Longrightarrow> slot_stream_id s \<notin> X \<Longrightarrow>
      stream_expiry_at_ms (slot_metadata s) = Some e \<Longrightarrow> \<exists>a \<le> e. map_of (reg_armed reg) k = Some a"
  shows "ttl_inv_except X reg"
  using assms unfolding ttl_inv_except_def by blast

text \<open>Dropping the front keeps the invariant when the front is not an armed entry.\<close>

lemma ttl_inv_pop:
  assumes "ttl_inv_except X reg" "reg_ttl reg = entry # rest"
    and "\<And>s. map_of (reg_slots reg) (te_key entry) = Some s \<Longrightarrow> slot_stream_id s = te_stream_id entry \<Longrightarrow>
      map_of (reg_armed reg) (te_key entry) \<noteq> Some (te_expires_at_ms entry)"
  shows "ttl_inv_except X (reg\<lparr> reg_ttl := rest \<rparr>)"
proof (rule ttl_invI)
  show "sorted (reg_ttl (reg\<lparr> reg_ttl := rest \<rparr>))" using ttl_invD(1)[OF assms(1)] assms(2) by simp
  fix k a
  assume a: "map_of (reg_armed (reg\<lparr> reg_ttl := rest \<rparr>)) k = Some a"
  then obtain s where s: "map_of (reg_slots reg) k = Some s" "TtlEntry a (slot_stream_id s) k \<in> set (reg_ttl reg)"
    using ttl_invD(2)[OF assms(1), of k a] by auto
  have "TtlEntry a (slot_stream_id s) k \<noteq> entry" using assms(3)[of s] s(1) a by auto
  with s assms(2) show "\<exists>s. map_of (reg_slots (reg\<lparr> reg_ttl := rest \<rparr>)) k = Some s \<and>
      TtlEntry a (slot_stream_id s) k \<in> set (reg_ttl (reg\<lparr> reg_ttl := rest \<rparr>))" by auto
qed (use ttl_invD(3)[OF assms(1)] in auto)

text \<open>Disarming a key whose slot needs no entry.\<close>

lemma ttl_inv_disarm:
  assumes "ttl_inv_except X reg" "reg_ttl reg = entry # rest" "k = te_key entry"
    and "map_of (reg_slots reg) k = Some s"
    and "stream_expiry_at_ms (slot_metadata s) = None \<or> slot_stream_id s \<in> Y" "X \<subseteq> Y"
  shows "ttl_inv_except Y (reg\<lparr> reg_ttl := rest, reg_armed := AList.delete k (reg_armed reg) \<rparr>)"
    (is "ttl_inv_except Y ?r")
proof (rule ttl_invI)
  show "sorted (reg_ttl ?r)" using ttl_invD(1)[OF assms(1)] assms(2) by simp
  fix k' a
  assume "map_of (reg_armed ?r) k' = Some a"
  then have k': "k' \<noteq> k" "map_of (reg_armed reg) k' = Some a" by (auto simp: map_of_delete_iff split: if_splits)
  obtain s where "map_of (reg_slots reg) k' = Some s" "TtlEntry a (slot_stream_id s) k' \<in> set (reg_ttl reg)"
    using ttl_invD(2)[OF assms(1) k'(2)] by auto
  then show "\<exists>s. map_of (reg_slots ?r) k' = Some s \<and> TtlEntry a (slot_stream_id s) k' \<in> set (reg_ttl ?r)"
    using assms(2,3) k'(1) by auto
next
  fix k' s' e
  assume s': "map_of (reg_slots ?r) k' = Some s'" "slot_stream_id s' \<notin> Y" "stream_expiry_at_ms (slot_metadata s') = Some e"
  then have "k' \<noteq> k" using assms(4,5) by auto
  moreover have "\<exists>a \<le> e. map_of (reg_armed reg) k' = Some a"
    using ttl_invD(3)[OF assms(1), of k' s' e] s' assms(6) by auto
  ultimately show "\<exists>a \<le> e. map_of (reg_armed ?r) k' = Some a" by (simp add: map_of_delete_iff)
qed

lemma ttl_inv_rearm:
  assumes "ttl_inv_except X reg" "reg_ttl reg = entry # rest" "k = te_key entry"
    and "map_of (reg_slots reg) k = Some s" "slot_stream_id s = te_stream_id entry"
    and "stream_expiry_at_ms (slot_metadata s) = Some e"
  shows "ttl_inv_except X (reg\<lparr> reg_armed := AList.update k e (reg_armed reg),
      reg_ttl := insort (TtlEntry e (te_stream_id entry) k) rest \<rparr>)" (is "ttl_inv_except X ?r")
proof (rule ttl_invI)
  show "sorted (reg_ttl ?r)" using ttl_invD(1)[OF assms(1)] assms(2) by (simp add: sorted_insort)
  fix k' a
  assume a: "map_of (reg_armed ?r) k' = Some a"
  show "\<exists>s. map_of (reg_slots ?r) k' = Some s \<and> TtlEntry a (slot_stream_id s) k' \<in> set (reg_ttl ?r)"
  proof (cases "k' = k")
    case True
    with a assms(4,5) show ?thesis by (simp add: map_of_update_iff set_insort_key)
  next
    case False
    then obtain s where "map_of (reg_slots reg) k' = Some s" "TtlEntry a (slot_stream_id s) k' \<in> set (reg_ttl reg)"
      using ttl_invD(2)[OF assms(1), of k' a] a by (auto simp: map_of_update_iff)
    with False assms(2,3) show ?thesis by (auto simp: set_insort_key)
  qed
next
  fix k' s' e'
  assume s': "map_of (reg_slots ?r) k' = Some s'" "slot_stream_id s' \<notin> X" "stream_expiry_at_ms (slot_metadata s') = Some e'"
  show "\<exists>a \<le> e'. map_of (reg_armed ?r) k' = Some a"
    using s' assms(4,6) ttl_invD(3)[OF assms(1), of k' s' e'] by (cases "k' = k") (auto simp: map_of_update_iff)
qed

lemma front_below:
  assumes "reg_struct_inv reg" "ttl_inv_except {} reg" "reg_ttl reg = entry # rest"
    and "reg_slot reg j = Some s" "stream_expiry_at_ms (slot_metadata s) = Some e"
  shows "(te_expires_at_ms entry, te_stream_id entry) \<le> (e, j)"
proof -
  obtain k where k: "map_of (reg_slots reg) k = Some s" "slot_stream_id s = j"
    using reg_slot_Some(1,2)[OF assms(1)] assms(4) by blast
  obtain a where a: "a \<le> e" "map_of (reg_armed reg) k = Some a"
    using ttl_invD(3)[OF assms(2) k(1) _ assms(5)] by auto
  then have "TtlEntry a j k \<in> set (entry # rest)" using ttl_invD(2)[OF assms(2) a(2)] k assms(3) by auto
  then have "entry \<le> TtlEntry a j k" using ttl_invD(1)[OF assms(2)] assms(3) by auto
  then have "(te_expires_at_ms entry, te_stream_id entry) \<le> (a, j)"
    by (auto simp: ttl_entry_order less_eq_prod_def)
  also have "(a, j) \<le> (e, j)" using a(1) by (auto simp: less_eq_prod_def)
  finally show ?thesis .
qed

lemma pop_ok_cong:
  assumes "reg_keys r1 = reg_keys reg" "reg_slots r1 = reg_slots reg" "reg_key_seq r1 = reg_key_seq reg"
    "reg_allocated r1 = reg_allocated reg"
  shows "pop_ok now_ms r1 reg' r \<longleftrightarrow> pop_ok now_ms reg reg' r"
  by (simp only: pop_ok_def next_expired_def reg_slot_cong[OF assms(1,2)] assms)

lemma none_due:
  assumes "reg_struct_inv reg" "ttl_inv_except {} reg" "\<not> ttl_front_due now_ms reg"
  shows "next_expired now_ms reg None"
proof -
  have "\<not> stream_is_expired (slot_metadata s) now_ms" if s: "reg_slot reg i = Some s" for i s
  proof (cases "reg_ttl reg")
    case Nil
    obtain k where "map_of (reg_slots reg) k = Some s" using reg_slot_Some(1)[OF assms(1)] s by blast
    then show ?thesis using ttl_invD(2,3)[OF assms(2)] Nil
      by (fastforce simp: stream_is_expired_def split: option.splits)
  next
    case (Cons entry rest)
    then show ?thesis using front_below[OF assms(1,2) Cons s] assms(3)
      by (auto simp: ttl_front_due_def stream_is_expired_def less_eq_prod_def split: option.splits)
  qed
  then show ?thesis by (auto simp: next_expired_def)
qed

text \<open>The entry at the front is the armed one of a live stream, and due: three cases.\<close>

lemma armed_front_cases:
  assumes "reg_struct_inv reg" "ttl_inv_except {} reg" "map_of (reg_keys reg) (te_stream_id entry) = Some (te_key entry)"
    "map_of (reg_armed reg) (te_key entry) = Some (te_expires_at_ms entry)"
  obtains s where "map_of (reg_slots reg) (te_key entry) = Some s" "slot_stream_id s = te_stream_id entry"
    "reg_slot reg (te_stream_id entry) = Some s" "stream_expiry_at_ms (slot_metadata s) = None"
  | s e where "map_of (reg_slots reg) (te_key entry) = Some s" "slot_stream_id s = te_stream_id entry"
    "reg_slot reg (te_stream_id entry) = Some s" "stream_expiry_at_ms (slot_metadata s) = Some e" "e > te_expires_at_ms entry"
  | s where "map_of (reg_slots reg) (te_key entry) = Some s" "slot_stream_id s = te_stream_id entry"
    "reg_slot reg (te_stream_id entry) = Some s" "stream_expiry_at_ms (slot_metadata s) = Some (te_expires_at_ms entry)"
proof -
  obtain s where s: "map_of (reg_slots reg) (te_key entry) = Some s" "slot_stream_id s = te_stream_id entry"
    using reg_structD(1)[OF assms(1)] assms(3) by blast
  have slot: "reg_slot reg (te_stream_id entry) = Some s" using assms(3) s by (simp add: reg_slot_def)
  show thesis
  proof (cases "stream_expiry_at_ms (slot_metadata s)")
    case (Some e)
    then show ?thesis using that(2,3)[OF s slot] ttl_invD(3)[OF assms(2) s(1) _ Some] assms(4)
      by (cases "e = te_expires_at_ms entry") auto
  qed (use that(1)[OF s slot] in blast)
qed

lemma pop_expired_ok:
  assumes "reg_struct_inv reg" "ttl_inv_except {} reg" "pop_expired now_ms reg = (reg', r)"
  shows "pop_ok now_ms reg reg' r"
  using assms
proof (induction now_ms reg arbitrary: reg' r rule: pop_expired.induct)
  case (1 now_ms reg)
  note step = "1.prems"(3)[unfolded pop_expired.simps[of now_ms reg]]
  show ?case
  proof (cases "ttl_front_due now_ms reg")
    case False
    then have "reg' = reg \<and> r = None" using step by (auto simp: ttl_front_due_def split: list.splits)
    with none_due[OF "1.prems"(1,2) False] "1.prems"(2) show ?thesis by (simp add: pop_ok_def)
  next
    case True
    then obtain entry rest where Cons: "reg_ttl reg = entry # rest" and due: "\<not> te_expires_at_ms entry > now_ms"
      by (auto simp: ttl_front_due_def split: list.splits)
    let ?r1 = "reg\<lparr> reg_ttl := rest \<rparr>" and ?k = "te_key entry"
    let ?r2 = "reg\<lparr> reg_ttl := rest, reg_armed := AList.delete ?k (reg_armed reg) \<rparr>"
    note IH = "1.IH"[OF Cons due refl refl]
    have frame: "reg_struct_inv ?r1" "reg_struct_inv ?r2" "pop_ok now_ms ?r1 reg' r \<Longrightarrow> pop_ok now_ms reg reg' r"
      "pop_ok now_ms ?r2 reg' r \<Longrightarrow> pop_ok now_ms reg reg' r"
      using "1.prems"(1) reg_struct_cong[of ?r1 reg] reg_struct_cong[of ?r2 reg] pop_ok_cong[of ?r1 reg] pop_ok_cong[of ?r2 reg]
      by simp_all
    show ?thesis
    proof (cases "map_of (reg_keys reg) (te_stream_id entry) = Some ?k \<and>
        map_of (reg_armed reg) ?k = Some (te_expires_at_ms entry)")
      case False
      have inv: "ttl_inv_except {} ?r1"
        using False reg_structD(2)[OF "1.prems"(1), of ?k] by (intro ttl_inv_pop[OF "1.prems"(2) Cons]) auto
      have pop: "pop_expired now_ms ?r1 = (reg', r)" using step Cons due False by (simp add: Let_def split: if_splits)
      show ?thesis
        using IH(1)[OF _ frame(1) inv pop] IH(2)[OF _ _ frame(1) inv pop] False frame(3)
        by (cases "map_of (reg_keys reg) (te_stream_id entry) = Some ?k") auto
    next
      case armed: True
      have ke: "key_expiry ?r1 ?k = stream_expiry_at_ms (slot_metadata s)" if "map_of (reg_slots reg) ?k = Some s" for s
        using that by (simp add: key_expiry_def)
      from "1.prems"(1,2) conjunct1[OF armed] conjunct2[OF armed] show ?thesis
      proof (cases rule: armed_front_cases)
        case (1 s)
        have "ttl_inv_except {} ?r2" using 1 by (intro ttl_inv_disarm[OF "1.prems"(2) Cons refl 1(1)]) auto
        moreover have "pop_expired now_ms ?r2 = (reg', r)" using step Cons due armed 1 ke by (simp add: Let_def)
        ultimately show ?thesis using IH(3) armed 1(4) ke[OF 1(1)] frame by simp
      next
        case (2 s e)
        let ?q = "?r1\<lparr> reg_armed := AList.update ?k e (reg_armed ?r1),
            reg_ttl := insort (TtlEntry e (te_stream_id entry) ?k) (reg_ttl ?r1) \<rparr>"
        have "ttl_inv_except {} ?q" using ttl_inv_rearm[OF "1.prems"(2) Cons refl 2(1,2,4)] by simp
        moreover have "pop_expired now_ms ?q = (reg', r)" using step Cons due armed 2 ke by (simp add: Let_def)
        moreover have "reg_struct_inv ?q" using reg_struct_cong[of ?q reg] "1.prems"(1) by simp
        ultimately have "pop_ok now_ms ?q reg' r" using armed ke[OF 2(1)] 2(4)
          by (intro IH(4)[OF _ _ _ 2(5)]) simp_all
        then show ?thesis using pop_ok_cong[of ?q reg] by simp
      next
        case (3 s)
        then have expired: "stream_is_expired (slot_metadata s) now_ms" using due by (simp add: stream_is_expired_def)
        then have res: "reg' = ?r2" "r = Some (te_stream_id entry)"
          using step Cons due armed 3(1,4) ke by (auto simp: Let_def)
        have "ttl_inv_except (set_option r) ?r2"
          using 3(2) res by (intro ttl_inv_disarm[OF "1.prems"(2) Cons refl 3(1)]) auto
        then show ?thesis
          using 3(3,4) expired front_below[OF "1.prems"(1,2) Cons] res by (auto simp: next_expired_def pop_ok_def)
      qed
    qed
  qed
qed

section \<open>Operations keep the invariant\<close>

lemma ttl_inv_arm:
  assumes st: "reg_struct_inv reg" and inv: "ttl_inv_except X reg"
    and s: "map_of (reg_slots reg) k = Some s" "slot_stream_id s = i"
  shows "ttl_inv_except (X - {i}) (arm_ttl_entry i k reg)"
proof -
  have only: "k' = k" if "map_of (reg_slots reg) k' = Some s'" "slot_stream_id s' = i" for k' s'
    using reg_structD(2)[OF st that(1)] reg_structD(2)[OF st s(1)] that(2) s(2) by simp
  have old: "\<exists>a \<le> e. map_of (reg_armed reg) k' = Some a"
    if "map_of (reg_slots reg) k' = Some s'" "slot_stream_id s' \<notin> X - {i}" "k' \<noteq> k"
      "stream_expiry_at_ms (slot_metadata s') = Some e" for k' s' e
    using ttl_invD(3)[OF inv that(1) _ that(4)] that(2,3) only[OF that(1)] by blast
  show ?thesis
  proof (cases "stream_expiry_at_ms (slot_metadata s)")
    case None
    then have eq: "arm_ttl_entry i k reg = reg" using s by (simp add: arm_ttl_entry_def)
    have "\<exists>a \<le> e'. map_of (reg_armed reg) k' = Some a"
      if "map_of (reg_slots reg) k' = Some s'" "slot_stream_id s' \<notin> X - {i}"
        "stream_expiry_at_ms (slot_metadata s') = Some e'" for k' s' e'
      using old[OF that(1,2) _ that(3)] None s(1) that by (cases "k' = k") auto
    then show ?thesis unfolding eq using ttl_invD(1,2)[OF inv] by (intro ttl_invI) auto
  next
    case (Some e)
    show ?thesis
    proof (cases "\<exists>a. map_of (reg_armed reg) k = Some a \<and> a \<le> e")
      case True
      then have eq: "arm_ttl_entry i k reg = reg" using s Some by (auto simp: arm_ttl_entry_def)
      have "\<exists>a \<le> e'. map_of (reg_armed reg) k' = Some a"
        if "map_of (reg_slots reg) k' = Some s'" "slot_stream_id s' \<notin> X - {i}"
          "stream_expiry_at_ms (slot_metadata s') = Some e'" for k' s' e'
        using old[OF that(1,2) _ that(3)] True Some s(1) that by (cases "k' = k") auto
      then show ?thesis unfolding eq using ttl_invD(1,2)[OF inv] by (intro ttl_invI) auto
    next
      case False
      let ?r = "reg\<lparr> reg_armed := AList.update k e (reg_armed reg), reg_ttl := insort (TtlEntry e i k) (reg_ttl reg) \<rparr>"
      have eq: "arm_ttl_entry i k reg = ?r"
        using s Some False by (auto simp: arm_ttl_entry_def split: option.splits)
      show ?thesis unfolding eq
      proof (rule ttl_invI)
        show "sorted (reg_ttl ?r)" using ttl_invD(1)[OF inv] by (simp add: sorted_insort)
        fix k' a
        assume "map_of (reg_armed ?r) k' = Some a"
        then show "\<exists>s. map_of (reg_slots ?r) k' = Some s \<and> TtlEntry a (slot_stream_id s) k' \<in> set (reg_ttl ?r)"
          using ttl_invD(2)[OF inv, of k' a] s by (cases "k' = k") (auto simp: map_of_update_iff set_insort_key)
      next
        fix k' s' e'
        assume a: "map_of (reg_slots ?r) k' = Some s'" "slot_stream_id s' \<notin> X - {i}"
          "stream_expiry_at_ms (slot_metadata s') = Some e'"
        then show "\<exists>a \<le> e'. map_of (reg_armed ?r) k' = Some a"
          using old[of k' s' e'] s(1) Some by (cases "k' = k") (auto simp: map_of_update_iff)
      qed
    qed
  qed
qed

lemma armed_entries_mem:
  "map_of (reg_armed reg) k = Some a \<Longrightarrow> map_of (reg_slots reg) k = Some s \<Longrightarrow>
   TtlEntry a (slot_stream_id s) k \<in> set (armed_entries reg)"
  by (force simp: armed_entries_def slot_stream_id_def dest: map_of_SomeD split: option.split)

lemma ttl_inv_rebuild:
  assumes "ttl_inv_except X reg"
  shows "ttl_inv_except X (rebuild_ttl_if_bloated reg)"
proof -
  have "ttl_inv_except X (reg\<lparr> reg_ttl := sort (armed_entries reg) \<rparr>)"
    using ttl_invD[OF assms] armed_entries_mem[of reg] by (intro ttl_invI) fastforce+
  then show ?thesis using assms by (simp add: rebuild_ttl_if_bloated_def)
qed

lemma ttl_inv_refresh:
  assumes "reg_struct_inv reg" "ttl_inv_except (insert i X) reg" "i \<notin> X"
  shows "ttl_inv_except X (refresh_ttl i reg)"
proof (cases "map_of (reg_keys reg) i")
  case None
  have "slot_stream_id s \<noteq> i" if "map_of (reg_slots reg) k = Some s" for k s
    using reg_structD(2)[OF assms(1) that] None by auto
  then have "ttl_inv_except X reg" using ttl_invD[OF assms(2)] by (intro ttl_invI) auto
  with None show ?thesis by (simp add: refresh_ttl_def)
next
  case (Some k)
  then obtain s where "map_of (reg_slots reg) k = Some s" "slot_stream_id s = i"
    using reg_structD(1)[OF assms(1)] by blast
  from ttl_inv_arm[OF assms(1,2) this] assms(3) ttl_inv_rebuild Some show ?thesis
    by (simp add: refresh_ttl_def)
qed

lemma reg_insert_inv:
  assumes "reg_inv reg" "reg_slot reg (slot_stream_id s) = None"
  shows "reg_inv (fst (reg_insert s reg))"
proof -
  have st: "reg_struct_inv reg" and inv: "ttl_inv_except {} reg" using assms(1) by (auto simp: reg_inv_def)
  let ?k = "reg_key_seq reg (reg_allocated reg)" and ?i = "slot_stream_id s"
  let ?r = "reg\<lparr> reg_slots := AList.update ?k s (reg_slots reg), reg_allocated := reg_allocated reg + 1,
      reg_keys := AList.update ?i ?k (reg_keys reg) \<rparr>"
  have none: "map_of (reg_keys reg) ?i = None" using assms(2) reg_slot_Some(3)[OF st] by simp
  have eq: "fst (reg_insert s reg) = arm_ttl_entry ?i ?k ?r"
    using none by (simp add: reg_insert_def reg_contains_key_def Let_def slot_stream_id_def)
  have st': "reg_struct_inv ?r" by (rule reg_struct_insert[OF st none])
  have new: "map_of (reg_slots reg) ?k = None" by (rule fresh_key[OF st])
  have "ttl_inv_except {?i} ?r"
  proof (rule ttl_invI)
    fix k a
    assume "map_of (reg_armed ?r) k = Some a"
    then obtain s' where "map_of (reg_slots reg) k = Some s'" "TtlEntry a (slot_stream_id s') k \<in> set (reg_ttl reg)"
      using ttl_invD(2)[OF inv] by auto
    with new show "\<exists>s. map_of (reg_slots ?r) k = Some s \<and> TtlEntry a (slot_stream_id s) k \<in> set (reg_ttl ?r)"
      by (cases "k = ?k") (auto simp: map_of_update_iff)
  next
    fix k s' e
    assume "map_of (reg_slots ?r) k = Some s'" "slot_stream_id s' \<notin> {?i}" "stream_expiry_at_ms (slot_metadata s') = Some e"
    then show "\<exists>a \<le> e. map_of (reg_armed ?r) k = Some a"
      using ttl_invD(3)[OF inv, of k s' e] by (cases "k = ?k") (auto simp: map_of_update_iff)
  qed (use ttl_invD(1)[OF inv] in simp)
  then have "ttl_inv_except {} (arm_ttl_entry ?i ?k ?r)"
    using ttl_inv_arm[OF st', of "{?i}" ?k s ?i] by (simp add: map_of_update_iff)
  then show ?thesis using st' reg_struct_cong[of "arm_ttl_entry ?i ?k ?r" ?r] by (simp add: eq reg_inv_def)
qed

lemma ttl_inv_remove:
  assumes st: "reg_struct_inv reg" and inv: "ttl_inv_except X reg" and k: "map_of (reg_keys reg) i = Some k"
  shows "ttl_inv_except (X - {i}) (reg\<lparr> reg_keys := AList.delete i (reg_keys reg),
      reg_armed := AList.delete k (reg_armed reg), reg_slots := AList.delete k (reg_slots reg) \<rparr>)"
    (is "ttl_inv_except _ ?r")
proof (rule ttl_invI)
  show "sorted (reg_ttl ?r)" using ttl_invD(1)[OF inv] by simp
  fix k' a
  assume "map_of (reg_armed ?r) k' = Some a"
  then show "\<exists>s. map_of (reg_slots ?r) k' = Some s \<and> TtlEntry a (slot_stream_id s) k' \<in> set (reg_ttl ?r)"
    using ttl_invD(2)[OF inv, of k' a] by (cases "k' = k") (auto simp: map_of_delete_iff)
next
  fix k' s e
  assume a: "map_of (reg_slots ?r) k' = Some s" "slot_stream_id s \<notin> X - {i}" "stream_expiry_at_ms (slot_metadata s) = Some e"
  then have k': "k' \<noteq> k" "map_of (reg_slots reg) k' = Some s" by (auto simp: map_of_delete_iff split: if_splits)
  have "slot_stream_id s \<noteq> i" using reg_structD(2)[OF st k'(2)] k k'(1) by auto
  then show "\<exists>a \<le> e. map_of (reg_armed ?r) k' = Some a"
    using ttl_invD(3)[OF inv k'(2) _ a(3)] a(2) k'(1) by (auto simp: map_of_delete_iff)
qed

lemma reg_remove_inv:
  assumes "reg_struct_inv reg" "ttl_inv_except X reg"
  shows "reg_struct_inv (fst (reg_remove i reg)) \<and> ttl_inv_except (X - {i}) (fst (reg_remove i reg))"
proof (cases "map_of (reg_keys reg) i")
  case None
  have "slot_stream_id s \<noteq> i" if "map_of (reg_slots reg) k = Some s" for k s
    using reg_structD(2)[OF assms(1) that] None by auto
  then have "ttl_inv_except (X - {i}) reg" using ttl_invD[OF assms(2)] by (intro ttl_invI) auto
  with None assms(1) show ?thesis by (simp add: reg_remove_def)
next
  case (Some k)
  let ?r = "reg\<lparr> reg_keys := AList.delete i (reg_keys reg),
      reg_armed := AList.delete k (reg_armed reg), reg_slots := AList.delete k (reg_slots reg) \<rparr>"
  show ?thesis
    using ttl_inv_rebuild[OF ttl_inv_remove[OF assms Some]] reg_struct_delete[OF assms(1) Some] Some
    by (simp add: reg_remove_def)
qed

lemma ttl_inv_modify:
  assumes st: "reg_struct_inv reg" and inv: "ttl_inv_except X reg" and id: "\<And>s. slot_stream_id (f s) = slot_stream_id s"
  shows "ttl_inv_except (insert i X) (modify_slot i f reg)"
    and "(\<And>s. reg_slot reg i = Some s \<Longrightarrow> expiry_not_earlier s (f s)) \<Longrightarrow> ttl_inv_except X (modify_slot i f reg)"
proof -
  have key: "ttl_inv_except Y (modify_slot i f reg)"
    if Y: "X \<subseteq> Y" "i \<in> Y \<or> (\<forall>s. reg_slot reg i = Some s \<longrightarrow> expiry_not_earlier s (f s))" for Y
  proof (cases "map_of (reg_keys reg) i")
    case None
    then have "modify_slot i f reg = reg" by (simp add: modify_slot_def)
    then show ?thesis using ttl_invD[OF inv] Y(1) by (intro ttl_invI) (simp_all add: subset_iff, blast)
  next
    case (Some k)
    then obtain s where s: "map_of (reg_slots reg) k = Some s" "slot_stream_id s = i"
      using reg_structD(1)[OF st] by blast
    let ?r = "reg\<lparr> reg_slots := AList.update k (f s) (reg_slots reg) \<rparr>"
    have slot: "reg_slot reg i = Some s" using Some s by (simp add: reg_slot_def)
    have "ttl_inv_except Y ?r"
    proof (rule ttl_invI)
      fix k' a
      assume "map_of (reg_armed ?r) k' = Some a"
      then show "\<exists>s. map_of (reg_slots ?r) k' = Some s \<and> TtlEntry a (slot_stream_id s) k' \<in> set (reg_ttl ?r)"
        using ttl_invD(2)[OF inv, of k' a] s id[of s] by (cases "k' = k") (auto simp: map_of_update_iff)
    next
      fix k' s' e
      assume a: "map_of (reg_slots ?r) k' = Some s'" "slot_stream_id s' \<notin> Y" "stream_expiry_at_ms (slot_metadata s') = Some e"
      show "\<exists>a \<le> e. map_of (reg_armed ?r) k' = Some a"
      proof (cases "k' = k")
        case True
        then have "s' = f s" "i \<notin> Y" using a s id[of s] by (auto simp: map_of_update_iff)
        then obtain e0 where "e0 \<le> e" "stream_expiry_at_ms (slot_metadata s) = Some e0"
          using Y(2) slot a(3) by (auto simp: expiry_not_earlier_def)
        then show ?thesis using ttl_invD(3)[OF inv s(1), of e0] s(2) True Y(1) \<open>i \<notin> Y\<close> by fastforce
      next
        case False
        then show ?thesis using ttl_invD(3)[OF inv, of k' s' e] a Y(1) by (auto simp: map_of_update_iff)
      qed
    qed (use ttl_invD(1)[OF inv] in simp)
    then show ?thesis using Some s(1) by (simp add: modify_slot_def)
  qed
  show "ttl_inv_except (insert i X) (modify_slot i f reg)" by (rule key) auto
  show "(\<And>s. reg_slot reg i = Some s \<Longrightarrow> expiry_not_earlier s (f s)) \<Longrightarrow> ttl_inv_except X (modify_slot i f reg)"
    by (rule key) auto
qed

section \<open>The table interface\<close>

text \<open>What the state machine relies on: a table of slots by stream id with insertion,
  removal and writing through a slot.\<close>

locale slot_table =
  fixes tbl_inv :: "'t \<Rightarrow> bool"
    and look :: "'t \<Rightarrow> bucket_stream_id \<Rightarrow> stream_slot option"
    and put :: "stream_slot \<Rightarrow> 't \<Rightarrow> 't"
    and drop_slot :: "bucket_stream_id \<Rightarrow> 't \<Rightarrow> 't"
    and change :: "bucket_stream_id \<Rightarrow> (stream_slot \<Rightarrow> stream_slot) \<Rightarrow> 't \<Rightarrow> 't"
  assumes look_id: "tbl_inv t \<Longrightarrow> look t i = Some s \<Longrightarrow> slot_stream_id s = i"
    and put_law: "tbl_inv t \<Longrightarrow> look t (slot_stream_id s) = None \<Longrightarrow>
      tbl_inv (put s t) \<and> look (put s t) = (look t)(slot_stream_id s \<mapsto> s)"
    and drop_law: "tbl_inv t \<Longrightarrow> tbl_inv (drop_slot i t) \<and> look (drop_slot i t) = (look t)(i := None)"
    and change_law: "tbl_inv t \<Longrightarrow> (\<And>s. slot_stream_id (f s) = slot_stream_id s) \<Longrightarrow>
      tbl_inv (change i f t) \<and> look (change i f t) = (look t)(i := map_option f (look t i))"
begin

lemma drop_put:
  assumes "tbl_inv t" "look t (slot_stream_id s) = None"
  shows "look (drop_slot (slot_stream_id s) (put s t)) = look t"
  using put_law[OF assms] drop_law[of "put s t" "slot_stream_id s"] assms(2) by auto

lemma put_drop:
  assumes "tbl_inv t" "look t i = Some s"
  shows "look (put s (drop_slot i t)) = look t"
proof -
  have "slot_stream_id s = i" using assms look_id by blast
  then show ?thesis using drop_law[OF assms(1), of i] put_law[of "drop_slot i t" s] assms(2) by auto
qed

lemma change_change:
  assumes "tbl_inv t" "\<And>s. slot_stream_id (f s) = slot_stream_id s" "\<And>s. slot_stream_id (g s) = slot_stream_id s"
  shows "look (change i g (change i f t)) = look (change i (g \<circ> f) t)"
  using change_law[OF assms(1,2), of i] change_law[of "change i f t" g i] change_law[OF assms(1), of "g \<circ> f" i] assms(2,3)
  by (simp add: option.map_comp)

lemma change_commute:
  assumes "tbl_inv t" "\<And>s. slot_stream_id (f s) = slot_stream_id s" "\<And>s. slot_stream_id (g s) = slot_stream_id s"
    and "i \<noteq> j"
  shows "look (change i f (change j g t)) = look (change j g (change i f t))"
  using change_law[OF assms(1,2), of i] change_law[OF assms(1,3), of j] change_law[of "change j g t" f i]
    change_law[of "change i f t" g j] assms(2,3,4)
  by (simp add: fun_upd_twist)

lemma drop_change:
  assumes "tbl_inv t" "\<And>s. slot_stream_id (f s) = slot_stream_id s"
  shows "look (drop_slot i (change i f t)) = look (drop_slot i t)"
  using change_law[OF assms, of i] drop_law[of "change i f t" i] drop_law[OF assms(1), of i] by simp

end

interpretation rt: slot_table reg_struct_inv reg_slot "\<lambda>s reg. fst (reg_insert s reg)"
  "\<lambda>i reg. fst (reg_remove i reg)" modify_slot
proof
  fix t :: stream_registry and i and s :: stream_slot and f :: "stream_slot \<Rightarrow> stream_slot"
  assume t: "reg_struct_inv t"
  show "reg_slot t i = Some s \<Longrightarrow> slot_stream_id s = i" using reg_slot_Some(2)[OF t] .
  show "reg_struct_inv (fst (reg_insert s t)) \<and> reg_slot (fst (reg_insert s t)) = (reg_slot t)(slot_stream_id s \<mapsto> s)"
    if "reg_slot t (slot_stream_id s) = None"
    using reg_slot_insert[OF t that] reg_insert_struct[OF t that] by (simp add: fun_eq_iff)
  show "reg_struct_inv (fst (reg_remove i t)) \<and> reg_slot (fst (reg_remove i t)) = (reg_slot t)(i := None)"
    using reg_slot_remove(1)[OF t, of i] reg_remove_struct[OF t] by (simp add: fun_eq_iff)
  show "reg_struct_inv (modify_slot i f t) \<and> reg_slot (modify_slot i f t) = (reg_slot t)(i := map_option f (reg_slot t i))"
    if "\<And>s. slot_stream_id (f s) = slot_stream_id s"
    using reg_slot_modify[OF t, of i f] reg_struct_modify[OF t that, of i] by (simp add: fun_eq_iff)
qed

section \<open>Properties\<close>

lemma sample_slot_simps:
  "slot_stream_id (sample_slot n e) = BucketStreamId ''acme'' n"
  "md_stream_id (slot_metadata (sample_slot n e)) = BucketStreamId ''acme'' n"
  "stream_expiry_at_ms (slot_metadata (sample_slot n e)) = e"
  by (simp_all add: sample_slot_def slot_stream_id_def stream_expiry_at_ms_def split: option.split)

lemmas sample_registry_simps = sample_slot_simps empty_registry_def reg_insert_def reg_contains_key_def
  arm_ttl_entry_def reg_slot_def Let_def ttl_entry_order
  pop_expired.simps key_expiry_def stream_is_expired_def


text \<open>C31. A pass over the time-to-live index returns the expired stream with the least expiry,
  ties broken by stream id, and no stream exactly when none has expired; the table is
  unchanged, and the index is exact again once the returned stream is removed.  Whenever
  some stream has expired the front of the index is due, so a sweep is never skipped
  wrongly.\<close>

theorem pop_expired_exact:
  assumes "reg_inv reg" "pop_expired now_ms reg = (reg', r)"
  shows "reg_slot reg' = reg_slot reg \<and> next_expired now_ms reg r \<and>
    reg_inv (case r of None \<Rightarrow> reg' | Some i \<Rightarrow> fst (reg_remove i reg')) \<and>
    (\<forall>i s. reg_slot reg i = Some s \<and> stream_is_expired (slot_metadata s) now_ms \<longrightarrow> ttl_front_due now_ms reg)"
proof -
  have inv: "reg_struct_inv reg" "ttl_inv_except {} reg" using assms(1) by (simp_all add: reg_inv_def)
  have ok: "pop_ok now_ms reg reg' r" by (rule pop_expired_ok[OF inv assms(2)])
  then have st: "reg_struct_inv reg'" using inv(1) reg_struct_cong[of reg' reg] by (simp add: pop_ok_def)
  have "ttl_inv_except (set_option r) reg'" using ok by (simp add: pop_ok_def)
  then have "reg_inv (case r of None \<Rightarrow> reg' | Some i \<Rightarrow> fst (reg_remove i reg'))"
    using reg_remove_inv[OF st, of "{the r}" "the r"] st by (cases r) (auto simp: reg_inv_def)
  moreover have "ttl_front_due now_ms reg" if "reg_slot reg i = Some s" "stream_is_expired (slot_metadata s) now_ms" for i s
    using none_due[OF inv, of now_ms] that by (auto simp: next_expired_def)
  ultimately show ?thesis using ok reg_slot_cong[of reg' reg] by (auto simp: pop_ok_def)
qed

theorem pop_expired_exact_witness:
  "let reg = fst (reg_insert (sample_slot ''b'' (Some 40)) (fst (reg_insert (sample_slot ''a'' (Some 50))
       (fst (reg_insert (sample_slot ''c'' None) (empty_registry id))))))
   in snd (pop_expired 60 reg) = Some (BucketStreamId ''acme'' ''b'') \<and>
      snd (pop_expired 30 reg) = None \<and>
      next_expired 60 reg (snd (pop_expired 60 reg)) \<and> next_expired 30 reg (snd (pop_expired 30 reg))"
proof -
  let ?reg = "fst (reg_insert (sample_slot ''b'' (Some 40)) (fst (reg_insert (sample_slot ''a'' (Some 50))
       (fst (reg_insert (sample_slot ''c'' None) (empty_registry id))))))"
  have inv: "reg_inv ?reg" by (intro reg_insert_inv empty_registry_inv inj_on_id) (simp_all add: sample_registry_simps)
  have ex: "snd (pop_expired 60 ?reg) = Some (BucketStreamId ''acme'' ''b'')" "snd (pop_expired 30 ?reg) = None"
    by (simp_all add: sample_registry_simps)
  have "next_expired now ?reg (snd (pop_expired now ?reg))" for now
    using pop_expired_exact[OF inv prod.collapse[symmetric], of now] by blast
  with ex show ?thesis unfolding Let_def by blast
qed

text \<open>C32. The registry is a table of slots by stream id whose time-to-live index stays exact:
  inserting a new stream, removing one, and renewing the index after a write through a
  slot keep the invariant, and each changes the lookup of that one stream only.\<close>

theorem registry_operations_exact:
  assumes "reg_inv reg"
  shows "(\<forall>s. reg_slot reg (slot_stream_id s) = None \<longrightarrow> reg_inv (fst (reg_insert s reg)) \<and>
      reg_slot (fst (reg_insert s reg)) = (reg_slot reg)(slot_stream_id s \<mapsto> s)) \<and>
    (\<forall>i. reg_inv (fst (reg_remove i reg)) \<and> reg_slot (fst (reg_remove i reg)) = (reg_slot reg)(i := None) \<and>
      snd (reg_remove i reg) = reg_slot reg i) \<and>
    (\<forall>i f. (\<forall>s. slot_stream_id (f s) = slot_stream_id s) \<longrightarrow>
      reg_inv (refresh_ttl i (modify_slot i f reg)) \<and>
      reg_slot (refresh_ttl i (modify_slot i f reg)) = (reg_slot reg)(i := map_option f (reg_slot reg i)))"
proof -
  have inv: "reg_struct_inv reg" "ttl_inv_except {} reg" using assms by (simp_all add: reg_inv_def)
  have "reg_inv (refresh_ttl i (modify_slot i f reg))" if "\<forall>s. slot_stream_id (f s) = slot_stream_id s" for i f
  proof -
    have m: "reg_struct_inv (modify_slot i f reg)" using rt.change_law[OF inv(1), of f] that by simp
    have "ttl_inv_except {} (refresh_ttl i (modify_slot i f reg))"
      using ttl_inv_refresh[OF m ttl_inv_modify(1)[OF inv]] that by simp
    then show ?thesis using m by (simp add: reg_inv_def)
  qed
  moreover have "reg_slot (refresh_ttl i r) = reg_slot r" for i r by (rule reg_slot_cong) simp_all
  moreover have "reg_inv (fst (reg_remove i reg))" for i using reg_remove_inv[OF inv, of i] by (simp add: reg_inv_def)
  ultimately show ?thesis
    using rt.put_law[OF inv(1)] rt.drop_law[OF inv(1)] rt.change_law[OF inv(1)] reg_insert_inv[OF assms]
      reg_slot_remove(2)[OF inv(1)] by simp
qed

theorem registry_operations_exact_witness:
  "let reg = fst (reg_insert (sample_slot ''a'' (Some 50)) (empty_registry id))
   in reg_inv (fst (reg_insert (sample_slot ''b'' (Some 40)) reg)) \<and>
      reg_inv (fst (reg_remove (BucketStreamId ''acme'' ''a'') reg)) \<and>
      reg_slot (fst (reg_remove (BucketStreamId ''acme'' ''a'') reg)) (BucketStreamId ''acme'' ''a'') = None"
proof -
  let ?reg = "fst (reg_insert (sample_slot ''a'' (Some 50)) (empty_registry id))"
  have inv: "reg_inv ?reg" by (intro reg_insert_inv empty_registry_inv inj_on_id) (simp add: sample_registry_simps)
  have "reg_slot ?reg (slot_stream_id (sample_slot ''b'' (Some 40))) = None" by (simp add: sample_registry_simps)
  with registry_operations_exact[OF inv] show ?thesis unfolding Let_def by simp
qed

end
