(* ===== verification/Btree_Map.thy ===== *)
theory Btree_Map
  imports Ursula_Prelude
begin

text \<open>
  The ordered map of the standard library, \<^verbatim>\<open>std::collections::BTreeMap\<close>: an association list
  with distinct keys whose iteration is in key order.  Insertion and removal are those of
  association lists.
\<close>

type_synonym ('k, 'v) btreemap = "('k \<times> 'v) list"

definition btree_iter :: "('k :: linorder \<times> 'v) list \<Rightarrow> ('k \<times> 'v) list" where
  "btree_iter m = sort_key fst m"

definition btree_values :: "('k :: linorder \<times> 'v) list \<Rightarrow> 'v list" where
  "btree_values m = map snd (btree_iter m)"

definition first_key_value :: "('k :: linorder \<times> 'v) list \<Rightarrow> ('k \<times> 'v) option" where
  "first_key_value m = (case btree_iter m of [] \<Rightarrow> None | p # _ \<Rightarrow> Some p)"

definition pop_first :: "('k :: linorder \<times> 'v) list \<Rightarrow> (('k \<times> 'v) \<times> ('k \<times> 'v) list) option" where
  "pop_first m = map_option (\<lambda>p. (p, AList.delete (fst p) m)) (first_key_value m)"

text \<open>\<^verbatim>\<open>range\<close> above a bound.\<close>

definition range_above :: "'k :: linorder \<Rightarrow> ('k \<times> 'v) list \<Rightarrow> ('k \<times> 'v) list" where
  "range_above k m = filter (\<lambda>p. k < fst p) (btree_iter m)"

text \<open>\<^verbatim>\<open>entry(k).or_default()\<close> followed by a write of the value.\<close>

definition entry_modify :: "'v \<Rightarrow> 'k \<Rightarrow> ('v \<Rightarrow> 'v) \<Rightarrow> ('k \<times> 'v) list \<Rightarrow> ('k \<times> 'v) list" where
  "entry_modify dflt k f m = AList.update k (f (case map_of m k of None \<Rightarrow> dflt | Some v \<Rightarrow> v)) m"

lemma btree_iter_mset [simp]: "mset (btree_iter m) = mset m"
  by (simp add: btree_iter_def)

lemma btree_iter_set [simp]: "set (btree_iter m) = set m"
  by (simp add: btree_iter_def)

lemma btree_iter_length [simp]: "length (btree_iter m) = length m"
  by (simp add: btree_iter_def)

lemma btree_iter_sorted: "sorted (map fst (btree_iter m))"
  by (simp add: btree_iter_def)

lemma btree_iter_distinct: "distinct (map fst m) \<Longrightarrow> distinct (map fst (btree_iter m))"
  by (metis btree_iter_mset mset_eq_imp_distinct_iff mset_map)

lemma btree_iter_strict: "distinct (map fst m) \<Longrightarrow> sorted_wrt (<) (map fst (btree_iter m))"
  using btree_iter_sorted[of m] btree_iter_distinct[of m] by (simp add: strict_sorted_iff)

lemma btree_iter_id: "sorted (map fst m) \<Longrightarrow> btree_iter m = m"
  by (simp add: btree_iter_def sort_key_id_if_sorted)

lemma btree_iter_Nil [simp]: "btree_iter m = [] \<longleftrightarrow> m = []"
  by (metis btree_iter_length length_0_conv)

lemma first_key_value_None [simp]: "first_key_value m = None \<longleftrightarrow> m = []"
proof (cases "btree_iter m")
  case Nil
  then have "m = []" by simp
  then show ?thesis by (simp add: first_key_value_def btree_iter_def)
next
  case (Cons p ps)
  then have "m \<noteq> []" using btree_iter_Nil[of m] by force
  with Cons show ?thesis by (simp add: first_key_value_def)
qed

lemma first_key_value_Some:
  assumes "first_key_value m = Some p"
  shows "p \<in> set m" "\<And>q. q \<in> set m \<Longrightarrow> fst p \<le> fst q"
proof -
  obtain ps where ps: "btree_iter m = p # ps" using assms by (auto simp: first_key_value_def split: list.splits)
  show "p \<in> set m" using btree_iter_set[of m] ps by auto
  show "fst p \<le> fst q" if "q \<in> set m" for q
    using btree_iter_sorted[of m] btree_iter_set[of m] ps that by auto
qed

lemma pop_first_Some:
  assumes "pop_first m = Some (p, m')"
  shows "p \<in> set m" "\<And>q. q \<in> set m \<Longrightarrow> fst p \<le> fst q" "m' = AList.delete (fst p) m"
  using assms first_key_value_Some[of m p] by (auto simp: pop_first_def)

lemma pop_first_None [simp]: "pop_first m = None \<longleftrightarrow> m = []"
  by (simp add: pop_first_def)

lemma entry_modify_keys [simp]: "keys_of (entry_modify d k f m) = insert k (keys_of m)"
  by (simp add: entry_modify_def)

lemma entry_modify_distinct [simp]: "distinct (map fst m) \<Longrightarrow> distinct (map fst (entry_modify d k f m))"
  by (simp add: entry_modify_def)

lemma map_of_entry_modify:
  "map_of (entry_modify d k f m) k' =
     (if k' = k then Some (f (case map_of m k of None \<Rightarrow> d | Some v \<Rightarrow> v)) else map_of m k')"
  by (simp add: entry_modify_def map_of_update_iff)

lemma map_of_in_set: "distinct (map fst m) \<Longrightarrow> map_of m k = Some v \<longleftrightarrow> (k, v) \<in> set m"
  by simp

lemma map_of_btree_iter: "distinct (map fst m) \<Longrightarrow> map_of (btree_iter m) = map_of m"
  by (rule map_of_inject_set[THEN iffD2]) (simp_all add: btree_iter_distinct)

end
