(* ===== verification/Usage_Ledger.thy ===== *)
theory Usage_Ledger
  imports Registry Btree_Map
begin

text \<open>
  Usage counters (\<^verbatim>\<open>usage.rs\<close>) and the ledger of a group beside its slots
  (\<^verbatim>\<open>state_machine/usage_ledger.rs\<close>): the genesis, the usage sequence, the retired usage of each
  bucket, the end records not folded yet, and the index of live versions by sequence number.
  The hooks that also touch the slots are in \<open>State_Machine\<close>.
\<close>

definition committed_write_unit_bytes :: u64 where
  "committed_write_unit_bytes = 10 * 1024"

definition max_end_records :: usize where
  "max_end_records = 65536"

definition zero_usage :: committed_usage where
  "zero_usage = \<lparr> cu_append_bytes = 0, cu_records = 0, cu_write_units = 0 \<rparr>"

definition zero_counters :: version_counters where
  "zero_counters = \<lparr> vc_committed = zero_usage, vc_appends = 0 \<rparr>"

definition zero_bucket_usage :: bucket_usage where
  "zero_bucket_usage = \<lparr> bu_committed_append_bytes = 0, bu_committed_records = 0, bu_committed_write_units = 0,
     bu_retained_bytes = 0, bu_stream_count = 0 \<rparr>"

definition of_write :: "u64 \<Rightarrow> u64 \<Rightarrow> committed_usage" where
  "of_write bytes records =
     \<lparr> cu_append_bytes = bytes, cu_records = records,
       cu_write_units = max (div_ceil bytes committed_write_unit_bytes) 1 \<rparr>"

definition of_bucket :: "bucket_usage \<Rightarrow> committed_usage" where
  "of_bucket usage =
     \<lparr> cu_append_bytes = bu_committed_append_bytes usage, cu_records = bu_committed_records usage,
       cu_write_units = bu_committed_write_units usage \<rparr>"

definition usage_add :: "committed_usage \<Rightarrow> committed_usage \<Rightarrow> committed_usage" where
  "usage_add a b =
     \<lparr> cu_append_bytes = sat_add (cu_append_bytes a) (cu_append_bytes b),
       cu_records = sat_add (cu_records a) (cu_records b),
       cu_write_units = sat_add (cu_write_units a) (cu_write_units b) \<rparr>"

definition add_to :: "committed_usage \<Rightarrow> bucket_usage \<Rightarrow> bucket_usage" where
  "add_to c usage =
     usage\<lparr> bu_committed_append_bytes := sat_add (bu_committed_append_bytes usage) (cu_append_bytes c),
            bu_committed_records := sat_add (bu_committed_records usage) (cu_records c),
            bu_committed_write_units := sat_add (bu_committed_write_units usage) (cu_write_units c) \<rparr>"

definition first_difference :: "committed_usage \<Rightarrow> committed_usage \<Rightarrow> usage_counter option" where
  "first_difference a b =
     (if cu_append_bytes a \<noteq> cu_append_bytes b then Some AppendBytes
      else if cu_records a \<noteq> cu_records b then Some Records_Counter
      else if cu_write_units a \<noteq> cu_write_units b then Some WriteUnits
      else None)"

section \<open>The ledger\<close>

record usage_ledger =
  ul_genesis :: u64
  ul_retired :: "(string, committed_usage) btreemap"
  ul_usage_seq :: u64
  ul_retired_through :: u64
  ul_ends :: "(u64, end_record) btreemap"
  ul_live_by_seq :: "(u64, stream_key) btreemap"

definition empty_ledger :: usage_ledger where
  "empty_ledger = \<lparr> ul_genesis = 0, ul_retired = [], ul_usage_seq = 0, ul_retired_through = 0,
     ul_ends = [], ul_live_by_seq = [] \<rparr>"

text \<open>\<^verbatim>\<open>stamp\<close>: the ledger after and the seq it gave.\<close>

definition stamp :: "usage_ledger \<Rightarrow> usage_ledger \<times> u64" where
  "stamp l = (let l' = l\<lparr> ul_usage_seq := sat_add (ul_usage_seq l) 1 \<rparr> in (l', ul_usage_seq l'))"

definition retiring :: "(string, committed_usage) btreemap \<Rightarrow> usage_ledger" where
  "retiring totals = \<lparr> ul_genesis = 0, ul_retired = totals, ul_usage_seq = 0, ul_retired_through = 0,
     ul_ends = [], ul_live_by_seq = [] \<rparr>"

definition insert_bucket :: "string \<Rightarrow> usage_ledger \<Rightarrow> usage_ledger" where
  "insert_bucket bucket_id l =
     (if map_of (ul_retired l) bucket_id \<noteq> None then l
      else l\<lparr> ul_retired := AList.update bucket_id zero_usage (ul_retired l) \<rparr>)"

text \<open>The two loops of \<^verbatim>\<open>of_group\<close>.\<close>

fun insert_retired_rows :: "bucket_retired list \<Rightarrow> usage_ledger \<Rightarrow> usage_snapshot_error + usage_ledger" where
  "insert_retired_rows [] l = Inr l"
| "insert_retired_rows (row # rows) l =
     (if map_of (ul_retired l) (br_bucket_id row) \<noteq> None then Inl (DuplicateRetired (br_bucket_id row))
      else insert_retired_rows rows
             (l\<lparr> ul_retired := AList.update (br_bucket_id row) (br_retired row) (ul_retired l) \<rparr>))"

fun insert_end_records ::
  "u64 \<Rightarrow> u64 \<Rightarrow> u64 \<Rightarrow> end_record list \<Rightarrow> usage_ledger \<Rightarrow> usage_snapshot_error + usage_ledger" where
  "insert_end_records usage_seq retired_through previous [] l = Inr l"
| "insert_end_records usage_seq retired_through previous (r # rs) l =
     (if er_seq r \<le> retired_through then Inl (RetiredEndRecord (er_seq r) retired_through)
      else if er_seq r \<le> previous \<or> er_seq r > usage_seq then Inl (InvalidSeq (er_seq r) usage_seq)
      else
        let l1 = insert_bucket (bsi_bucket (er_stream_id r)) l;
            l2 = l1\<lparr> ul_ends := AList.update (er_seq r) r (ul_ends l1) \<rparr>
        in insert_end_records usage_seq retired_through (er_seq r) rs l2)"

definition of_group ::
  "u64 \<Rightarrow> u64 \<Rightarrow> u64 \<Rightarrow> bucket_retired list \<Rightarrow> end_record list \<Rightarrow> usage_snapshot_error + usage_ledger" where
  "of_group genesis usage_seq retired_through retired ends =
     (if retired_through > usage_seq then Inl (RetiredThroughAhead retired_through usage_seq)
      else
        let ledger = \<lparr> ul_genesis = genesis, ul_retired = [], ul_usage_seq = usage_seq,
              ul_retired_through = retired_through, ul_ends = [], ul_live_by_seq = [] \<rparr>
        in case insert_retired_rows retired ledger of
             Inl e \<Rightarrow> Inl e
           | Inr l \<Rightarrow>
               if length ends > max_end_records
               then Inl (TooManyEndRecords (len_u64 (length ends)) (len_u64 max_end_records))
               else insert_end_records usage_seq retired_through retired_through ends l)"

definition restored_version :: "string \<Rightarrow> u64 \<Rightarrow> usage_ledger \<Rightarrow> usage_ledger \<times> version_usage" where
  "restored_version bucket_id counted_since l =
     (let (l', seq) = stamp (insert_bucket bucket_id l)
      in (l', \<lparr> vu_seq = seq, vu_counters = zero_counters, vu_history_baseline = zero_counters,
                vu_last_write = Imported, vu_counted_since = counted_since \<rparr>))"

definition index_live :: "u64 \<Rightarrow> stream_key \<Rightarrow> usage_ledger \<Rightarrow> usage_ledger" where
  "index_live seq k l = l\<lparr> ul_live_by_seq := AList.update seq k (ul_live_by_seq l) \<rparr>"

definition unindex_live :: "u64 \<Rightarrow> usage_ledger \<Rightarrow> usage_ledger" where
  "unindex_live seq l = l\<lparr> ul_live_by_seq := AList.delete seq (ul_live_by_seq l) \<rparr>"

definition restamp_version :: "version_usage \<Rightarrow> stream_key \<Rightarrow> usage_ledger \<Rightarrow> usage_ledger \<times> version_usage" where
  "restamp_version v k l =
     (let (l', seq) = stamp (unindex_live (vu_seq v) l)
      in (index_live seq k l', v\<lparr> vu_seq := seq \<rparr>))"

definition fold_first_end_record :: "usage_ledger \<Rightarrow> (usage_ledger \<times> end_record) option" where
  "fold_first_end_record l =
     (case pop_first (ul_ends l) of
        None \<Rightarrow> None
      | Some ((seq, r), rest) \<Rightarrow>
          Some (l\<lparr> ul_ends := rest,
                   ul_retired := entry_modify zero_usage (bsi_bucket (er_stream_id r))
                     (\<lambda>u. usage_add u (vc_committed (er_counters r))) (ul_retired l),
                   ul_retired_through := seq \<rparr>, r))"

definition retired_after :: "string option \<Rightarrow> usage_ledger \<Rightarrow> (string \<times> committed_usage) list" where
  "retired_after after_bucket l =
     (case after_bucket of None \<Rightarrow> btree_iter (ul_retired l) | Some b \<Rightarrow> range_above b (ul_retired l))"

definition live_after :: "u64 \<Rightarrow> usage_ledger \<Rightarrow> (u64 \<times> stream_key) list" where
  "live_after after_seq l = range_above after_seq (ul_live_by_seq l)"

definition ends_after :: "u64 \<Rightarrow> usage_ledger \<Rightarrow> end_record list" where
  "ends_after after_seq l = map snd (range_above after_seq (ul_ends l))"

definition record_genesis :: "u64 \<Rightarrow> usage_ledger \<Rightarrow> usage_ledger" where
  "record_genesis history l = l\<lparr> ul_genesis := history \<rparr>"

definition keep_genesis :: "usage_ledger \<Rightarrow> usage_ledger \<Rightarrow> usage_ledger" where
  "keep_genesis earlier l = l\<lparr> ul_genesis := ul_genesis earlier \<rparr>"

definition end_record_fixed_bytes :: u64 where
  "end_record_fixed_bytes = 128"

definition end_record_bytes :: "end_record \<Rightarrow> u64" where
  "end_record_bytes r =
     sat_add (len_u64 (sat_add (length (bsi_bucket (er_stream_id r))) (length (bsi_stream (er_stream_id r)))))
       end_record_fixed_bytes"

definition retained_bytes :: "stream_slot \<Rightarrow> u64" where
  "retained_bytes s = md_tail_offset (slot_metadata s) - slot_retained_offset s"

definition visible_snapshot_bytes :: "stream_slot \<Rightarrow> u64 option" where
  "visible_snapshot_bytes s =
     map_option (\<lambda>v. case vs_object v of None \<Rightarrow> len_u64 (length (vs_payload v)) | Some obj \<Rightarrow> ep_payload_len obj)
       (slot_visible_snapshot s)"

text \<open>Per-bucket totals of a snapshot, refusing a repeated bucket.\<close>

fun committed_rows ::
  "bucket_usage_snapshot list \<Rightarrow> (string, committed_usage) btreemap \<Rightarrow>
   stream_snapshot_error + (string, committed_usage) btreemap" where
  "committed_rows [] totals = Inr totals"
| "committed_rows (row # rows) totals =
     (if map_of totals (bus_bucket_id row) \<noteq> None then Inl (DuplicateBucketUsage (bus_bucket_id row))
      else committed_rows rows (AList.update (bus_bucket_id row) (of_bucket (bus_usage row)) totals))"

definition committed_by_bucket ::
  "bucket_usage_snapshot list \<Rightarrow> stream_snapshot_error + (string, committed_usage) btreemap" where
  "committed_by_bucket rows = committed_rows rows []"

text \<open>End records are numbered above the fold watermark and up to the latest seq, in order,
  and a group holds at most \<open>max_end_records\<close> of them.\<close>

definition ledger_inv :: "usage_ledger \<Rightarrow> bool" where
  "ledger_inv l \<longleftrightarrow>
     distinct (map fst (ul_retired l)) \<and> distinct (map fst (ul_live_by_seq l)) \<and>
     sorted_wrt (<) (map fst (ul_ends l)) \<and> length (ul_ends l) \<le> max_end_records \<and>
     (\<forall>(seq, r) \<in> set (ul_ends l). er_seq r = seq \<and> ul_retired_through l < seq \<and> seq \<le> ul_usage_seq l \<and>
        bsi_bucket (er_stream_id r) \<in> keys_of (ul_retired l)) \<and>
     (\<forall>seq \<in> keys_of (ul_live_by_seq l). seq \<le> ul_usage_seq l \<and> seq \<notin> keys_of (ul_ends l)) \<and>
     ul_retired_through l \<le> ul_usage_seq l \<and> ul_usage_seq l \<le> u64_max"

end
