(* ===== verification/Producer_Record.thy ===== *)
theory Producer_Record
  imports Model
begin

text \<open>
  The producer record and the decision table for one producer write,
  \<^verbatim>\<open>state_machine/producer_record.rs\<close>.  \<open>evaluate\<close> is a pure function of the
  producer's record, the stream's epoch floor, the group's history id, the write's
  key and whether the write carried an incarnation token.  The control
  \<^verbatim>\<open>sim_controls::off\<close> is constantly false outside simulation builds.
\<close>

record write_key =
  wk_epoch :: u64
  wk_seq :: u64
  wk_digest :: "write_digest option"

datatype refusal =
    Producer_Refusal producer_refusal
  | SeqGap u64 u64

datatype evaluation =
    Claim "closed_epoch option" opened
  | Next
  | Repeat_Eval producer_ack
  | Refuse refusal

definition at_or_below :: "u64 option \<Rightarrow> u64 \<Rightarrow> bool" where
  "at_or_below fl epoch = (case fl of None \<Rightarrow> False | Some f \<Rightarrow> epoch \<le> f)"

definition expired :: "u64 \<Rightarrow> evaluation" where
  "expired fl = Refuse (Producer_Refusal (Expired fl))"

text \<open>Rows 1 to 3: a write of a producer without a record.\<close>

definition evaluate_absent :: "u64 option \<Rightarrow> write_key \<Rightarrow> bool \<Rightarrow> evaluation" where
  "evaluate_absent fl key tokened =
     (if tokened \<and> at_or_below fl (wk_epoch key) then expired (the fl)
      else if wk_seq key = 0 then
        Claim None (if at_or_below fl (wk_epoch key) then BelowFloor else AboveFloor)
      else Refuse (SeqGap 0 (wk_seq key)))"

text \<open>Rows 4 to 13: a write of a producer with the record \<open>r\<close>.\<close>

definition evaluate_older :: "producer_state \<Rightarrow> write_key \<Rightarrow> evaluation" where
  "evaluate_older r key =
     Refuse (Producer_Refusal
       (case ps_closed_epoch r of
          Some closed \<Rightarrow> if ce_epoch closed = wk_epoch key then EpochClosed (ps_epoch r) Claim_By closed
                         else StaleEpoch (ps_epoch r)
        | None \<Rightarrow> StaleEpoch (ps_epoch r)))"

definition evaluate_newer :: "producer_state \<Rightarrow> u64 option \<Rightarrow> write_key \<Rightarrow> evaluation" where
  "evaluate_newer r fl key =
     (if wk_seq key = 0 then
        Claim (case ps_opened r of
                 AboveFloor \<Rightarrow> Some \<lparr> ce_epoch = ps_epoch r, ce_seq = ps_last_seq r \<rparr>
               | BelowFloor \<Rightarrow> None)
              (if ps_opened r = AboveFloor \<or> \<not> at_or_below fl (wk_epoch key) then AboveFloor
               else BelowFloor)
      else Refuse (Producer_Refusal EpochNotClaimed))"

definition stored_digest :: "producer_state \<Rightarrow> write_key \<Rightarrow> write_digest option option" where
  "stored_digest r key =
     (if wk_seq key = 0 then Some (ps_claim_digest r)
      else if wk_seq key = ps_last_seq r then Some (prc_digest (ps_newest r))
      else None)"

definition evaluate_current :: "producer_state \<Rightarrow> u64 \<Rightarrow> write_key \<Rightarrow> evaluation" where
  "evaluate_current r history key =
     (let stored = stored_digest r key;
          closed = (if wk_seq key = 0 then ps_closed_epoch r else None);
          repeat = (\<lambda>delivery. Repeat_Eval \<lparr> pa_epoch = ps_epoch r, pa_seq = ps_last_seq r,
                                  pa_closed_epoch = closed, pa_delivery = delivery \<rparr>);
          expected = sat_add (ps_last_seq r) 1
      in if (case stored of None \<Rightarrow> False | Some d \<Rightarrow> d \<noteq> wk_digest key)
           then Refuse (Producer_Refusal (KeyConflict (ps_epoch r)))
         else if wk_seq key = ps_last_seq r then repeat (Repeat (prc_receipt (ps_newest r)))
         else if wk_seq key < ps_last_seq r then repeat Evicted
         else if ps_history r \<noteq> history
           then Refuse (Producer_Refusal (EpochClosed (ps_epoch r) History_By
                  \<lparr> ce_epoch = ps_epoch r, ce_seq = ps_last_seq r \<rparr>))
         else if wk_seq key = expected then Next
         else Refuse (SeqGap expected (wk_seq key)))"

definition evaluate ::
  "producer_state option \<Rightarrow> u64 option \<Rightarrow> u64 \<Rightarrow> write_key \<Rightarrow> incarnation_check \<Rightarrow> evaluation" where
  "evaluate rec fl history key check =
     (let tokened = (check = Matched)
      in case rec of
           None \<Rightarrow> evaluate_absent fl key tokened
         | Some r \<Rightarrow>
             if tokened \<and> ps_opened r = BelowFloor \<and> fl \<noteq> None \<and>
                \<not> (wk_seq key = 0 \<and> wk_epoch key > ps_epoch r \<and> wk_epoch key > the fl)
               then expired (the fl)
             else if wk_epoch key < ps_epoch r then evaluate_older r key
             else if wk_epoch key > ps_epoch r then evaluate_newer r fl key
             else evaluate_current r history key)"

definition claimed ::
  "write_key \<Rightarrow> closed_epoch option \<Rightarrow> opened \<Rightarrow> u64 \<Rightarrow> write_receipt \<Rightarrow> u64 \<Rightarrow> producer_state" where
  "claimed key closes op history receipt now_ms =
     \<lparr> ps_epoch = wk_epoch key, ps_last_seq = wk_seq key, ps_claim_digest = wk_digest key,
       ps_newest = \<lparr> prc_receipt = receipt, prc_digest = wk_digest key \<rparr>,
       ps_closed_epoch = closes, ps_opened = op, ps_history = history, ps_last_seen_ms = now_ms \<rparr>"

definition advance :: "write_key \<Rightarrow> write_receipt \<Rightarrow> u64 \<Rightarrow> producer_state \<Rightarrow> producer_state" where
  "advance key receipt now_ms r =
     r\<lparr> ps_last_seq := wk_seq key,
        ps_newest := \<lparr> prc_receipt = receipt, prc_digest = wk_digest key \<rparr>,
        ps_last_seen_ms := now_ms \<rparr>"

definition applied_ack :: "producer_state \<Rightarrow> producer_ack" where
  "applied_ack r =
     \<lparr> pa_epoch = ps_epoch r, pa_seq = ps_last_seq r,
       pa_closed_epoch = (if ps_last_seq r = 0 then ps_closed_epoch r else None),
       pa_delivery = Applied (prc_receipt (ps_newest r)) \<rparr>"

lemmas evaluate_defs = evaluate_def evaluate_absent_def evaluate_older_def evaluate_newer_def
  evaluate_current_def stored_digest_def expired_def

section \<open>When a write applies\<close>

text \<open>The two ways a write applies, read off the table.\<close>

lemma evaluate_Next_iff:
  "evaluate rec fl h key check = Next \<longleftrightarrow>
     (\<exists>r. rec = Some r \<and> wk_epoch key = ps_epoch r \<and> wk_seq key = sat_add (ps_last_seq r) 1 \<and>
       ps_last_seq r < wk_seq key \<and> ps_history r = h \<and>
       \<not> (check = Matched \<and> ps_opened r = BelowFloor \<and> fl \<noteq> None))"
  by (auto simp: evaluate_defs Let_def split: option.splits)

lemma evaluate_Claim_absent:
  "evaluate None fl h key check = Claim closes op \<longleftrightarrow>
     wk_seq key = 0 \<and> closes = None \<and> op = (if at_or_below fl (wk_epoch key) then BelowFloor else AboveFloor) \<and>
     \<not> (check = Matched \<and> at_or_below fl (wk_epoch key))"
  by (auto simp: evaluate_defs)

lemma evaluate_Claim_present:
  "evaluate (Some r) fl h key check = Claim closes op \<Longrightarrow>
     wk_seq key = 0 \<and> wk_epoch key > ps_epoch r \<and>
     op = (if ps_opened r = AboveFloor \<or> \<not> at_or_below fl (wk_epoch key) then AboveFloor else BelowFloor) \<and>
     (check = Matched \<and> ps_opened r = BelowFloor \<and> fl \<noteq> None \<longrightarrow> wk_epoch key > the fl)"
  by (auto simp: evaluate_defs Let_def split: option.splits if_splits)

lemma evaluate_Repeat_present:
  "evaluate rec fl h key check = Repeat_Eval ack \<Longrightarrow>
     \<exists>r. rec = Some r \<and> wk_epoch key = ps_epoch r \<and> wk_seq key \<le> ps_last_seq r \<and>
       pa_epoch ack = ps_epoch r \<and> pa_seq ack = ps_last_seq r \<and>
       (wk_seq key = ps_last_seq r \<longrightarrow>
          pa_delivery ack = Repeat (prc_receipt (ps_newest r)) \<and>
          (wk_digest key = prc_digest (ps_newest r) \<or> ps_last_seq r = 0 \<and> wk_digest key = ps_claim_digest r)) \<and>
       (wk_seq key < ps_last_seq r \<longrightarrow> pa_delivery ack = Evicted)"
  by (auto simp: evaluate_defs Let_def split: option.splits if_splits)

end
