(* ===== verification/Producers.thy ===== *)
theory Producers
  imports Stream_Slot Producer_Record "HOL-Library.Product_Lexorder"
begin

text \<open>
  The producer records of a stream, \<^verbatim>\<open>state_machine/producers.rs\<close> and the producer
  part of \<^verbatim>\<open>state_machine/append.rs\<close>: retirement and the epoch floor, idle expiry, the
  producer cap with its deterministic eviction, and the recording of an applied write.
  The operations act on a stream slot; the commands of the group look the slot up and
  apply them.  \<open>producer_run\<close> is the transition system of a slot's producer records
  with a ghost log of the applied writes; the exactly-once results are invariants of it.
\<close>

definition producer_idle_expiry_ms :: u64 where
  "producer_idle_expiry_ms = 7 * 24 * 60 * 60 * 1000"

definition max_producers_per_stream :: usize where
  "max_producers_per_stream = 4096"

definition producer_cap_evict_idle_ms :: u64 where
  "producer_cap_evict_idle_ms = 60 * 60 * 1000"

definition producer_cap_evict_budget :: usize where
  "producer_cap_evict_budget = 1024"

definition tidy_producer_budget :: usize where
  "tidy_producer_budget = 4096"

definition producer_is_idle :: "producer_state \<Rightarrow> u64 \<Rightarrow> bool" where
  "producer_is_idle r now_ms \<longleftrightarrow> now_ms - ps_last_seen_ms r \<ge> producer_idle_expiry_ms"

definition producer_cap_evictable :: "producer_state \<Rightarrow> u64 \<Rightarrow> bool" where
  "producer_cap_evictable r now_ms \<longleftrightarrow> now_ms - ps_last_seen_ms r \<ge> producer_cap_evict_idle_ms"

definition raise_floor :: "u64 option \<Rightarrow> u64 \<Rightarrow> u64 option" where
  "raise_floor fl epoch = Some (case fl of None \<Rightarrow> epoch | Some f \<Rightarrow> max f epoch)"

definition retire_producer :: "string \<Rightarrow> stream_slot \<Rightarrow> stream_slot" where
  "retire_producer pid s =
     (case map_of (slot_producers s) pid of
        None \<Rightarrow> s
      | Some r \<Rightarrow> s\<lparr> slot_producers := AList.delete pid (slot_producers s),
                     slot_retired_epoch_watermark :=
                       raise_floor (slot_retired_epoch_watermark s) (ps_epoch r) \<rparr>)"

definition producer_cap_admits :: "string \<Rightarrow> u64 \<Rightarrow> stream_slot \<Rightarrow> bool" where
  "producer_cap_admits pid now_ms s =
     (if length (slot_producers s) < max_producers_per_stream \<or> map_of (slot_producers s) pid \<noteq> None
      then True
      else length (filter (\<lambda>(_, r). \<not> producer_cap_evictable r now_ms) (slot_producers s))
             < max_producers_per_stream)"

text \<open>\<^verbatim>\<open>select_nth_unstable(excess)\<close> followed by \<^verbatim>\<open>truncate(excess)\<close> keeps the \<open>excess\<close>
  smallest candidates in an unspecified order; they are taken here in ascending order,
  which makes no difference to the records that remain or to the floor.\<close>

definition evict_candidates :: "u64 \<Rightarrow> stream_slot \<Rightarrow> (u64 \<times> string) list" where
  "evict_candidates now_ms s =
     map (\<lambda>(pid, r). (ps_last_seen_ms r, pid))
       (filter (\<lambda>(_, r). producer_cap_evictable r now_ms) (slot_producers s))"

definition evict_victims :: "u64 \<Rightarrow> usize \<Rightarrow> stream_slot \<Rightarrow> string list" where
  "evict_victims now_ms budget s =
     (let excess = min (length (slot_producers s) - max_producers_per_stream) budget;
          candidates = evict_candidates now_ms s
      in if excess = 0 then []
         else if length candidates > excess then map snd (take excess (sort candidates))
         else map snd candidates)"

definition evict_producers_over_cap :: "u64 \<Rightarrow> usize \<Rightarrow> stream_slot \<Rightarrow> stream_slot" where
  "evict_producers_over_cap now_ms budget s = fold retire_producer (evict_victims now_ms budget s) s"

definition producer_cap_over :: "u64 \<Rightarrow> stream_slot \<Rightarrow> bool" where
  "producer_cap_over now_ms s \<longleftrightarrow> length (slot_producers s) > max_producers_per_stream \<and>
     list_ex (\<lambda>(_, r). producer_cap_evictable r now_ms) (slot_producers s)"

text \<open>\<^verbatim>\<open>expire_idle_producer\<close> on the slot it looks up.\<close>

definition slot_expire_idle :: "string \<Rightarrow> u64 \<Rightarrow> stream_slot \<Rightarrow> stream_slot" where
  "slot_expire_idle pid now_ms s =
     (if (case map_of (slot_producers s) pid of None \<Rightarrow> False | Some r \<Rightarrow> producer_is_idle r now_ms)
      then retire_producer pid s else s)"

text \<open>\<^verbatim>\<open>evaluate_write\<close> on the slot it looks up: an idle record counts as retired.\<close>

definition slot_evaluate_write ::
  "u64 \<Rightarrow> string \<Rightarrow> write_key \<Rightarrow> incarnation_check \<Rightarrow> u64 \<Rightarrow> stream_slot \<Rightarrow> evaluation" where
  "slot_evaluate_write history pid key check now_ms s =
     (case map_of (slot_producers s) pid of
        Some r \<Rightarrow>
          if producer_is_idle r now_ms
          then evaluate None (raise_floor (slot_retired_epoch_watermark s) (ps_epoch r)) history key check
          else evaluate (Some r) (slot_retired_epoch_watermark s) history key check
      | None \<Rightarrow> evaluate None (slot_retired_epoch_watermark s) history key check)"

text \<open>\<^verbatim>\<open>Advance\<close> and \<^verbatim>\<open>record_producer_success\<close> on the slot it looks up.\<close>

datatype advance_kind = Advance_Claim "closed_epoch option" opened | Advance_Next

definition slot_record_success ::
  "u64 \<Rightarrow> string \<Rightarrow> write_key \<Rightarrow> advance_kind \<Rightarrow> write_receipt \<Rightarrow> u64 \<Rightarrow> stream_slot
     \<Rightarrow> stream_slot \<times> producer_ack option" where
  "slot_record_success history pid key adv receipt now_ms s =
     (case adv of
        Advance_Claim closes op \<Rightarrow>
          (let st = claimed key closes op history receipt now_ms
           in (s\<lparr> slot_producers := AList.update pid st (slot_producers s) \<rparr>, Some (applied_ack st)))
      | Advance_Next \<Rightarrow>
          (case map_of (slot_producers s) pid of
             None \<Rightarrow> (s, None)
           | Some r \<Rightarrow>
               (let st = advance key receipt now_ms r
                in (s\<lparr> slot_producers := AList.update pid st (slot_producers s) \<rparr>,
                    Some (applied_ack st)))))"

text \<open>The debt of a stream and the change of \<^verbatim>\<open>tidy_stream\<close> to the slot it looks up.\<close>

definition slot_has_tidy_debt :: "u64 \<Rightarrow> stream_slot \<Rightarrow> bool" where
  "slot_has_tidy_debt now_ms s \<longleftrightarrow> producer_cap_over now_ms s \<or>
     list_ex (\<lambda>(_, r). producer_is_idle r now_ms) (slot_producers s)"

definition tidy_idle_ids :: "u64 \<Rightarrow> stream_slot \<Rightarrow> string list" where
  "tidy_idle_ids now_ms s =
     take tidy_producer_budget
       (sort (map fst (filter (\<lambda>(_, r). producer_is_idle r now_ms) (slot_producers s))))"

definition slot_tidy :: "u64 \<Rightarrow> stream_slot \<Rightarrow> stream_slot" where
  "slot_tidy now_ms s =
     evict_producers_over_cap now_ms producer_cap_evict_budget
       (fold retire_producer (tidy_idle_ids now_ms s) s)"

text \<open>What \<^verbatim>\<open>select_nth_unstable(n)\<close> followed by \<^verbatim>\<open>truncate(n)\<close> may leave of a list: any \<open>n\<close> of its
  elements, in any order, such that no element left out is smaller.\<close>

definition selects :: "nat \<Rightarrow> 'a :: linorder list \<Rightarrow> 'a list \<Rightarrow> bool" where
  "selects n xs ys \<longleftrightarrow>
     (\<exists>zs. mset xs = mset (ys @ zs) \<and> length ys = n \<and> (\<forall>y \<in> set ys. \<forall>z \<in> set zs. y \<le> z))"

text \<open>The outcomes of \<^verbatim>\<open>evict_producers_over_cap\<close> and of the slot part of \<^verbatim>\<open>tidy_stream\<close>, over every selection;
  the definitions above are the ones that select in ascending order.\<close>

definition evicts :: "u64 \<Rightarrow> usize \<Rightarrow> stream_slot \<Rightarrow> stream_slot \<Rightarrow> bool" where
  "evicts now_ms budget s s1 \<longleftrightarrow>
     (let excess = min (length (slot_producers s) - max_producers_per_stream) budget;
          candidates = evict_candidates now_ms s
      in if excess = 0 then s1 = s
         else \<exists>victims.
           (if length candidates > excess then selects excess candidates victims else victims = candidates) \<and>
           s1 = fold retire_producer (map snd victims) s)"

definition tidies :: "u64 \<Rightarrow> stream_slot \<Rightarrow> stream_slot \<Rightarrow> bool" where
  "tidies now_ms s s1 \<longleftrightarrow>
     evicts now_ms producer_cap_evict_budget (fold retire_producer (tidy_idle_ids now_ms s) s) s1"

section \<open>Runs of a slot's producer records\<close>

record applied_write =
  aw_producer :: string
  aw_key :: write_key
  aw_tokened :: bool
  aw_receipt :: write_receipt

definition advance_of :: "evaluation \<Rightarrow> advance_kind option" where
  "advance_of ev = (case ev of Claim closes op \<Rightarrow> Some (Advance_Claim closes op)
     | Next \<Rightarrow> Some Advance_Next | _ \<Rightarrow> None)"

inductive producer_run :: "stream_slot \<Rightarrow> applied_write list \<Rightarrow> bool" where
  run_new: "slot_producers s = [] \<Longrightarrow> slot_retired_epoch_watermark s = None \<Longrightarrow> producer_run s []"
| run_other: "producer_run s log \<Longrightarrow> slot_producers s' = slot_producers s \<Longrightarrow>
    slot_retired_epoch_watermark s' = slot_retired_epoch_watermark s \<Longrightarrow> producer_run s' log"
| run_refused: "producer_run s log \<Longrightarrow> producer_run (slot_expire_idle pid now_ms s) log"
| run_applied: "producer_run s log \<Longrightarrow>
    advance_of (slot_evaluate_write history pid key check now_ms (slot_expire_idle pid now_ms s)) = Some adv \<Longrightarrow>
    producer_run
      (fst (slot_record_success history pid key adv receipt now_ms (slot_expire_idle pid now_ms s)))
      (log @ [\<lparr> aw_producer = pid, aw_key = key, aw_tokened = (check = Matched), aw_receipt = receipt \<rparr>])"
| run_evict: "producer_run s log \<Longrightarrow> producer_run (evict_producers_over_cap now_ms budget s) log"
| run_tidy: "producer_run s log \<Longrightarrow> producer_run (slot_tidy now_ms s) log"

text \<open>The writes of one producer in a log, the keys and the invariant that ties them
  to its record: a record opened above the floor knows every epoch the producer ever
  used and has applied the seqs of its epoch one by one from zero; without such a
  record every epoch the producer used is covered by the floor.\<close>

definition writes_of :: "string \<Rightarrow> applied_write list \<Rightarrow> applied_write list" where
  "writes_of pid log = filter (\<lambda>w. aw_producer w = pid) log"

definition epoch_of :: "applied_write \<Rightarrow> u64" where
  "epoch_of w = wk_epoch (aw_key w)"

definition seqs_in :: "u64 \<Rightarrow> applied_write list \<Rightarrow> u64 list" where
  "seqs_in e ws = map (wk_seq \<circ> aw_key) (filter (\<lambda>w. epoch_of w = e) ws)"

definition write_id :: "applied_write \<Rightarrow> string \<times> u64 \<times> u64" where
  "write_id w = (aw_producer w, wk_epoch (aw_key w), wk_seq (aw_key w))"

definition record_ok :: "u64 option \<Rightarrow> producer_state \<Rightarrow> applied_write list \<Rightarrow> bool" where
  "record_ok fl r ws \<longleftrightarrow>
     ws \<noteq> [] \<and> aw_receipt (last ws) = prc_receipt (ps_newest r) \<and>
     wk_digest (aw_key (last ws)) = prc_digest (ps_newest r) \<and>
     epoch_of (last ws) = ps_epoch r \<and> wk_seq (aw_key (last ws)) = ps_last_seq r \<and>
     (ps_last_seq r = 0 \<longrightarrow> ps_claim_digest r = prc_digest (ps_newest r)) \<and>
     (case ps_opened r of
        AboveFloor \<Rightarrow> (\<forall>w \<in> set ws. epoch_of w \<le> ps_epoch r) \<and>
          seqs_in (ps_epoch r) ws = [0..<Suc (ps_last_seq r)]
      | BelowFloor \<Rightarrow> (\<exists>f. fl = Some f \<and> (\<forall>w \<in> set ws. epoch_of w \<le> max f (ps_epoch r))))"

definition producers_ok :: "stream_slot \<Rightarrow> applied_write list \<Rightarrow> bool" where
  "producers_ok s log \<longleftrightarrow>
     (\<forall>pid. case map_of (slot_producers s) pid of
        None \<Rightarrow> \<forall>w \<in> set (writes_of pid log). at_or_below (slot_retired_epoch_watermark s) (epoch_of w)
      | Some r \<Rightarrow> record_ok (slot_retired_epoch_watermark s) r (writes_of pid log))"

definition tokened_fresh :: "applied_write list \<Rightarrow> bool" where
  "tokened_fresh log \<longleftrightarrow>
     (\<forall>i < length log. aw_tokened (log ! i) \<longrightarrow> write_id (log ! i) \<notin> write_id ` set (take i log))"

definition fresh_epoch :: "u64 \<Rightarrow> applied_write list \<Rightarrow> bool" where
  "fresh_epoch e ws \<longleftrightarrow> (\<forall>w \<in> set ws. epoch_of w < e)"

text \<open>A small run: a claim of epoch 3 and its next seq.\<close>

definition demo_key :: "u64 \<Rightarrow> write_key" where
  "demo_key n = \<lparr> wk_epoch = 3, wk_seq = n, wk_digest = None \<rparr>"

definition demo_receipt :: "u64 \<Rightarrow> write_receipt" where
  "demo_receipt n = \<lparr> wr_start_offset = n, wr_next_offset = n + 1, wr_closed = False \<rparr>"

definition demo_slot :: stream_slot where
  "demo_slot = \<lparr> slot_metadata = \<lparr> md_stream_id = BucketStreamId ''acme'' ''s'', md_content_type = ''text/plain'',
       md_status = Open, md_tail_offset = 0, md_last_stream_seq = None, md_stream_ttl_seconds = None,
       md_stream_expires_at_ms = None, md_created_at_ms = 1, md_last_ttl_touch_at_ms = 1 \<rparr>,
     slot_hot_buffer = empty_hot_buffer, slot_cold = with_generation 1, slot_retained_offset = 0,
     slot_visible_snapshot = None, slot_producers = [], slot_retired_epoch_watermark = None,
     slot_history = 7, slot_inherited = None,
     slot_usage = \<lparr> vu_seq = 1,
       vu_counters = \<lparr> vc_committed = \<lparr> cu_append_bytes = 0, cu_records = 0, cu_write_units = 0 \<rparr>, vc_appends = 0 \<rparr>,
       vu_history_baseline = \<lparr> vc_committed = \<lparr> cu_append_bytes = 0, cu_records = 0, cu_write_units = 0 \<rparr>, vc_appends = 0 \<rparr>,
       vu_last_write = At 1, vu_counted_since = 7 \<rparr> \<rparr>"

definition demo_slot1 :: stream_slot where
  "demo_slot1 = fst (slot_record_success 7 ''p'' (demo_key 0) (Advance_Claim None AboveFloor) (demo_receipt 0) 100 demo_slot)"

definition demo_slot2 :: stream_slot where
  "demo_slot2 = fst (slot_record_success 7 ''p'' (demo_key 1) Advance_Next (demo_receipt 1) 200 demo_slot1)"

definition demo_log :: "applied_write list" where
  "demo_log = [\<lparr> aw_producer = ''p'', aw_key = demo_key 0, aw_tokened = True, aw_receipt = demo_receipt 0 \<rparr>,
     \<lparr> aw_producer = ''p'', aw_key = demo_key 1, aw_tokened = True, aw_receipt = demo_receipt 1 \<rparr>]"

inductive_cases producer_run_cases: "producer_run s log"

section \<open>Retirement and the epoch floor\<close>

lemma at_or_below_raise:
  "at_or_below (raise_floor fl e) x \<longleftrightarrow> at_or_below fl x \<or> x \<le> e"
  by (auto simp: at_or_below_def raise_floor_def split: option.split)

lemma retire_producer_simps:
  "map_of (slot_producers (retire_producer pid s)) q =
     (if q = pid then None else map_of (slot_producers s) q)"
  "slot_retired_epoch_watermark (retire_producer pid s) =
     (case map_of (slot_producers s) pid of None \<Rightarrow> slot_retired_epoch_watermark s
      | Some r \<Rightarrow> raise_floor (slot_retired_epoch_watermark s) (ps_epoch r))"
  by (auto simp: retire_producer_def map_of_delete_iff split: option.split)

lemma record_ok_raise: "record_ok fl r ws \<Longrightarrow> record_ok (raise_floor fl e) r ws"
  by (auto simp: record_ok_def raise_floor_def le_max_iff_disj split: opened.splits)

lemma record_ok_floor:
  "record_ok fl r ws \<Longrightarrow> w \<in> set ws \<Longrightarrow> at_or_below (raise_floor fl (ps_epoch r)) (epoch_of w)"
  unfolding at_or_below_raise
  by (auto simp: record_ok_def at_or_below_def le_max_iff_disj split: opened.splits)

lemma producers_okD:
  assumes "producers_ok s log"
  shows "map_of (slot_producers s) pid = Some r \<Longrightarrow>
      record_ok (slot_retired_epoch_watermark s) r (writes_of pid log)"
    and "map_of (slot_producers s) pid = None \<Longrightarrow> w \<in> set (writes_of pid log) \<Longrightarrow>
      at_or_below (slot_retired_epoch_watermark s) (epoch_of w)"
  using assms[unfolded producers_ok_def, rule_format, of pid] by auto

lemma producers_okI:
  assumes "\<And>pid r. map_of (slot_producers s) pid = Some r \<Longrightarrow>
      record_ok (slot_retired_epoch_watermark s) r (writes_of pid log)"
    and "\<And>pid w. map_of (slot_producers s) pid = None \<Longrightarrow> w \<in> set (writes_of pid log) \<Longrightarrow>
      at_or_below (slot_retired_epoch_watermark s) (epoch_of w)"
  shows "producers_ok s log"
  using assms by (auto simp: producers_ok_def split: option.split)

lemma producers_ok_retire:
  assumes "producers_ok s log"
  shows "producers_ok (retire_producer pid s) log"
proof (cases "map_of (slot_producers s) pid")
  case None
  then show ?thesis using assms by (simp add: retire_producer_def)
next
  case (Some r)
  note R = producers_okD(1)[OF assms Some]
  show ?thesis
  proof (rule producers_okI, unfold retire_producer_simps)
    fix q r'
    assume "(if q = pid then None else map_of (slot_producers s) q) = Some r'"
    then have "map_of (slot_producers s) q = Some r'" by (simp split: if_splits)
    from producers_okD(1)[OF assms this] Some
    show "record_ok (case map_of (slot_producers s) pid of None \<Rightarrow> slot_retired_epoch_watermark s
        | Some r \<Rightarrow> raise_floor (slot_retired_epoch_watermark s) (ps_epoch r)) r' (writes_of q log)"
      by (simp add: record_ok_raise)
  next
    fix q w
    assume "(if q = pid then None else map_of (slot_producers s) q) = None" "w \<in> set (writes_of q log)"
    then show "at_or_below (case map_of (slot_producers s) pid of None \<Rightarrow> slot_retired_epoch_watermark s
        | Some r \<Rightarrow> raise_floor (slot_retired_epoch_watermark s) (ps_epoch r)) (epoch_of w)"
      using record_ok_floor[OF R] producers_okD(2)[OF assms] Some
      by (cases "q = pid") (simp_all add: at_or_below_raise)
  qed
qed

lemma producers_ok_fold_retire: "producers_ok s log \<Longrightarrow> producers_ok (fold retire_producer pids s) log"
  by (induction pids arbitrary: s) (simp_all add: producers_ok_retire)

lemma producers_ok_evict: "producers_ok s log \<Longrightarrow> producers_ok (evict_producers_over_cap now_ms budget s) log"
  by (simp add: evict_producers_over_cap_def producers_ok_fold_retire)

lemma producers_ok_expire: "producers_ok s log \<Longrightarrow> producers_ok (slot_expire_idle pid now_ms s) log"
  by (simp add: slot_expire_idle_def producers_ok_retire)

section \<open>Applying a write\<close>

lemma writes_of_append:
  "writes_of q (log @ [w]) = (if aw_producer w = q then writes_of q log @ [w] else writes_of q log)"
  by (simp add: writes_of_def)

lemma slot_expire_idle_not_idle:
  "map_of (slot_producers (slot_expire_idle pid now_ms s)) pid = Some r \<Longrightarrow> \<not> producer_is_idle r now_ms"
  by (auto simp: slot_expire_idle_def retire_producer_simps split: if_splits option.splits)

lemma evaluate_after_expire:
  fixes s :: stream_slot and pid :: string and now_ms :: u64
  defines "s1 \<equiv> slot_expire_idle pid now_ms s"
  shows "slot_evaluate_write history pid key check now_ms s1 =
    evaluate (map_of (slot_producers s1) pid) (slot_retired_epoch_watermark s1) history key check"
  using slot_expire_idle_not_idle[of pid now_ms s]
  by (auto simp: slot_evaluate_write_def s1_def split: option.split)

text \<open>Reading an evaluation on the raw slot or on the slot after idle expiry is the same:
  a read-only caller sees what apply will see.\<close>

lemma evaluate_write_stable:
  "slot_evaluate_write history pid key check now_ms (slot_expire_idle pid now_ms s) =
   slot_evaluate_write history pid key check now_ms s"
proof (cases "map_of (slot_producers s) pid")
  case (Some r)
  then show ?thesis
    by (cases "producer_is_idle r now_ms")
      (simp_all add: slot_evaluate_write_def slot_expire_idle_def retire_producer_simps)
qed (simp add: slot_evaluate_write_def slot_expire_idle_def)

lemma seqs_in_fresh: "\<forall>w \<in> set ws. epoch_of w < e \<Longrightarrow> seqs_in e ws = []"
  by (auto simp: seqs_in_def filter_empty_conv)

lemma seqs_in_append: "seqs_in e (ws @ [w]) = seqs_in e ws @ (if epoch_of w = e then [wk_seq (aw_key w)] else [])"
  by (simp add: seqs_in_def)

lemma record_ok_claimed:
  assumes "aw_key w = key" "aw_receipt w = receipt" "wk_seq key = 0"
    and "op = AboveFloor \<Longrightarrow> fresh_epoch (wk_epoch key) ws"
    and "op = BelowFloor \<Longrightarrow> \<exists>f. fl = Some f \<and> (\<forall>v \<in> set ws. epoch_of v \<le> max f (wk_epoch key))"
  shows "record_ok fl (claimed key closes op h receipt now_ms) (ws @ [w])"
proof (cases op)
  case AboveFloor
  with assms show ?thesis
    by (auto simp: record_ok_def claimed_def seqs_in_append seqs_in_fresh fresh_epoch_def epoch_of_def
        intro: less_imp_le)
next
  case BelowFloor
  with assms show ?thesis by (auto simp: record_ok_def claimed_def epoch_of_def)
qed

lemma record_ok_advance:
  assumes "record_ok fl r ws" "aw_key w = key" "aw_receipt w = receipt"
    and "wk_epoch key = ps_epoch r" "wk_seq key = Suc (ps_last_seq r)"
  shows "record_ok fl (advance key receipt now_ms r) (ws @ [w])"
  using assms
  by (auto simp: record_ok_def advance_def seqs_in_append epoch_of_def split: opened.splits)

lemma sat_add_next: "n < k \<Longrightarrow> k = sat_add n 1 \<Longrightarrow> k = Suc n"
  by (auto simp: sat_add_def min_def split: if_splits)

text \<open>What an applied write may assume about the writes of its producer: a claim that
  opens its record above the floor uses an epoch above all of them, and so does every
  claim with a token; the next seq is not among them when the record is above the floor.\<close>

lemma claim_opens:
  assumes ok: "producers_ok s log"
    and ev: "evaluate (map_of (slot_producers s) pid) (slot_retired_epoch_watermark s) h key check = Claim closes op"
  shows "wk_seq key = 0 \<and>
    (op = AboveFloor \<or> check = Matched \<longrightarrow> fresh_epoch (wk_epoch key) (writes_of pid log)) \<and>
    (op = BelowFloor \<longrightarrow> (\<exists>f. slot_retired_epoch_watermark s = Some f \<and>
       (\<forall>v \<in> set (writes_of pid log). epoch_of v \<le> max f (wk_epoch key))))"
proof (cases "map_of (slot_producers s) pid")
  case None
  have E: "wk_seq key = 0" "op = (if at_or_below (slot_retired_epoch_watermark s) (wk_epoch key) then BelowFloor else AboveFloor)"
    "\<not> (check = Matched \<and> at_or_below (slot_retired_epoch_watermark s) (wk_epoch key))"
    using ev evaluate_Claim_absent None by auto
  show ?thesis using E producers_okD(2)[OF ok None]
    by (cases "slot_retired_epoch_watermark s")
      (force simp: fresh_epoch_def at_or_below_def split: if_splits)+
next
  case (Some r)
  have E: "wk_seq key = 0" "wk_epoch key > ps_epoch r"
    "op = (if ps_opened r = AboveFloor \<or> \<not> at_or_below (slot_retired_epoch_watermark s) (wk_epoch key)
           then AboveFloor else BelowFloor)"
    "check = Matched \<and> ps_opened r = BelowFloor \<and> slot_retired_epoch_watermark s \<noteq> None \<longrightarrow>
       wk_epoch key > the (slot_retired_epoch_watermark s)"
    using ev[unfolded Some, THEN evaluate_Claim_present] by blast+
  note R = producers_okD(1)[OF ok Some]
  show ?thesis
  proof (cases "ps_opened r")
    case AboveFloor
    then have "fresh_epoch (wk_epoch key) (writes_of pid log)"
      using R E(2) by (auto simp: record_ok_def fresh_epoch_def)
    then show ?thesis using E AboveFloor by simp
  next
    case BelowFloor
    then obtain f where f: "slot_retired_epoch_watermark s = Some f"
      "\<forall>v \<in> set (writes_of pid log). epoch_of v \<le> max f (ps_epoch r)"
      using R by (auto simp: record_ok_def)
    have "fresh_epoch (wk_epoch key) (writes_of pid log)" if "wk_epoch key > f"
      using f(2) E(2) that by (fastforce simp: fresh_epoch_def)
    then show ?thesis using E f BelowFloor by (fastforce simp: at_or_below_def split: if_splits)
  qed
qed

lemma next_fresh:
  assumes ok: "producers_ok s log"
    and ev: "evaluate (map_of (slot_producers s) pid) (slot_retired_epoch_watermark s) h key check = Next"
  shows "\<exists>r. map_of (slot_producers s) pid = Some r \<and> wk_epoch key = ps_epoch r \<and>
    wk_seq key = Suc (ps_last_seq r) \<and> ps_history r = h \<and>
    (check = Matched \<longrightarrow> (\<forall>v \<in> set (writes_of pid log). epoch_of v = wk_epoch key \<longrightarrow> wk_seq (aw_key v) \<noteq> wk_seq key))"
proof -
  obtain r where r: "map_of (slot_producers s) pid = Some r" "wk_epoch key = ps_epoch r"
    "wk_seq key = sat_add (ps_last_seq r) 1" "ps_last_seq r < wk_seq key" "ps_history r = h"
    "\<not> (check = Matched \<and> ps_opened r = BelowFloor \<and> slot_retired_epoch_watermark s \<noteq> None)"
    using ev evaluate_Next_iff by metis
  note R = producers_okD(1)[OF ok r(1)]
  have "wk_seq (aw_key v) \<noteq> wk_seq key"
    if "check = Matched" "v \<in> set (writes_of pid log)" "epoch_of v = wk_epoch key" for v
  proof -
    have above: "ps_opened r = AboveFloor" using R r(6) that(1) by (auto simp: record_ok_def split: opened.splits)
    have "wk_seq (aw_key v) \<in> set (seqs_in (ps_epoch r) (writes_of pid log))"
      using that r(2) by (auto simp: seqs_in_def)
    then show ?thesis using R above r(4) by (auto simp: record_ok_def)
  qed
  then show ?thesis using r sat_add_next[OF r(4,3)] by auto
qed

lemma producers_ok_applied:
  fixes receipt :: write_receipt
  assumes ok: "producers_ok s log"
    and ev: "advance_of (evaluate (map_of (slot_producers s) pid) (slot_retired_epoch_watermark s) h key check) = Some adv"
  defines "w \<equiv> \<lparr> aw_producer = pid, aw_key = key, aw_tokened = (check = Matched), aw_receipt = receipt \<rparr>"
  shows "producers_ok (fst (slot_record_success h pid key adv receipt now_ms s)) (log @ [w]) \<and>
    (check = Matched \<longrightarrow> write_id w \<notin> write_id ` set log)"
proof (cases adv)
  case (Advance_Claim closes op)
  then have ev': "evaluate (map_of (slot_producers s) pid) (slot_retired_epoch_watermark s) h key check = Claim closes op"
    using ev by (auto simp: advance_of_def split: evaluation.splits)
  note C = claim_opens[OF ok ev']
  have "record_ok (slot_retired_epoch_watermark s) (claimed key closes op h receipt now_ms) (writes_of pid log @ [w])"
    using C by (intro record_ok_claimed) (auto simp: w_def)
  then have "producers_ok (fst (slot_record_success h pid key adv receipt now_ms s)) (log @ [w])"
    using producers_okD[OF ok]
    by (intro producers_okI)
      (auto simp: Advance_Claim slot_record_success_def Let_def map_of_update_iff writes_of_append w_def split: if_splits)
  moreover have "check = Matched \<longrightarrow> write_id w \<notin> write_id ` set log"
    using C by (force simp: fresh_epoch_def writes_of_def write_id_def w_def epoch_of_def)
  ultimately show ?thesis by blast
next
  case Advance_Next
  then have ev': "evaluate (map_of (slot_producers s) pid) (slot_retired_epoch_watermark s) h key check = Next"
    using ev by (auto simp: advance_of_def split: evaluation.splits)
  obtain r where r: "map_of (slot_producers s) pid = Some r" "wk_epoch key = ps_epoch r"
      "wk_seq key = Suc (ps_last_seq r)"
    and fresh: "check = Matched \<longrightarrow> (\<forall>v \<in> set (writes_of pid log). epoch_of v = wk_epoch key \<longrightarrow> wk_seq (aw_key v) \<noteq> wk_seq key)"
    using next_fresh[OF ok ev'] by blast
  have "record_ok (slot_retired_epoch_watermark s) (advance key receipt now_ms r) (writes_of pid log @ [w])"
    using r producers_okD(1)[OF ok r(1)] by (intro record_ok_advance) (auto simp: w_def)
  then have "producers_ok (fst (slot_record_success h pid key adv receipt now_ms s)) (log @ [w])"
    using producers_okD[OF ok] r(1)
    by (intro producers_okI)
      (auto simp: Advance_Next slot_record_success_def Let_def map_of_update_iff writes_of_append w_def split: if_splits)
  moreover have "check = Matched \<longrightarrow> write_id w \<notin> write_id ` set log"
    using fresh by (force simp: writes_of_def write_id_def w_def epoch_of_def)
  ultimately show ?thesis by blast
qed

lemma tokened_fresh_append:
  assumes "tokened_fresh log" "aw_tokened w \<longrightarrow> write_id w \<notin> write_id ` set log"
  shows "tokened_fresh (log @ [w])"
  unfolding tokened_fresh_def
proof (intro allI impI)
  fix i
  assume i: "i < length (log @ [w])" and tok: "aw_tokened ((log @ [w]) ! i)"
  show "write_id ((log @ [w]) ! i) \<notin> write_id ` set (take i (log @ [w]))"
  proof (cases "i < length log")
    case True
    with tok assms(1) show ?thesis by (simp add: tokened_fresh_def nth_append)
  next
    case False
    with i have "i = length log" by simp
    with tok assms(2) show ?thesis by simp
  qed
qed

lemma producers_ok_cong:
  "slot_producers s' = slot_producers s \<Longrightarrow>
   slot_retired_epoch_watermark s' = slot_retired_epoch_watermark s \<Longrightarrow>
   producers_ok s log \<Longrightarrow> producers_ok s' log"
  by (rule producers_okI) (use producers_okD[of s log] in auto)

lemma producer_run_ok:
  "producer_run s log \<Longrightarrow> producers_ok s log \<and> tokened_fresh log"
proof (induction rule: producer_run.induct)
  case (run_new s)
  then show ?case by (simp add: producers_ok_def writes_of_def tokened_fresh_def)
next
  case (run_other s log s')
  then show ?case using producers_ok_cong by blast
next
  case (run_refused s log pid now_ms)
  then show ?case by (simp add: producers_ok_expire)
next
  case (run_applied s log history pid key check now_ms adv receipt)
  then have ok: "producers_ok (slot_expire_idle pid now_ms s) log" by (simp add: producers_ok_expire)
  from producers_ok_applied[OF ok run_applied.hyps(2)[unfolded evaluate_after_expire], of receipt now_ms]
    run_applied.IH show ?case by (simp add: tokened_fresh_append)
next
  case (run_evict s log now_ms budget)
  then show ?case by (simp add: producers_ok_evict)
next
  case (run_tidy s log now_ms)
  then show ?case by (simp add: slot_tidy_def producers_ok_evict producers_ok_fold_retire)
qed

section \<open>Eviction: independent of the map's order, and enough for the cap\<close>

lemma floor_eqI: "(\<And>x. at_or_below a x \<longleftrightarrow> at_or_below b x) \<Longrightarrow> a = b"
  by (cases a; cases b) (auto simp: at_or_below_def intro: order.antisym)

lemma fold_retire_map:
  "map_of (slot_producers (fold retire_producer pids s)) q =
     (if q \<in> set pids then None else map_of (slot_producers s) q)"
  by (induction pids arbitrary: s) (auto simp: retire_producer_simps)

lemma fold_retire_floor:
  "at_or_below (slot_retired_epoch_watermark (fold retire_producer pids s)) x \<longleftrightarrow>
     at_or_below (slot_retired_epoch_watermark s) x \<or>
     (\<exists>p \<in> set pids. \<exists>r. map_of (slot_producers s) p = Some r \<and> x \<le> ps_epoch r)"
proof (induction pids arbitrary: s)
  case (Cons p pids)
  show ?case
  proof (cases "map_of (slot_producers s) p")
    case None
    then show ?thesis using Cons.IH[of s] by (auto simp: retire_producer_def)
  next
    case (Some r)
    have "(\<exists>q \<in> set pids. \<exists>r'. map_of (slot_producers (retire_producer p s)) q = Some r' \<and> x \<le> ps_epoch r') \<or>
        x \<le> ps_epoch r \<longleftrightarrow>
      (\<exists>q \<in> set (p # pids). \<exists>r'. map_of (slot_producers s) q = Some r' \<and> x \<le> ps_epoch r')"
      using Some unfolding retire_producer_simps by (simp, metis option.inject option.distinct(1))
    then show ?thesis using Cons.IH[of "retire_producer p s"] Some
      by (auto simp: retire_producer_simps(2) at_or_below_raise)
  qed
qed simp

lemma fold_retire_same:
  assumes "set pids = set pids'" "map_of (slot_producers s) = map_of (slot_producers s')"
    "slot_retired_epoch_watermark s = slot_retired_epoch_watermark s'"
  shows "map_of (slot_producers (fold retire_producer pids s)) =
      map_of (slot_producers (fold retire_producer pids' s')) \<and>
    slot_retired_epoch_watermark (fold retire_producer pids s) =
      slot_retired_epoch_watermark (fold retire_producer pids' s')"
  using assms by (auto simp: fold_retire_map fold_retire_floor fun_eq_iff intro!: floor_eqI)

lemma mset_eq_map_of:
  "mset xs = mset ys \<Longrightarrow> distinct (map fst xs) \<Longrightarrow> map_of xs = map_of ys"
  by (metis distinct_map map_of_inject_set mset_eq_imp_distinct_iff mset_eq_setD mset_map)

lemma sort_mset_eq: "mset xs = mset ys \<Longrightarrow> sort xs = sort (ys :: ('a :: linorder) list)"
  by (metis mset_sort properties_for_sort sorted_sort)

lemma evict_victims_set:
  assumes "mset (slot_producers s) = mset (slot_producers s')"
  shows "set (evict_victims now_ms budget s) = set (evict_victims now_ms budget s')"
proof -
  have len: "length (slot_producers s) = length (slot_producers s')" using assms by (metis size_mset)
  have c: "mset (evict_candidates now_ms s) = mset (evict_candidates now_ms s')"
    by (simp add: evict_candidates_def assms)
  show ?thesis
    using sort_mset_eq[OF c] mset_eq_length[OF c] mset_eq_setD[OF c]
    by (simp add: evict_victims_def len Let_def)
qed

lemma tidy_idle_ids_eq:
  assumes "mset (slot_producers s) = mset (slot_producers s')"
  shows "tidy_idle_ids now_ms s = tidy_idle_ids now_ms s'"
proof -
  have "mset (map fst (filter (\<lambda>(_, r). producer_is_idle r now_ms) (slot_producers s))) =
      mset (map fst (filter (\<lambda>(_, r). producer_is_idle r now_ms) (slot_producers s')))"
    by (simp add: assms)
  from sort_mset_eq[OF this] show ?thesis by (simp only: tidy_idle_ids_def)
qed

lemma evict_same:
  assumes "mset (slot_producers s) = mset (slot_producers s')" "distinct (map fst (slot_producers s))"
    "slot_retired_epoch_watermark s = slot_retired_epoch_watermark s'"
  shows "map_of (slot_producers (evict_producers_over_cap now_ms budget s)) =
      map_of (slot_producers (evict_producers_over_cap now_ms budget s')) \<and>
    slot_retired_epoch_watermark (evict_producers_over_cap now_ms budget s) =
      slot_retired_epoch_watermark (evict_producers_over_cap now_ms budget s')"
  unfolding evict_producers_over_cap_def
  by (rule fold_retire_same[OF evict_victims_set[OF assms(1)] mset_eq_map_of[OF assms(1,2)] assms(3)])

lemma selects_sort:
  assumes "selects n xs ys"
  shows "sort ys = take n (sort xs)"
proof -
  obtain zs where zs: "mset xs = mset (ys @ zs)" "length ys = n" "\<forall>y \<in> set ys. \<forall>z \<in> set zs. y \<le> z"
    using assms by (auto simp: selects_def)
  have "sort xs = sort ys @ sort zs"
    by (rule properties_for_sort) (use zs in \<open>auto simp: sorted_append\<close>)
  then show ?thesis using zs(2) by simp
qed

lemma sort_selects: "n \<le> length xs \<Longrightarrow> selects n xs (take n (sort xs))"
  unfolding selects_def
proof (intro exI[of _ "drop n (sort xs)"] conjI)
  have "sorted (take n (sort xs) @ drop n (sort xs))" by simp
  then show "\<forall>y \<in> set (take n (sort xs)). \<forall>z \<in> set (drop n (sort xs)). y \<le> z" unfolding sorted_append by blast
qed simp_all

lemma evicts_victims:
  assumes "evicts now_ms budget s s1"
  shows "\<exists>pids. s1 = fold retire_producer pids s \<and> set pids = set (evict_victims now_ms budget s)"
proof (cases "min (length (slot_producers s) - max_producers_per_stream) budget = 0")
  case True
  with assms show ?thesis by (intro exI[of _ "[]"]) (simp add: evicts_def evict_victims_def)
next
  case False
  then obtain victims where v: "s1 = fold retire_producer (map snd victims) s"
      "if length (evict_candidates now_ms s) > min (length (slot_producers s) - max_producers_per_stream) budget
       then selects (min (length (slot_producers s) - max_producers_per_stream) budget) (evict_candidates now_ms s) victims
       else victims = evict_candidates now_ms s"
    using assms unfolding evicts_def Let_def by (simp only: if_False) blast
  then have "set (map snd victims) = set (evict_victims now_ms budget s)"
    using False selects_sort[of _ "evict_candidates now_ms s" victims]
    by (simp add: evict_victims_def Let_def split: if_splits) (metis set_sort)
  with v(1) show ?thesis by blast
qed

lemma evict_evicts: "evicts now_ms budget s (evict_producers_over_cap now_ms budget s)"
  using sort_selects[of "min (length (slot_producers s) - max_producers_per_stream) budget" "evict_candidates now_ms s"]
  by (auto simp: evicts_def evict_producers_over_cap_def evict_victims_def Let_def)

lemma tidy_tidies: "tidies now_ms s (slot_tidy now_ms s)"
  unfolding tidies_def slot_tidy_def by (rule evict_evicts)

lemma evicts_same:
  assumes "mset (slot_producers s) = mset (slot_producers s')" "distinct (map fst (slot_producers s))"
    "slot_retired_epoch_watermark s = slot_retired_epoch_watermark s'" "evicts now_ms budget s s1"
  shows "map_of (slot_producers s1) = map_of (slot_producers (evict_producers_over_cap now_ms budget s')) \<and>
    slot_retired_epoch_watermark s1 = slot_retired_epoch_watermark (evict_producers_over_cap now_ms budget s')"
proof -
  obtain pids where pids: "s1 = fold retire_producer pids s" "set pids = set (evict_victims now_ms budget s')"
    using evicts_victims[OF assms(4)] evict_victims_set[OF assms(1)] by metis
  show ?thesis
    unfolding pids(1) evict_producers_over_cap_def by (rule fold_retire_same[OF pids(2) mset_eq_map_of[OF assms(1,2)] assms(3)])
qed

lemma fold_retire_filter:
  "slot_producers (fold retire_producer pids s) = filter (\<lambda>p. fst p \<notin> set pids) (slot_producers s)"
proof (induction pids arbitrary: s)
  case (Cons pid pids)
  have "slot_producers (retire_producer pid s) = filter (\<lambda>p. fst p \<noteq> pid) (slot_producers s)"
  proof (cases "map_of (slot_producers s) pid")
    case None
    then have "filter (\<lambda>p. fst p \<noteq> pid) (slot_producers s) = slot_producers s"
      by (auto simp: map_of_eq_None_iff filter_id_conv)
    with None show ?thesis by (simp add: retire_producer_def)
  qed (auto simp: retire_producer_def AList.delete_eq case_prod_beta' intro: filter_cong)
  then show ?case using Cons.IH[of "retire_producer pid s"] by (simp add: conj_commute)
qed simp

lemma tidies_same:
  assumes "mset (slot_producers s) = mset (slot_producers s')" "distinct (map fst (slot_producers s))"
    "slot_retired_epoch_watermark s = slot_retired_epoch_watermark s'" "tidies now_ms s s1"
  shows "map_of (slot_producers s1) = map_of (slot_producers (slot_tidy now_ms s')) \<and>
    slot_retired_epoch_watermark s1 = slot_retired_epoch_watermark (slot_tidy now_ms s')"
proof -
  let ?r = "fold retire_producer (tidy_idle_ids now_ms s')"
  have ids: "tidy_idle_ids now_ms s = tidy_idle_ids now_ms s'" by (rule tidy_idle_ids_eq[OF assms(1)])
  have "mset (slot_producers (?r s)) = mset (slot_producers (?r s'))" by (simp add: fold_retire_filter assms(1))
  moreover have "distinct (map fst (slot_producers (?r s)))" using assms(2) by (simp add: fold_retire_filter distinct_map_filter)
  moreover have "slot_retired_epoch_watermark (?r s) = slot_retired_epoch_watermark (?r s')"
    using fold_retire_same[OF refl mset_eq_map_of[OF assms(1,2)] assms(3)] by blast
  ultimately show ?thesis
    using evicts_same[of "?r s" "?r s'"] assms(4) unfolding tidies_def slot_tidy_def ids by blast
qed

lemma retire_length:
  assumes "distinct (map fst (slot_producers s))"
  shows "length (slot_producers (retire_producer pid s)) =
      (if pid \<in> keys_of (slot_producers s) then length (slot_producers s) - 1 else length (slot_producers s)) \<and>
    distinct (map fst (slot_producers (retire_producer pid s))) \<and>
    keys_of (slot_producers (retire_producer pid s)) = keys_of (slot_producers s) - {pid}"
proof -
  have card: "length m = card (keys_of m)" if "distinct (map fst m)" for m :: "(string \<times> producer_state) list"
    using that distinct_card[of "map fst m"] by (simp add: keys_of_def)
  have fin: "finite (keys_of (slot_producers s))" by (simp add: keys_of_def)
  show ?thesis
  proof (cases "map_of (slot_producers s) pid")
    case None
    then have "pid \<notin> keys_of (slot_producers s)" by (simp add: map_of_None_keys)
    with None assms show ?thesis by (simp add: retire_producer_def)
  next
    case (Some r)
    then have "pid \<in> keys_of (slot_producers s)" by (rule map_of_Some_keys)
    with Some assms fin card[OF assms] card[OF distinct_keys_delete[OF assms], of pid]
    show ?thesis by (simp add: retire_producer_def)
  qed
qed

lemma fold_retire_length:
  assumes "distinct (map fst (slot_producers s))" "distinct pids" "set pids \<subseteq> keys_of (slot_producers s)"
  shows "length (slot_producers (fold retire_producer pids s)) = length (slot_producers s) - length pids \<and>
    distinct (map fst (slot_producers (fold retire_producer pids s)))"
  using assms
proof (induction pids arbitrary: s)
  case (Cons p pids)
  note R = retire_length[OF Cons.prems(1), of p]
  have "length (slot_producers (fold retire_producer pids (retire_producer p s))) =
      length (slot_producers (retire_producer p s)) - length pids \<and>
    distinct (map fst (slot_producers (fold retire_producer pids (retire_producer p s))))"
    using Cons.prems R by (intro Cons.IH) auto
  with R Cons.prems show ?case by auto
qed simp

lemma evict_victims_ok:
  assumes "distinct (map fst (slot_producers s))"
  shows "distinct (evict_victims now_ms budget s) \<and>
    set (evict_victims now_ms budget s) \<subseteq> keys_of (slot_producers s) \<and>
    length (evict_victims now_ms budget s) =
      min (min (length (slot_producers s) - max_producers_per_stream) budget)
          (length (evict_candidates now_ms s))"
proof -
  have snd_c: "map snd (evict_candidates now_ms s) =
      map fst (filter (\<lambda>(_, r). producer_cap_evictable r now_ms) (slot_producers s))"
    by (simp add: evict_candidates_def comp_def split_beta)
  have d: "distinct (map snd (evict_candidates now_ms s))"
    unfolding snd_c using assms by (simp add: distinct_map_filter)
  then have ds: "distinct (map snd (sort (evict_candidates now_ms s)))"
    by (metis distinct_map distinct_sort set_sort)
  have sub: "snd ` set (evict_candidates now_ms s) \<subseteq> keys_of (slot_producers s)"
    by (force simp: evict_candidates_def keys_of_def)
  have "distinct (map snd (take n (sort (evict_candidates now_ms s))))" for n
    using ds by (metis distinct_take take_map)
  moreover have "snd ` set (take n (sort (evict_candidates now_ms s))) \<subseteq> keys_of (slot_producers s)" for n
    using sub set_take_subset[of n "sort (evict_candidates now_ms s)"] by auto
  ultimately show ?thesis using d sub by (auto simp: evict_victims_def Let_def)
qed

lemma evict_length:
  assumes "distinct (map fst (slot_producers s))"
  shows "length (slot_producers (evict_producers_over_cap now_ms budget s)) =
      length (slot_producers s) - min (min (length (slot_producers s) - max_producers_per_stream) budget)
          (length (evict_candidates now_ms s)) \<and>
    distinct (map fst (slot_producers (evict_producers_over_cap now_ms budget s)))"
  using fold_retire_length[OF assms, of "evict_victims now_ms budget s"] evict_victims_ok[OF assms, of now_ms budget]
  by (simp add: evict_producers_over_cap_def)

lemma update_length:
  "length (AList.update k v m) = (if map_of m k = None then Suc (length m) else length m)"
  by (induction m) auto

text \<open>Room made for a new producer: the records evictable before the insert still are.\<close>

lemma update_new: "map_of m k = None \<Longrightarrow> AList.update k v m = m @ [(k, v)]"
  by (induction m) (auto split: if_splits)

lemma cap_after_insert:
  fixes st :: producer_state
  assumes "distinct (map fst (slot_producers s))" "producer_cap_admits pid now_ms s" "map_of (slot_producers s) pid = None"
  defines "s' \<equiv> s\<lparr> slot_producers := AList.update pid st (slot_producers s) \<rparr>"
  shows "length (slot_producers (evict_producers_over_cap now_ms budget s')) =
    Suc (length (slot_producers s)) - min (Suc (length (slot_producers s)) - max_producers_per_stream) budget"
proof -
  let ?ps = "slot_producers s" and ?ev = "\<lambda>(_, r). producer_cap_evictable r now_ms"
  have ps: "slot_producers s' = ?ps @ [(pid, st)]" using assms(3) by (simp add: s'_def update_new)
  have d: "distinct (map fst (slot_producers s'))" using assms(1) by (simp add: s'_def)
  have "length (filter ?ev ?ps) + length (filter (\<lambda>p. \<not> ?ev p) ?ps) = length ?ps" by (rule sum_length_filter_compl)
  moreover have "length ?ps < max_producers_per_stream \<or> length (filter (\<lambda>p. \<not> ?ev p) ?ps) < max_producers_per_stream"
    using assms(2,3) by (auto simp: producer_cap_admits_def case_prod_beta' split: if_splits)
  moreover have "length (filter ?ev ?ps) \<le> length (evict_candidates now_ms s')" by (simp add: evict_candidates_def ps)
  ultimately have "Suc (length ?ps) - max_producers_per_stream \<le> length (evict_candidates now_ms s')" by linarith
  then show ?thesis using evict_length[OF d, of now_ms budget] ps by simp
qed

section \<open>Properties\<close>

lemma demo_applied:
  assumes "producer_run s log" "advance_of (slot_evaluate_write h pid key check t (slot_expire_idle pid t s)) = Some adv"
    "s' = fst (slot_record_success h pid key adv receipt t (slot_expire_idle pid t s))"
    "log' = log @ [\<lparr> aw_producer = pid, aw_key = key, aw_tokened = (check = Matched), aw_receipt = receipt \<rparr>]"
  shows "producer_run s' log'"
  using assms(1-2) unfolding assms(3,4) by (rule run_applied)

lemma demo_slots:
  "slot_producers demo_slot = []" "slot_retired_epoch_watermark demo_slot = None"
  "slot_producers demo_slot1 = [(''p'', claimed (demo_key 0) None AboveFloor 7 (demo_receipt 0) 100)]"
  "slot_retired_epoch_watermark demo_slot1 = None"
  "slot_producers demo_slot2 =
     [(''p'', advance (demo_key 1) (demo_receipt 1) 200
        (claimed (demo_key 0) None AboveFloor 7 (demo_receipt 0) 100))]"
  "slot_retired_epoch_watermark demo_slot2 = None"
  by (simp_all add: demo_slot_def demo_slot1_def demo_slot2_def slot_record_success_def Let_def)

lemmas demo_eval = demo_slots slot_expire_idle_def slot_evaluate_write_def evaluate_defs Let_def demo_key_def
  advance_of_def at_or_below_def claimed_def advance_def producer_is_idle_def producer_idle_expiry_ms_def

lemma demo_run: "producer_run demo_slot2 demo_log"
proof -
  have e0: "slot_expire_idle ''p'' 100 demo_slot = demo_slot" "slot_expire_idle ''p'' 200 demo_slot1 = demo_slot1"
    by (simp_all add: demo_eval)
  have r0: "producer_run demo_slot []" by (rule run_new) (simp_all add: demo_slots)
  have a0: "advance_of (slot_evaluate_write 7 ''p'' (demo_key 0) Matched 100 (slot_expire_idle ''p'' 100 demo_slot)) =
      Some (Advance_Claim None AboveFloor)" unfolding e0 by (simp add: demo_eval)
  have r1: "producer_run demo_slot1 (take 1 demo_log)"
    by (rule demo_applied[OF r0 a0, where receipt = "demo_receipt 0"])
      (simp_all add: e0 demo_slot1_def demo_log_def)
  have a1: "advance_of (slot_evaluate_write 7 ''p'' (demo_key 1) Matched 200 (slot_expire_idle ''p'' 200 demo_slot1)) =
      Some Advance_Next" unfolding e0 by (simp add: demo_eval sat_add_def u64_max_def)
  show ?thesis
    by (rule demo_applied[OF r1 a1, where receipt = "demo_receipt 1"])
      (simp_all add: e0 demo_slot2_def demo_log_def)
qed

text \<open>C3. Exactly-once writes: in every run of a stream's producer records (claims, next
  seqs, idle expiry, cap evictions and tidying in any order, under any history ids), a
  write that carries an incarnation token and applies has a producer, epoch and seq that
  never applied before; so a producer that always sends the token never has the same key
  applied twice, even across retirements of its record.\<close>

theorem tokened_writes_apply_once:
  assumes "producer_run s log"
  shows "tokened_fresh log \<and>
    (\<forall>pid. (\<forall>w \<in> set (writes_of pid log). aw_tokened w) \<longrightarrow> distinct (map write_id (writes_of pid log)))"
proof -
  have fresh: "tokened_fresh log" using producer_run_ok[OF assms] by blast
  have "distinct (map write_id (writes_of pid log))" if "\<forall>w \<in> set (writes_of pid log). aw_tokened w" for pid
    using fresh that
  proof (induction log rule: rev_induct)
    case (snoc w log)
    have "tokened_fresh log"
      using snoc.prems(1) by (auto simp: tokened_fresh_def nth_append less_Suc_eq split: if_splits)
    moreover have "aw_tokened w \<longrightarrow> write_id w \<notin> write_id ` set log"
      using snoc.prems(1) by (auto simp: tokened_fresh_def dest: spec[of _ "length log"])
    ultimately show ?case using snoc.IH snoc.prems(2)
      by (auto simp: writes_of_append split: if_splits) (auto simp: writes_of_def)
  qed (simp add: writes_of_def)
  with fresh show ?thesis by blast
qed

theorem tokened_writes_apply_once_witness:
  "length (writes_of ''p'' demo_log) = 2 \<and> distinct (map write_id (writes_of ''p'' demo_log))"
proof -
  have "\<forall>w \<in> set (writes_of ''p'' demo_log). aw_tokened w" by (simp add: writes_of_def demo_log_def)
  then have "distinct (map write_id (writes_of ''p'' demo_log))"
    using tokened_writes_apply_once[OF demo_run] by blast
  then show ?thesis by (simp add: writes_of_def demo_log_def)
qed

text \<open>C26. In every run, the writes applied in the current epoch of a record opened above
  the floor are exactly the seqs 0, 1, \<open>\<dots>\<close>, \<open>last_seq\<close>, in this order and once each, and no
  write of the producer ever used a later epoch.\<close>

theorem epoch_applied_in_order:
  assumes "producer_run s log" "map_of (slot_producers s) pid = Some r" "ps_opened r = AboveFloor"
  shows "seqs_in (ps_epoch r) (writes_of pid log) = [0..<Suc (ps_last_seq r)] \<and>
    (\<forall>w \<in> set (writes_of pid log). epoch_of w \<le> ps_epoch r)"
  using producers_okD(1)[OF conjunct1[OF producer_run_ok[OF assms(1)]] assms(2)] assms(3)
  by (simp add: record_ok_def)

theorem epoch_applied_in_order_witness:
  "seqs_in 3 (writes_of ''p'' demo_log) = [0..<2]"
  using epoch_applied_in_order[OF demo_run, of "''p''"]
  by (simp add: demo_slots claimed_def advance_def demo_key_def numeral_2_eq_2)

text \<open>C27. How a retry is answered: when a write evaluates as a repeat in a reachable state, the producer's newest applied write has the same epoch; a retry of
  that newest seq carries the same digest and gets the receipt of that very write, and a
  retry of an older seq of an above-floor epoch is a key that did apply and is answered
  as delivered without a range.\<close>

theorem retry_gets_original_answer:
  assumes "producer_run s log"
    and "slot_evaluate_write h pid key check now_ms s = Repeat_Eval ack"
  shows "\<exists>r w. map_of (slot_producers s) pid = Some r \<and> writes_of pid log \<noteq> [] \<and>
    w = last (writes_of pid log) \<and> epoch_of w = wk_epoch key \<and> wk_seq key \<le> wk_seq (aw_key w) \<and>
    (wk_seq key = wk_seq (aw_key w) \<longrightarrow>
       pa_delivery ack = Repeat (aw_receipt w) \<and> wk_digest key = wk_digest (aw_key w)) \<and>
    (wk_seq key < wk_seq (aw_key w) \<longrightarrow> pa_delivery ack = Evicted \<and>
       (ps_opened r = AboveFloor \<longrightarrow> (pid, wk_epoch key, wk_seq key) \<in> write_id ` set log))"
proof -
  have ev: "slot_evaluate_write h pid key check now_ms (slot_expire_idle pid now_ms s) = Repeat_Eval ack"
    using assms(2) by (simp add: evaluate_write_stable)
  obtain r where r: "map_of (slot_producers (slot_expire_idle pid now_ms s)) pid = Some r"
      "wk_epoch key = ps_epoch r" "wk_seq key \<le> ps_last_seq r"
    and rep: "wk_seq key = ps_last_seq r \<longrightarrow> pa_delivery ack = Repeat (prc_receipt (ps_newest r)) \<and>
          (wk_digest key = prc_digest (ps_newest r) \<or> ps_last_seq r = 0 \<and> wk_digest key = ps_claim_digest r)"
      "wk_seq key < ps_last_seq r \<longrightarrow> pa_delivery ack = Evicted"
    using evaluate_Repeat_present[OF ev[unfolded evaluate_after_expire]] by blast
  have rs: "map_of (slot_producers s) pid = Some r"
    using r(1) by (auto simp: slot_expire_idle_def retire_producer_simps split: if_splits)
  have ok: "record_ok (slot_retired_epoch_watermark s) r (writes_of pid log)"
    using producers_okD(1)[OF conjunct1[OF producer_run_ok[OF assms(1)]] rs] .
  have "(pid, wk_epoch key, wk_seq key) \<in> write_id ` set log"
    if "ps_opened r = AboveFloor"
  proof -
    have "wk_seq key \<in> set (seqs_in (ps_epoch r) (writes_of pid log))"
      using ok that r(3) by (auto simp: record_ok_def)
    then show ?thesis using r(2) by (force simp: seqs_in_def writes_of_def write_id_def epoch_of_def)
  qed
  with ok r rep rs show ?thesis by (auto simp: record_ok_def)
qed

theorem retry_gets_original_answer_witness:
  "\<exists>w. w = last (writes_of ''p'' demo_log) \<and> aw_receipt w = demo_receipt 1 \<and>
     slot_evaluate_write 7 ''p'' (demo_key 1) Matched 300 demo_slot2 =
       Repeat_Eval \<lparr> pa_epoch = 3, pa_seq = 1, pa_closed_epoch = None, pa_delivery = Repeat (aw_receipt w) \<rparr>"
proof -
  have ev: "slot_evaluate_write 7 ''p'' (demo_key 1) Matched 300 demo_slot2 =
      Repeat_Eval \<lparr> pa_epoch = 3, pa_seq = 1, pa_closed_epoch = None, pa_delivery = Repeat (demo_receipt 1) \<rparr>"
    by (simp add: demo_eval)
  from retry_gets_original_answer[OF demo_run ev] ev show ?thesis
    by (auto simp: writes_of_def demo_log_def demo_key_def)
qed

text \<open>C28. The history fence: once the group's history id differs from the one under which
  a live (not idle) record was claimed, no further seq of its epoch applies; the only
  write of this producer that applies claims a later epoch.\<close>

theorem history_fence:
  assumes "map_of (slot_producers s) pid = Some r" "\<not> producer_is_idle r now_ms" "ps_history r \<noteq> h"
    and "advance_of (slot_evaluate_write h pid key check now_ms s) = Some adv"
  shows "(\<exists>closes op. adv = Advance_Claim closes op) \<and> ps_epoch r < wk_epoch key \<and> wk_seq key = 0"
proof (cases "evaluate (Some r) (slot_retired_epoch_watermark s) h key check")
  case (Claim closes op)
  then have "adv = Advance_Claim closes op" using assms by (simp add: slot_evaluate_write_def advance_of_def)
  then show ?thesis using evaluate_Claim_present[OF Claim] by blast
next
  case Next
  then show ?thesis using assms(3) evaluate_Next_iff[of "Some r"] by auto
qed (use assms in \<open>auto simp: slot_evaluate_write_def advance_of_def\<close>)

theorem history_fence_witness:
  "advance_of (slot_evaluate_write 8 ''p'' (demo_key 2) Matched 300 demo_slot2) = None \<and>
   (\<exists>r. map_of (slot_producers demo_slot2) ''p'' = Some r \<and> \<not> producer_is_idle r 300 \<and> ps_history r \<noteq> 8)"
proof -
  obtain r where r: "map_of (slot_producers demo_slot2) ''p'' = Some r" "\<not> producer_is_idle r 300" "ps_history r \<noteq> 8"
    by (simp add: demo_eval)
  from history_fence[OF r, of "demo_key 2" Matched] r show ?thesis
    by (cases "advance_of (slot_evaluate_write 8 ''p'' (demo_key 2) Matched 300 demo_slot2)")
      (auto simp: demo_key_def)
qed

text \<open>A stream of \<open>n\<close> producers, the \<open>k\<close>-th last seen at time \<open>k\<close>.\<close>

definition crowd :: "nat \<Rightarrow> stream_slot" where
  "crowd n = demo_slot\<lparr> slot_producers :=
     map (\<lambda>k. (replicate k (CHR ''a''), claimed (demo_key 0) None AboveFloor 7 (demo_receipt 0) k)) [0..<n] \<rparr>"

lemma crowd_distinct: "distinct (map fst (slot_producers (crowd n)))"
  by (simp add: crowd_def comp_def distinct_map inj_on_def)

lemma crowd_length [simp]: "length (slot_producers (crowd n)) = n"
  by (simp add: crowd_def)

lemma crowd_candidates:
  assumes "n \<le> 10000"
  shows "evict_candidates 5000000 (crowd n) = map (\<lambda>k. (k, replicate k (CHR ''a''))) [0..<n]"
proof -
  have "filter (\<lambda>(_, r). producer_cap_evictable r 5000000) (slot_producers (crowd n)) = slot_producers (crowd n)"
    using assms
    by (auto simp: filter_id_conv crowd_def claimed_def producer_cap_evictable_def producer_cap_evict_idle_ms_def)
  then show ?thesis by (simp add: evict_candidates_def) (simp add: crowd_def claimed_def comp_def)
qed

lemma crowd_oldest: "evicts 5000000 1024 (crowd 4097) (retire_producer [] (crowd 4097))"
proof -
  have "selects 1 (evict_candidates 5000000 (crowd 4097)) [(0, [])]"
    unfolding selects_def crowd_candidates[of 4097, simplified]
    by (intro exI[of _ "map (\<lambda>k. (k, replicate k (CHR ''a''))) [1..<4097]"]) (simp add: upt_rec[of 0] less_eq_prod_def)
  then show ?thesis
    by (auto simp: evicts_def crowd_candidates max_producers_per_stream_def intro!: exI[of _ "[(0, [])]"])
qed

text \<open>C29. Cap eviction and tidying give every replica the same producer records and the same epoch
  floor: whatever the iteration order of the producer map, and whichever of its outcomes the unstable
  selection of the oldest candidates has, an eviction and a tidying end with the records and the floor
  that selecting in ascending order gives.\<close>

theorem eviction_order_independent:
  assumes "mset (slot_producers s) = mset (slot_producers s')" "distinct (map fst (slot_producers s))"
    "slot_retired_epoch_watermark s = slot_retired_epoch_watermark s'"
    and "evicts now_ms budget s evicted" "tidies now_ms s tidied"
  shows "map_of (slot_producers evicted) = map_of (slot_producers (evict_producers_over_cap now_ms budget s')) \<and>
    slot_retired_epoch_watermark evicted = slot_retired_epoch_watermark (evict_producers_over_cap now_ms budget s') \<and>
    map_of (slot_producers tidied) = map_of (slot_producers (slot_tidy now_ms s')) \<and>
    slot_retired_epoch_watermark tidied = slot_retired_epoch_watermark (slot_tidy now_ms s')"
  using evicts_same[OF assms(1-4)] tidies_same[OF assms(1-3,5)] by blast

theorem eviction_order_independent_witness:
  "let s' = (crowd 4097)\<lparr> slot_producers := rev (slot_producers (crowd 4097)) \<rparr>
   in map_of (slot_producers (crowd 4097)) [] \<noteq> None \<and>
      map_of (slot_producers (evict_producers_over_cap 5000000 1024 s')) [] = None"
proof -
  let ?s' = "(crowd 4097)\<lparr> slot_producers := rev (slot_producers (crowd 4097)) \<rparr>"
  have "map_of (slot_producers (retire_producer [] (crowd 4097))) =
      map_of (slot_producers (evict_producers_over_cap 5000000 1024 ?s'))"
    using eviction_order_independent[OF _ crowd_distinct _ crowd_oldest tidy_tidies, of ?s'] by simp
  moreover have "map_of (slot_producers (crowd 4097)) [] \<noteq> None"
    by (simp add: crowd_def upt_rec[of 0])
  ultimately show ?thesis by (metis (no_types, lifting) fun_upd_same retire_producer_simps(1))
qed

text \<open>C30. The producer cap: when the cap admits a producer, recording its claim and enforcing the cap
  leaves a stream that was within 4,096 records within them; a new producer's claim evicts exactly the
  excess, up to the 1,024 of one command, so a stream above the cap shrinks by the rest of the budget
  and never grows.\<close>

theorem producer_cap_holds:
  assumes "distinct (map fst (slot_producers s))" "producer_cap_admits pid now_ms s"
    and "n = length (slot_producers s)"
    and "n' = length (slot_producers (evict_producers_over_cap now_ms producer_cap_evict_budget
      (fst (slot_record_success h pid key (Advance_Claim closes op) receipt now_ms s))))"
  shows "(n \<le> 4096 \<longrightarrow> n' \<le> 4096) \<and> n' \<le> max 4096 n \<and>
    (map_of (slot_producers s) pid = None \<longrightarrow> n' = Suc n - min (Suc n - 4096) 1024)"
proof (cases "map_of (slot_producers s) pid")
  case None
  have "n' = Suc n - min (Suc n - 4096) 1024"
    using cap_after_insert[OF assms(1,2) None, of producer_cap_evict_budget "claimed key closes op h receipt now_ms"]
    by (simp add: assms(3,4) slot_record_success_def Let_def max_producers_per_stream_def producer_cap_evict_budget_def)
  then show ?thesis by linarith
next
  case (Some r)
  let ?s = "s\<lparr> slot_producers := AList.update pid (claimed key closes op h receipt now_ms) (slot_producers s) \<rparr>"
  have "n' \<le> length (slot_producers ?s)"
    using evict_length[of ?s now_ms producer_cap_evict_budget] assms(1,4) by (simp add: slot_record_success_def Let_def)
  then have "n' \<le> n" using Some by (simp add: update_length assms(3))
  with Some show ?thesis by simp
qed

theorem producer_cap_holds_witness:
  "length (slot_producers (evict_producers_over_cap 5000000 producer_cap_evict_budget
     (fst (slot_record_success 7 ''q'' (demo_key 0) (Advance_Claim None AboveFloor) (demo_receipt 0) 5000000 (crowd 4096))))) = 4096 \<and>
   length (slot_producers (evict_producers_over_cap 5000000 producer_cap_evict_budget
     (fst (slot_record_success 7 ''q'' (demo_key 0) (Advance_Claim None AboveFloor) (demo_receipt 0) 5000000 (crowd 6000))))) = 4977"
proof -
  have q: "''q'' \<noteq> replicate k (CHR ''a'')" for k by (cases k) simp_all
  have new: "map_of (slot_producers (crowd n)) ''q'' = None" for n
    using q by (simp add: crowd_def map_of_eq_None_iff image_iff)
  have "producer_cap_admits ''q'' 5000000 (crowd n)" if "n \<le> 10000" for n
  proof -
    have "length (evict_candidates 5000000 (crowd n)) = n" using that by (simp add: crowd_candidates)
    then have "length (filter (\<lambda>(_, r). \<not> producer_cap_evictable r 5000000) (slot_producers (crowd n))) = 0"
      using sum_length_filter_compl[of "\<lambda>(_, r). producer_cap_evictable r 5000000" "slot_producers (crowd n)"]
      by (simp add: evict_candidates_def case_prod_beta')
    then show ?thesis by (simp add: producer_cap_admits_def max_producers_per_stream_def)
  qed
  note cap = producer_cap_holds[OF crowd_distinct this refl refl, of _ 7 "demo_key 0" None AboveFloor "demo_receipt 0"]
  show ?thesis using cap[of 4096] cap[of 6000] new by simp
qed

end
