(* ===== verification/Cold_Gc.thy ===== *)
theory Cold_Gc
  imports Model
begin

text \<open>
  The queue of pending cold-object reclamations, \<^verbatim>\<open>state_machine/cold_gc.rs\<close>.
  Entries carry sequence numbers; an acknowledgement drops a prefix by number and
  a deferral restamps one entry at the tail.  The interface of the queue, as the
  garbage-collection worker uses it, is the locale \<^verbatim>\<open>gc_worklist\<close>; the queue
  of the source is its interpretation.
\<close>

record cold_gc_queue =
  gq_pending :: "cold_gc_entry list"
  gq_next_seq :: u64

definition empty_gc_queue :: cold_gc_queue where
  "empty_gc_queue = \<lparr> gq_pending = [], gq_next_seq = 0 \<rparr>"

definition from_parts :: "cold_gc_entry list \<Rightarrow> u64 \<Rightarrow> cold_gc_queue" where
  "from_parts pending next_seq = \<lparr> gq_pending = pending, gq_next_seq = next_seq \<rparr>"

definition gc_push ::
  "string \<Rightarrow> cold_gc_target \<Rightarrow> u64 \<Rightarrow> u64 option \<Rightarrow> cold_gc_queue \<Rightarrow> cold_gc_queue" where
  "gc_push bucket_id target not_before_ms cold_generation q =
     q\<lparr> gq_next_seq := sat_add (gq_next_seq q) 1,
        gq_pending := gq_pending q @
          [\<lparr> gc_seq = gq_next_seq q, gc_bucket_id = bucket_id, gc_not_before_ms = not_before_ms,
             gc_target = target, gc_cold_generation = cold_generation, gc_defer_attempts = 0 \<rparr>] \<rparr>"

definition enqueue_after ::
  "string \<Rightarrow> cold_gc_target \<Rightarrow> u64 \<Rightarrow> cold_gc_queue \<Rightarrow> cold_gc_queue" where
  "enqueue_after bucket_id target not_before_ms q = gc_push bucket_id target not_before_ms None q"

definition enqueue :: "string \<Rightarrow> cold_gc_target \<Rightarrow> cold_gc_queue \<Rightarrow> cold_gc_queue" where
  "enqueue bucket_id target q = enqueue_after bucket_id target 0 q"

definition enqueue_stream ::
  "string \<Rightarrow> bucket_stream_id \<Rightarrow> u64 \<Rightarrow> cold_gc_queue \<Rightarrow> cold_gc_queue" where
  "enqueue_stream bucket_id stream_id cold_generation q =
     gc_push bucket_id (Stream_Target stream_id) 0 (Some cold_generation) q"

text \<open>The loop of \<^verbatim>\<open>ack\<close>: pops while the front's number is at most \<open>up_to_seq\<close>.\<close>

fun ack_loop :: "u64 \<Rightarrow> u64 \<Rightarrow> cold_gc_entry list \<Rightarrow> cold_gc_entry list \<times> u64" where
  "ack_loop up_to_seq removed [] = ([], removed)"
| "ack_loop up_to_seq removed (e # es) =
     (if gc_seq e \<le> up_to_seq then ack_loop up_to_seq (sat_add removed 1) es else (e # es, removed))"

definition gc_ack :: "u64 \<Rightarrow> cold_gc_queue \<Rightarrow> cold_gc_queue \<times> u64" where
  "gc_ack up_to_seq q =
     (let (pending, removed) = ack_loop up_to_seq 0 (gq_pending q)
      in (q\<lparr> gq_pending := pending \<rparr>, removed))"

text \<open>\<^verbatim>\<open>position\<close> and \<^verbatim>\<open>remove\<close> of \<^verbatim>\<open>defer\<close>: the first entry with the number and the rest.\<close>

fun remove_seq :: "u64 \<Rightarrow> cold_gc_entry list \<Rightarrow> (cold_gc_entry \<times> cold_gc_entry list) option" where
  "remove_seq seq [] = None"
| "remove_seq seq (e # es) =
     (if gc_seq e = seq then Some (e, es)
      else map_option (\<lambda>(x, rest). (x, e # rest)) (remove_seq seq es))"

definition restamp :: "u64 \<Rightarrow> u64 \<Rightarrow> cold_gc_entry \<Rightarrow> cold_gc_entry" where
  "restamp new_seq not_before_ms e =
     e\<lparr> gc_seq := new_seq, gc_not_before_ms := max (gc_not_before_ms e) not_before_ms,
        gc_defer_attempts := min (gc_defer_attempts e + 1) u32_max \<rparr>"

definition gc_defer :: "u64 \<Rightarrow> u64 \<Rightarrow> cold_gc_queue \<Rightarrow> cold_gc_queue \<times> u64 option" where
  "gc_defer seq not_before_ms q =
     (case remove_seq seq (gq_pending q) of
        None \<Rightarrow> (q, None)
      | Some (entry, rest) \<Rightarrow>
          (q\<lparr> gq_next_seq := sat_add (gq_next_seq q) 1,
              gq_pending := rest @ [restamp (gq_next_seq q) not_before_ms entry] \<rparr>,
           Some (gq_next_seq q)))"

definition gc_batch :: "usize \<Rightarrow> cold_gc_queue \<Rightarrow> cold_gc_entry list" where
  "gc_batch max_entries q = take max_entries (gq_pending q)"

definition gc_len :: "cold_gc_queue \<Rightarrow> usize" where
  "gc_len q = length (gq_pending q)"

definition len_for_bucket :: "string \<Rightarrow> cold_gc_queue \<Rightarrow> usize" where
  "len_for_bucket bucket_id q = length (filter (\<lambda>e. gc_bucket_id e = bucket_id) (gq_pending q))"

text \<open>Numbers increase along the queue and stay below the next one to assign.\<close>

definition gc_inv :: "cold_gc_queue \<Rightarrow> bool" where
  "gc_inv q \<longleftrightarrow> sorted_wrt (<) (map gc_seq (gq_pending q)) \<and>
     (\<forall>e \<in> set (gq_pending q). gc_seq e < gq_next_seq q) \<and> gq_next_seq q \<le> u64_max"

text \<open>The operations of the queue as data, and what one of them removes for good.\<close>

datatype gc_op =
    Gc_Enqueue string cold_gc_target u64 "u64 option"
  | Gc_Ack u64
  | Gc_Defer u64 u64

fun gc_step :: "gc_op \<Rightarrow> cold_gc_queue \<Rightarrow> cold_gc_queue" where
  "gc_step (Gc_Enqueue b t n g) q = gc_push b t n g q"
| "gc_step (Gc_Ack n) q = fst (gc_ack n q)"
| "gc_step (Gc_Defer s t) q = fst (gc_defer s t q)"

fun gc_enqueued :: "gc_op list \<Rightarrow> cold_gc_target multiset" where
  "gc_enqueued [] = {#}"
| "gc_enqueued (Gc_Enqueue b t n g # ops) = add_mset t (gc_enqueued ops)"
| "gc_enqueued (_ # ops) = gc_enqueued ops"

fun gc_acked :: "gc_op list \<Rightarrow> cold_gc_queue \<Rightarrow> cold_gc_target multiset" where
  "gc_acked [] q = {#}"
| "gc_acked (Gc_Ack n # ops) q =
     mset (map gc_target (filter (\<lambda>e. gc_seq e \<le> n) (gq_pending q))) +
     gc_acked ops (gc_step (Gc_Ack n) q)"
| "gc_acked (op # ops) q = gc_acked ops (gc_step op q)"

section \<open>The work list a garbage-collection worker relies on\<close>

locale gc_worklist =
  fixes entries :: "'q \<Rightarrow> 'e list"
    and stamp :: "'e \<Rightarrow> nat"
    and inv :: "'q \<Rightarrow> bool"
    and drop_through :: "nat \<Rightarrow> 'q \<Rightarrow> 'q"
    and postpone :: "nat \<Rightarrow> nat \<Rightarrow> 'q \<Rightarrow> 'q"
    and fresh :: "'q \<Rightarrow> nat"
  assumes stamps_increase: "inv q \<Longrightarrow> sorted_wrt (<) (map stamp (entries q))"
    and stamps_below_fresh: "inv q \<Longrightarrow> e \<in> set (entries q) \<Longrightarrow> stamp e < fresh q"
    and drop_through_entries:
      "inv q \<Longrightarrow> entries (drop_through n q) = filter (\<lambda>e. n < stamp e) (entries q)"
    and drop_through_inv: "inv q \<Longrightarrow> inv (drop_through n q)"
    and postpone_entries: "inv q \<Longrightarrow> e \<in> set (entries q) \<Longrightarrow>
      \<exists>e'. stamp e' = fresh q \<and>
        entries (postpone (stamp e) t q) = filter (\<lambda>x. stamp x \<noteq> stamp e) (entries q) @ [e']"
begin

lemma drop_batch_aux:
  assumes "sorted_wrt (<) (map stamp es)" "0 < k" "k \<le> length es"
  shows "filter (\<lambda>e. stamp (last (take k es)) < stamp e) es = drop k es"
  using assms
proof (induction es arbitrary: k)
  case (Cons e es)
  then have above: "\<forall>x \<in> set es. stamp e < stamp x" by auto
  show ?case
  proof (cases "k = 1")
    case True
    with above show ?thesis by (auto simp: take_Cons')
  next
    case False
    with Cons.prems obtain k' where k: "k = Suc k'" "0 < k'" "k' \<le> length es" by (cases k) auto
    then have "take k' es \<noteq> []" by auto
    then have "stamp e < stamp (last (take k' es))"
      using above by (meson in_set_takeD last_in_set)
    with k Cons.IH[of k'] Cons.prems(1) show ?thesis by auto
  qed
qed simp

text \<open>Acknowledging the last entry of a batch removes exactly that batch.\<close>

lemma drop_batch:
  assumes "inv q" "0 < k" "k \<le> length (entries q)"
  shows "entries (drop_through (stamp (last (take k (entries q)))) q) = drop k (entries q)"
  using assms drop_batch_aux[OF stamps_increase[OF assms(1)] assms(2,3)] drop_through_entries by simp

text \<open>A postponed entry is not lost when the batch it was taken from is acknowledged.\<close>

lemma postponed_survives:
  assumes "inv q" "inv (postpone (stamp e) t q)" "e \<in> set (entries q)" "n < fresh q"
  shows "\<exists>e' \<in> set (entries (drop_through n (postpone (stamp e) t q))). stamp e' = fresh q"
proof -
  obtain e' where e': "stamp e' = fresh q"
    "entries (postpone (stamp e) t q) = filter (\<lambda>x. stamp x \<noteq> stamp e) (entries q) @ [e']"
    using postpone_entries[OF assms(1,3)] by blast
  then show ?thesis using drop_through_entries[OF assms(2)] assms(4) by auto
qed

end

section \<open>The queue of the source\<close>

lemma ack_loop_fst:
  "sorted_wrt (<) (map gc_seq es) \<Longrightarrow> fst (ack_loop n r es) = filter (\<lambda>e. n < gc_seq e) es"
proof (induction n r es rule: ack_loop.induct)
  case (2 n r e es)
  show ?case
  proof (cases "gc_seq e \<le> n")
    case False
    with "2.prems" have "filter (\<lambda>e. n < gc_seq e) es = es" by (auto simp: filter_id_conv)
    with False show ?thesis by simp
  qed (use 2 in simp)
qed simp

lemma ack_loop_snd:
  assumes "sorted_wrt (<) (map gc_seq es)" "r + length es \<le> u64_max"
  shows "snd (ack_loop n r es) = r + length (filter (\<lambda>e. gc_seq e \<le> n) es)"
  using assms
proof (induction n r es rule: ack_loop.induct)
  case (2 n r e es)
  show ?case
  proof (cases "gc_seq e \<le> n")
    case False
    with "2.prems" have "filter (\<lambda>e. gc_seq e \<le> n) es = []" by (auto simp: filter_empty_conv)
    with False show ?thesis by simp
  qed (use 2 in \<open>simp add: sat_add_exact\<close>)
qed simp

lemma remove_seq_Some:
  assumes "sorted_wrt (<) (map gc_seq es)" "remove_seq s es = Some (e, rest)"
  shows "gc_seq e = s \<and> e \<in> set es \<and> rest = filter (\<lambda>x. gc_seq x \<noteq> s) es"
  using assms
proof (induction s es arbitrary: e rest rule: remove_seq.induct)
  case (2 s x es)
  show ?case
  proof (cases "gc_seq x = s")
    case True
    with "2.prems" have "filter (\<lambda>y. gc_seq y \<noteq> s) es = es" by (auto simp: filter_id_conv)
    with True "2.prems" show ?thesis by simp
  qed (use 2 in auto)
qed simp

lemma remove_seq_None: "remove_seq s es = None \<longleftrightarrow> s \<notin> gc_seq ` set es"
  by (induction s es rule: remove_seq.induct) auto

lemma remove_seq_of_mem:
  assumes "sorted_wrt (<) (map gc_seq es)" "e \<in> set es"
  shows "remove_seq (gc_seq e) es = Some (e, filter (\<lambda>x. gc_seq x \<noteq> gc_seq e) es)"
proof -
  obtain e' rest where r: "remove_seq (gc_seq e) es = Some (e', rest)"
    using assms(2) remove_seq_None[of "gc_seq e" es] by (cases "remove_seq (gc_seq e) es") auto
  have "distinct (map gc_seq es)" using assms(1) strict_sorted_iff by blast
  with remove_seq_Some[OF assms(1) r] assms(2) r show ?thesis
    by (auto simp: distinct_map inj_on_def)
qed

lemma gc_inv_push:
  "gc_inv q \<Longrightarrow> gq_next_seq q < u64_max \<Longrightarrow> gc_inv (gc_push b t n g q)"
  by (auto simp: gc_inv_def gc_push_def sorted_wrt_append sat_add_exact less_SucI)

lemma gc_ack_pending:
  "gc_inv q \<Longrightarrow> gq_pending (fst (gc_ack n q)) = filter (\<lambda>e. n < gc_seq e) (gq_pending q)"
  using ack_loop_fst[of "gq_pending q" n 0] by (simp add: gc_ack_def gc_inv_def split_beta)

lemma gc_ack_next [simp]: "gq_next_seq (fst (gc_ack n q)) = gq_next_seq q"
  by (simp add: gc_ack_def split_beta)

lemma gc_inv_ack: "gc_inv q \<Longrightarrow> gc_inv (fst (gc_ack n q))"
  using gc_ack_pending[of q n]
  by (simp add: gc_inv_def sorted_wrt_map sorted_wrt_filter)

lemma gc_inv_defer:
  assumes "gc_inv q" "gq_next_seq q < u64_max"
  shows "gc_inv (fst (gc_defer s t q))"
proof (cases "remove_seq s (gq_pending q)")
  case None
  with assms show ?thesis by (simp add: gc_defer_def)
next
  case (Some p)
  obtain e rest where p: "p = (e, rest)" by force
  have sorted: "sorted_wrt (<) (map gc_seq (gq_pending q))" using assms(1) by (simp add: gc_inv_def)
  have rest: "rest = filter (\<lambda>x. gc_seq x \<noteq> s) (gq_pending q)"
    using remove_seq_Some[OF sorted] Some p by blast
  have "sorted_wrt (<) (map gc_seq rest)"
    using sorted by (simp add: rest sorted_wrt_map sorted_wrt_filter)
  then show ?thesis using assms Some p rest
    by (auto simp: gc_defer_def gc_inv_def restamp_def sorted_wrt_append sat_add_exact less_SucI)
qed

lemma gc_defer_pending:
  assumes "gc_inv q" "e \<in> set (gq_pending q)"
  shows "gq_pending (fst (gc_defer (gc_seq e) t q)) =
    filter (\<lambda>x. gc_seq x \<noteq> gc_seq e) (gq_pending q) @ [restamp (gq_next_seq q) t e]"
  using assms remove_seq_of_mem[of "gq_pending q" e] by (simp add: gc_defer_def gc_inv_def)

interpretation gcq: gc_worklist gq_pending gc_seq gc_inv "\<lambda>n q. fst (gc_ack n q)"
  "\<lambda>s t q. fst (gc_defer s t q)" gq_next_seq
proof
  fix q :: cold_gc_queue and e t
  assume "gc_inv q" "e \<in> set (gq_pending q)"
  then show "\<exists>e'. gc_seq e' = gq_next_seq q \<and>
      gq_pending (fst (gc_defer (gc_seq e) t q)) =
        filter (\<lambda>x. gc_seq x \<noteq> gc_seq e) (gq_pending q) @ [e']"
    using gc_defer_pending by (intro exI[of _ "restamp (gq_next_seq q) t e"]) (simp add: restamp_def)
qed (use gc_inv_ack in \<open>auto simp: gc_ack_pending gc_inv_def\<close>)

section \<open>Runs of the queue\<close>

lemma gc_step_next_seq: "gq_next_seq (gc_step op q) \<le> gq_next_seq q + 1"
  by (cases op) (auto simp: gc_push_def gc_defer_def sat_add_def split: option.split)

lemma gc_inv_step:
  "gc_inv q \<Longrightarrow> gq_next_seq q < u64_max \<Longrightarrow> gc_inv (gc_step op q)"
  by (cases op) (simp_all add: gc_inv_push gc_inv_ack gc_inv_defer)

lemma gc_inv_run:
  "gc_inv q \<Longrightarrow> gq_next_seq q + length ops \<le> u64_max \<Longrightarrow> gc_inv (fold gc_step ops q)"
proof (induction ops arbitrary: q)
  case (Cons op ops)
  then show ?case using gc_step_next_seq[of op q] gc_inv_step[of q op] by simp
qed simp

lemma gc_defer_targets:
  assumes "gc_inv q"
  shows "mset (map gc_target (gq_pending (fst (gc_defer s t q)))) = mset (map gc_target (gq_pending q))"
proof (cases "remove_seq s (gq_pending q)")
  case None
  then show ?thesis by (simp add: gc_defer_def)
next
  case (Some p)
  obtain e where e: "e \<in> set (gq_pending q)" "gc_seq e = s"
    using Some remove_seq_None[of s "gq_pending q"] by force
  have "distinct (map gc_seq (gq_pending q))" using assms strict_sorted_iff by (auto simp: gc_inv_def)
  then have "filter (\<lambda>x. gc_seq x = s) (gq_pending q) = [e]"
    using e by (rule filter_key_distinct)
  then show ?thesis
    using gc_defer_pending[OF assms e(1), of t] e(2)
      mset_filter_split[of gc_target "gq_pending q" "\<lambda>x. gc_seq x = s"]
    by (simp add: restamp_def)
qed

lemma gc_run_targets:
  "gc_inv q \<Longrightarrow> gq_next_seq q + length ops \<le> u64_max \<Longrightarrow>
   mset (map gc_target (gq_pending (fold gc_step ops q))) + gc_acked ops q =
   mset (map gc_target (gq_pending q)) + gc_enqueued ops"
proof (induction ops arbitrary: q)
  case (Cons op ops)
  have "gc_inv (gc_step op q)" "gq_next_seq (gc_step op q) + length ops \<le> u64_max"
    using Cons.prems gc_step_next_seq[of op q] gc_inv_step[of q op] by simp_all
  note IH = Cons.IH[OF this]
  show ?case
  proof (cases op)
    case (Gc_Ack n)
    then show ?thesis using IH Cons.prems(1)
      mset_filter_split[of gc_target "gq_pending q" "\<lambda>e. n < gc_seq e"]
      by (simp add: gc_ack_pending not_less)
  next
    case (Gc_Defer s t)
    then show ?thesis using IH gc_defer_targets[OF Cons.prems(1), of s t] by simp
  qed (use IH in \<open>simp add: gc_push_def\<close>)
qed simp

lemma gc_len_bound:
  assumes "gc_inv q"
  shows "length (gq_pending q) \<le> u64_max"
proof -
  have "distinct (map gc_seq (gq_pending q))" using assms strict_sorted_iff by (auto simp: gc_inv_def)
  then have "length (gq_pending q) = card (gc_seq ` set (gq_pending q))"
    by (metis distinct_card length_map set_map)
  also have "\<dots> \<le> card {..<gq_next_seq q}"
    using assms by (intro card_mono) (auto simp: gc_inv_def)
  finally show ?thesis using assms by (simp add: gc_inv_def)
qed

section \<open>Properties\<close>

text \<open>C16. Whatever sequence of enqueues, acknowledgements and deferrals is applied
  to a well-formed queue (numbers not exhausted), every reclamation target that was
  pending or enqueued is, with multiplicity, either still pending or was dropped by
  an acknowledgement: a deferral never loses one, an acknowledgement never
  drops one twice, and the queue stays well formed.\<close>

theorem gc_run_conserves_targets:
  assumes "gc_inv q" and "gq_next_seq q + length ops \<le> u64_max"
  shows "gc_inv (fold gc_step ops q) \<and>
    mset (map gc_target (gq_pending (fold gc_step ops q))) + gc_acked ops q =
      mset (map gc_target (gq_pending q)) + gc_enqueued ops"
  using gc_inv_run[OF assms] gc_run_targets[OF assms] by simp

theorem gc_run_conserves_targets_witness:
  "let ops = [Gc_Enqueue ''acme'' (Paths [''a'']) 7 None, Gc_Enqueue ''acme'' (Paths [''b'']) 0 None,
              Gc_Defer 0 9, Gc_Ack 1]
   in mset (map gc_target (gq_pending (fold gc_step ops empty_gc_queue))) + gc_acked ops empty_gc_queue =
        {#Paths [''a''], Paths [''b'']#}"
proof -
  let ?ops = "[Gc_Enqueue ''acme'' (Paths [''a'']) 7 None, Gc_Enqueue ''acme'' (Paths [''b'']) 0 None,
              Gc_Defer 0 9, Gc_Ack 1]"
  have "gc_inv empty_gc_queue" "gq_next_seq empty_gc_queue + length ?ops \<le> u64_max"
    by (simp_all add: empty_gc_queue_def gc_inv_def u64_max_def)
  note run = gc_run_conserves_targets[OF this, THEN conjunct2]
  have "mset (map gc_target (gq_pending empty_gc_queue)) + gc_enqueued ?ops =
      {#Paths [''a''], Paths [''b'']#}" by (simp add: empty_gc_queue_def)
  with run show ?thesis unfolding Let_def by (rule trans)
qed

text \<open>C19. An acknowledgement removes exactly the entries numbered at most
  \<open>up_to_seq\<close>, counts them, and changes nothing else; so acknowledging the last
  entry of a batch removes that batch and nothing behind it.\<close>

theorem gc_ack_exact:
  assumes "gc_inv q"
  shows "gc_ack n q = (q\<lparr> gq_pending := filter (\<lambda>e. n < gc_seq e) (gq_pending q) \<rparr>,
             length (filter (\<lambda>e. gc_seq e \<le> n) (gq_pending q))) \<and>
    (0 < k \<and> k \<le> gc_len q \<longrightarrow>
      gq_pending (fst (gc_ack (gc_seq (last (gc_batch k q))) q)) = drop k (gq_pending q))"
proof -
  have sorted: "sorted_wrt (<) (map gc_seq (gq_pending q))" using assms by (simp add: gc_inv_def)
  have "gc_ack n q = (q\<lparr> gq_pending := filter (\<lambda>e. n < gc_seq e) (gq_pending q) \<rparr>,
             length (filter (\<lambda>e. gc_seq e \<le> n) (gq_pending q)))"
    using ack_loop_fst[OF sorted, of n 0] ack_loop_snd[OF sorted, of 0 n] gc_len_bound[OF assms]
    by (simp add: gc_ack_def split_beta)
  then show ?thesis using gcq.drop_batch[OF assms] by (simp add: gc_batch_def gc_len_def)
qed

theorem gc_ack_exact_witness:
  "let q = gc_push ''acme'' (Paths [''b'']) 0 None (gc_push ''acme'' (Paths [''a'']) 0 None empty_gc_queue)
   in snd (gc_ack 0 q) = 1 \<and>
      gq_pending (fst (gc_ack (gc_seq (last (gc_batch 1 q))) q)) = drop 1 (gq_pending q)"
  using gc_ack_exact[of "gc_push ''acme'' (Paths [''b'']) 0 None
      (gc_push ''acme'' (Paths [''a'']) 0 None empty_gc_queue)" 0 1]
  by (simp add: empty_gc_queue_def gc_inv_def u64_max_def gc_push_def sat_add_def gc_batch_def gc_len_def)

text \<open>C20. Deferring a pending entry moves it to the tail under the next number with
  its target and generation intact; its grace period never becomes shorter, its
  attempt count grows, every other entry keeps its place, and an acknowledgement
  through any number assigned before does not drop it.  Deferring a number that is
  not pending changes nothing.\<close>

theorem gc_defer_moves:
  assumes "gc_inv q" and "gq_next_seq q < u64_max"
  shows "(s \<notin> gc_seq ` set (gq_pending q) \<longrightarrow> gc_defer s t q = (q, None)) \<and>
    (\<forall>e \<in> set (gq_pending q). gc_seq e = s \<longrightarrow>
      (\<exists>e'. gc_defer s t q =
              (q\<lparr> gq_pending := filter (\<lambda>x. gc_seq x \<noteq> s) (gq_pending q) @ [e'],
                  gq_next_seq := gq_next_seq q + 1 \<rparr>, Some (gc_seq e')) \<and>
            gc_target e' = gc_target e \<and> gc_cold_generation e' = gc_cold_generation e \<and>
            gc_bucket_id e' = gc_bucket_id e \<and>
            gc_not_before_ms e' = max (gc_not_before_ms e) t \<and>
            (\<forall>n < gq_next_seq q. e' \<in> set (gq_pending (fst (gc_ack n (fst (gc_defer s t q))))))))"
proof (intro conjI impI ballI)
  show "s \<notin> gc_seq ` set (gq_pending q) \<Longrightarrow> gc_defer s t q = (q, None)"
    using remove_seq_None[of s "gq_pending q"] by (simp add: gc_defer_def)
  fix e
  assume e: "e \<in> set (gq_pending q)" and s: "gc_seq e = s"
  let ?e = "restamp (gq_next_seq q) t e"
  have "gc_defer s t q =
      (q\<lparr> gq_pending := filter (\<lambda>x. gc_seq x \<noteq> s) (gq_pending q) @ [?e],
          gq_next_seq := gq_next_seq q + 1 \<rparr>, Some (gc_seq ?e))"
    using assms e s remove_seq_of_mem[of "gq_pending q" e]
    by (simp add: gc_defer_def gc_inv_def restamp_def sat_add_exact)
  moreover have "gq_pending (fst (gc_ack n (fst (gc_defer s t q)))) =
      filter (\<lambda>e. n < gc_seq e) (gq_pending (fst (gc_defer s t q)))" for n
    using gc_ack_pending[OF gc_inv_defer[OF assms]] .
  ultimately show "\<exists>e'. gc_defer s t q =
              (q\<lparr> gq_pending := filter (\<lambda>x. gc_seq x \<noteq> s) (gq_pending q) @ [e'],
                  gq_next_seq := gq_next_seq q + 1 \<rparr>, Some (gc_seq e')) \<and>
            gc_target e' = gc_target e \<and> gc_cold_generation e' = gc_cold_generation e \<and>
            gc_bucket_id e' = gc_bucket_id e \<and>
            gc_not_before_ms e' = max (gc_not_before_ms e) t \<and>
            (\<forall>n < gq_next_seq q. e' \<in> set (gq_pending (fst (gc_ack n (fst (gc_defer s t q))))))"
    by (intro exI[of _ ?e]) (simp add: restamp_def)
qed

theorem gc_defer_moves_witness:
  "let q = gc_push ''acme'' (Paths [''b'']) 0 None (gc_push ''acme'' (Paths [''a'']) 5 None empty_gc_queue)
   in gc_defer 9 7 q = (q, None) \<and>
      (\<exists>e'. gq_pending (fst (gc_defer 0 3 q)) = drop 1 (gq_pending q) @ [e'] \<and>
            gc_target e' = Paths [''a''] \<and> gc_not_before_ms e' = 5)"
proof -
  let ?q = "gc_push ''acme'' (Paths [''b'']) 0 None (gc_push ''acme'' (Paths [''a'']) 5 None empty_gc_queue)"
  have q: "gc_inv ?q" "gq_next_seq ?q < u64_max"
    and pending: "map gc_seq (gq_pending ?q) = [0, 1]" "gc_target (hd (gq_pending ?q)) = Paths [''a'']"
      "gc_not_before_ms (hd (gq_pending ?q)) = 5"
    by (simp_all add: empty_gc_queue_def gc_inv_def u64_max_def gc_push_def sat_add_def)
  obtain a b where ab: "gq_pending ?q = [a, b]" using pending(1) by (auto simp: map_eq_Cons_conv)
  have "gc_defer 9 7 ?q = (?q, None)" using gc_defer_moves[OF q, of 9 7] pending(1) ab by simp
  moreover have "\<exists>e'. gq_pending (fst (gc_defer 0 3 ?q)) = [b] @ [e'] \<and>
      gc_target e' = gc_target a \<and> gc_not_before_ms e' = max (gc_not_before_ms a) 3"
    using conjunct2[OF gc_defer_moves[OF q, of 0 3]] pending(1) ab by fastforce
  ultimately show ?thesis using pending ab by (simp add: Let_def)
qed

end
