(* ===== verification/History_Token.thy ===== *)
theory History_Token
  imports Model
begin

unbundle bit_operations_syntax

text \<open>
  History identity, \<^verbatim>\<open>crates/ursula-stream/src/history.rs\<close>: the public \<^verbatim>\<open>Stream-Incarnation\<close> token of a
  stream incarnation in a history.  BLAKE3 is third-party code: \<open>b3\<close> is the digest as a
  function of the hashed bytes.
\<close>

definition incarnation_tag :: u64 where
  "incarnation_tag = push_bit 52 1"

definition incarnation_mask :: u64 where
  "incarnation_mask = incarnation_tag - 1"

definition max_created_at_ms :: u64 where
  "max_created_at_ms = incarnation_mask"

text \<open>The first eight digest bytes, copied over eight zero bytes.\<close>

definition history_key :: "(byte list \<Rightarrow> byte list) \<Rightarrow> u64 \<Rightarrow> u64" where
  "history_key b3 history_id =
     (let digest = b3 (string_bytes ''ursula incarnation key v1'' @ le_bytes 8 history_id);
          first = take 8 digest @ replicate (8 - length digest) 0
      in of_le_bytes first AND incarnation_mask)"

definition incarnation_token :: "(byte list \<Rightarrow> byte list) \<Rightarrow> u64 \<Rightarrow> u64 \<Rightarrow> u64" where
  "incarnation_token b3 created_at_ms history_id =
     incarnation_tag OR ((created_at_ms XOR history_key b3 history_id) AND incarnation_mask)"

lemma incarnation_mask_eq: "incarnation_mask = mask 52"
  by (simp add: incarnation_mask_def incarnation_tag_def push_bit_eq_mult mask_eq_exp_minus_1)

lemma and_incarnation_mask: "n AND incarnation_mask = take_bit 52 n"
  by (simp add: incarnation_mask_eq take_bit_eq_mask)

lemma history_key_less: "history_key b3 h < 2 ^ 52"
  by (simp only: history_key_def Let_def and_incarnation_mask take_bit_nat_less_exp)

lemma tag_or:
  assumes "n < 2 ^ 52"
  shows "incarnation_tag OR n = 2 ^ 52 + n"
proof -
  have "bit n k \<Longrightarrow> k < 52" for k
  proof (rule ccontr)
    assume "bit n k" "\<not> k < 52"
    then have "n < 2 ^ k" using assms by (meson le_less_trans less_le_trans not_less one_le_numeral order_refl power_increasing)
    with \<open>bit n k\<close> show False by (simp add: bit_iff_odd)
  qed
  then have "incarnation_tag + n = incarnation_tag OR n"
    unfolding incarnation_tag_def
    by (intro disjunctive_add) (auto simp only: bit_push_bit_iff bit_1_iff le_less)
  then show ?thesis by (simp add: incarnation_tag_def push_bit_eq_mult)
qed

lemma incarnation_token_eq:
  "incarnation_token b3 c h = 2 ^ 52 + take_bit 52 (c XOR history_key b3 h)"
  by (simp only: incarnation_token_def and_incarnation_mask tag_or[OF take_bit_nat_less_exp])

lemma incarnation_token_inj:
  assumes "c < 2 ^ 52" "c' < 2 ^ 52" "incarnation_token b3 c h = incarnation_token b3 c' h"
  shows "c = c'"
proof -
  let ?k = "history_key b3 h"
  have id: "take_bit 52 (x XOR ?k) = x XOR ?k" if "x < 2 ^ 52" for x
  proof -
    have "take_bit 52 x = x" "take_bit 52 ?k = ?k" using that history_key_less by (simp_all add: take_bit_nat_eq_self)
    then show ?thesis by (simp add: take_bit_xor)
  qed
  have "c XOR ?k = c' XOR ?k" using assms by (simp only: incarnation_token_eq id add_left_cancel)
  then have "(c XOR ?k) XOR ?k = (c' XOR ?k) XOR ?k" by simp
  then show ?thesis by (simp add: xor.assoc)
qed

text \<open>C36. Whatever the digest function, every incarnation token lies in \<open>[2^52, 2^53)\<close>, so it is
  non-zero, exact in a double and disjoint from every creation time below \<open>2^52\<close>; and within one
  history two creation times a create can assign have the same token only when they are equal.\<close>

theorem incarnation_token_unique:
  assumes "c \<le> max_created_at_ms" "c' \<le> max_created_at_ms"
  shows "2 ^ 52 \<le> incarnation_token b3 c h \<and> incarnation_token b3 c h < 2 ^ 53 \<and>
    (incarnation_token b3 c h = incarnation_token b3 c' h \<longleftrightarrow> c = c')"
proof -
  have lt: "c < 2 ^ 52" "c' < 2 ^ 52" using assms
    by (simp_all add: max_created_at_ms_def incarnation_mask_eq mask_eq_exp_minus_1)
  have "take_bit 52 (c XOR history_key b3 h) < 2 ^ 52" by (rule take_bit_nat_less_exp)
  then show ?thesis using incarnation_token_inj[OF lt] by (auto simp: incarnation_token_eq)
qed

theorem incarnation_token_unique_witness:
  "let b3 = (\<lambda>bs. replicate 32 (word_of_nat (length bs))) in
   incarnation_token b3 1700000000000 7 \<noteq> incarnation_token b3 1700000000001 7 \<and>
   2 ^ 52 \<le> incarnation_token b3 1700000000000 7"
proof -
  have le: "1700000000000 \<le> max_created_at_ms" "1700000000001 \<le> max_created_at_ms"
    by (simp_all add: max_created_at_ms_def incarnation_mask_eq mask_eq_exp_minus_1)
  show ?thesis unfolding Let_def
    using incarnation_token_unique[OF le, of "\<lambda>bs. replicate 32 (word_of_nat (length bs))" 7] by simp
qed

end
