(* ===== verification/Validate.thy ===== *)
theory Validate
  imports Model
begin

text \<open>
  Validation of identities and content types: \<^verbatim>\<open>validate.rs\<close> and \<^verbatim>\<open>json_records.rs\<close> of
  \<^verbatim>\<open>crates/ursula-stream/src\<close> and \<^verbatim>\<open>content_type.rs\<close> of \<^verbatim>\<open>crates/ursula-shard/src\<close>.  A refusal's message
  is represented by one constructor per message.  The string methods used, \<^verbatim>\<open>str::trim\<close>, \<^verbatim>\<open>split\<close>,
  \<^verbatim>\<open>to_ascii_lowercase\<close> and \<^verbatim>\<open>eq_ignore_ascii_case\<close>, work on the UTF-8 bytes of the string.
\<close>

datatype id_fault =
    BucketIdLength | BucketIdBytes | BucketIdReserved | BucketIdUnderscores
  | StreamIdReserved | StreamIdDollar | IdentityTooLong
  | SegmentEmpty | SegmentTooLong | SegmentBytes | SegmentDot

definition is_ascii_lowercase :: "char \<Rightarrow> bool" where
  "is_ascii_lowercase c \<longleftrightarrow> CHR ''a'' \<le> c \<and> c \<le> CHR ''z''"

definition is_ascii_digit :: "char \<Rightarrow> bool" where
  "is_ascii_digit c \<longleftrightarrow> CHR ''0'' \<le> c \<and> c \<le> CHR ''9''"

definition bucket_id_byte :: "char \<Rightarrow> bool" where
  "bucket_id_byte c \<longleftrightarrow> is_ascii_lowercase c \<or> is_ascii_digit c \<or> c = CHR ''_'' \<or> c = CHR ''-''"

text \<open>\<^term>\<open>None\<close> is the source's \<^verbatim>\<open>Ok(())\<close>.\<close>

definition validate_bucket_id :: "string \<Rightarrow> id_fault option" where
  "validate_bucket_id bucket_id =
     (if \<not> (4 \<le> length bucket_id \<and> length bucket_id \<le> 64) then Some BucketIdLength
      else if \<not> list_all bucket_id_byte bucket_id then Some BucketIdBytes
      else if bucket_id = ''snapshots'' then Some BucketIdReserved
      else if prefix ''__'' bucket_id then Some BucketIdUnderscores
      else None)"

definition validate_path_segment :: "string \<Rightarrow> id_fault option" where
  "validate_path_segment s =
     (if s = [] then Some SegmentEmpty
      else if length s > 122 then Some SegmentTooLong
      else if CHR ''/'' \<in> set s \<or> CHR 0x00 \<in> set s \<or> sublist ''..'' s then Some SegmentBytes
      else if s = ''.'' then Some SegmentDot
      else None)"

definition validate_stream_id :: "bucket_stream_id \<Rightarrow> id_fault option" where
  "validate_stream_id stream_id =
     (let local_id = bsi_stream stream_id
      in case validate_path_segment local_id of
           Some fault \<Rightarrow> Some fault
         | None \<Rightarrow>
             if local_id = ''streams'' then Some StreamIdReserved
             else if prefix ''$'' local_id then Some StreamIdDollar
             else if sat_add (sat_add (length (bsi_bucket stream_id)) 1) (length local_id) > 122
             then Some IdentityTooLong
             else None)"

section \<open>String methods\<close>

text \<open>The UTF-8 encodings of the Unicode white-space characters.\<close>

definition white_spaces :: "string list" where
  "white_spaces =
     [[CHR 0x09], [CHR 0x0A], [CHR 0x0B], [CHR 0x0C], [CHR 0x0D], [CHR 0x20], [CHR 0xC2, CHR 0x85], [CHR 0xC2, CHR 0xA0],
      [CHR 0xE1, CHR 0x9A, CHR 0x80], [CHR 0xE2, CHR 0x80, CHR 0x80], [CHR 0xE2, CHR 0x80, CHR 0x81],
      [CHR 0xE2, CHR 0x80, CHR 0x82], [CHR 0xE2, CHR 0x80, CHR 0x83], [CHR 0xE2, CHR 0x80, CHR 0x84],
      [CHR 0xE2, CHR 0x80, CHR 0x85], [CHR 0xE2, CHR 0x80, CHR 0x86], [CHR 0xE2, CHR 0x80, CHR 0x87],
      [CHR 0xE2, CHR 0x80, CHR 0x88], [CHR 0xE2, CHR 0x80, CHR 0x89], [CHR 0xE2, CHR 0x80, CHR 0x8A],
      [CHR 0xE2, CHR 0x80, CHR 0xA8], [CHR 0xE2, CHR 0x80, CHR 0xA9], [CHR 0xE2, CHR 0x80, CHR 0xAF],
      [CHR 0xE2, CHR 0x81, CHR 0x9F], [CHR 0xE3, CHR 0x80, CHR 0x80]]"

text \<open>Strips the encodings \<open>ws\<close> from the front of a string while one matches.\<close>

function strip_front :: "string list \<Rightarrow> string \<Rightarrow> string" where
  "strip_front ws s =
     (case find (\<lambda>w. w \<noteq> [] \<and> prefix w s) ws of
        None \<Rightarrow> s
      | Some w \<Rightarrow> strip_front ws (drop (length w) s))"
  by pat_completeness auto
termination strip_front
  by (relation "measure (\<lambda>(ws, s). length s)")
    (auto simp: find_Some_iff prefix_def)

definition trim :: "string \<Rightarrow> string" where
  "trim s = rev (strip_front (map rev white_spaces) (rev (strip_front white_spaces s)))"

definition stripped :: "string list \<Rightarrow> string \<Rightarrow> bool" where
  "stripped ws s \<longleftrightarrow> (\<forall>w \<in> set ws. w \<noteq> [] \<longrightarrow> \<not> prefix w s)"

definition trimmed :: "string \<Rightarrow> bool" where
  "trimmed s \<longleftrightarrow> stripped white_spaces s \<and> stripped (map rev white_spaces) (rev s)"

definition to_ascii_lower :: "char \<Rightarrow> char" where
  "to_ascii_lower c = (if CHR ''A'' \<le> c \<and> c \<le> CHR ''Z'' then char_of ((of_char c :: nat) + 32) else c)"

definition to_ascii_lowercase :: "string \<Rightarrow> string" where
  "to_ascii_lowercase s = map to_ascii_lower s"

definition eq_ignore_ascii_case :: "string \<Rightarrow> string \<Rightarrow> bool" where
  "eq_ignore_ascii_case a b \<longleftrightarrow> to_ascii_lowercase a = to_ascii_lowercase b"

fun split_at_char :: "char \<Rightarrow> string \<Rightarrow> string list" where
  "split_at_char d [] = [[]]"
| "split_at_char d (c # s) =
     (if c = d then [] # split_at_char d s
      else (case split_at_char d s of [] \<Rightarrow> [[c]] | p # ps \<Rightarrow> (c # p) # ps))"

fun join :: "string \<Rightarrow> string list \<Rightarrow> string" where
  "join sep [] = []"
| "join sep [p] = p"
| "join sep (p # q # ps) = p @ sep @ join sep (q # ps)"

definition caseless :: "char \<Rightarrow> bool" where
  "caseless c \<longleftrightarrow> \<not> (CHR ''A'' \<le> c \<and> c \<le> CHR ''Z'') \<and> \<not> (CHR ''a'' \<le> c \<and> c \<le> CHR ''z'')"

definition normal_part :: "string \<Rightarrow> bool" where
  "normal_part p \<longleftrightarrow> p \<noteq> [] \<and> trimmed p \<and> CHR '';'' \<notin> set p \<and> to_ascii_lowercase p = p"

section \<open>Content types and canonical JSON text\<close>

definition normalize_content_type :: "string \<Rightarrow> string" where
  "normalize_content_type s =
     join ''; '' (map to_ascii_lowercase (filter (\<lambda>p. p \<noteq> []) (map trim (split_at_char (CHR '';'') s))))"

definition is_json_record_content_type :: "string \<Rightarrow> bool" where
  "is_json_record_content_type content_type =
     (case split_at_char (CHR '';'') content_type of
        [] \<Rightarrow> False
      | p # _ \<Rightarrow> eq_ignore_ascii_case (trim p) ''application/json'')"

definition json_lf :: byte where
  "json_lf = 10"

text \<open>\<^term>\<open>None\<close> is \<^verbatim>\<open>NonCanonicalJsonPayload\<close>.\<close>

definition canonical_json_message_count :: "string \<Rightarrow> byte list \<Rightarrow> u64 option" where
  "canonical_json_message_count content_type payload =
     (if \<not> is_json_record_content_type content_type \<or> payload = [] then Some 0
      else if last payload \<noteq> json_lf then None
      else Some (len_u64 (count_list payload json_lf)))"

definition message_count_valid :: "bool \<Rightarrow> u64 \<Rightarrow> u64 \<Rightarrow> bool" where
  "message_count_valid json payload_len message_count =
     (if \<not> json \<or> payload_len = 0 then message_count = 0
      else 1 \<le> message_count \<and> message_count \<le> payload_len div 2)"

text \<open>Canonical text: no message is empty.\<close>

fun no_empty_message :: "bool \<Rightarrow> byte list \<Rightarrow> bool" where
  "no_empty_message at_start [] = True"
| "no_empty_message at_start (b # bs) =
     (if b = json_lf then \<not> at_start \<and> no_empty_message True bs else no_empty_message False bs)"

section \<open>Trimming and lower case\<close>

declare strip_front.simps [simp del]

lemma find_None_stripped: "find (\<lambda>w. w \<noteq> [] \<and> prefix w s) ws = None \<longleftrightarrow> stripped ws s"
  by (auto simp: find_None_iff stripped_def)

lemma strip_front_stripped: "stripped ws (strip_front ws s)"
proof (induction ws s rule: strip_front.induct)
  case (1 ws s)
  show ?case
  proof (cases "find (\<lambda>w. w \<noteq> [] \<and> prefix w s) ws")
    case None
    then have "strip_front ws s = s" by (simp add: strip_front.simps)
    with None show ?thesis by (simp add: find_None_stripped)
  next
    case (Some w)
    with 1 show ?thesis by (simp add: strip_front.simps[of ws s])
  qed
qed

lemma strip_front_id: "stripped ws s \<Longrightarrow> strip_front ws s = s"
  by (simp add: strip_front.simps find_None_stripped[symmetric])

lemma strip_front_suffix: "suffix (strip_front ws s) s"
proof (induction ws s rule: strip_front.induct)
  case (1 ws s)
  show ?case
  proof (cases "find (\<lambda>w. w \<noteq> [] \<and> prefix w s) ws")
    case (Some w)
    then show ?thesis using 1[OF Some] suffix_drop[of "length w" s]
      by (simp add: strip_front.simps[of ws s] suffix_order.order_trans)
  qed (simp add: strip_front.simps)
qed

lemma stripped_prefix: "stripped ws s \<Longrightarrow> prefix p s \<Longrightarrow> stripped ws p"
  by (meson stripped_def prefix_order.order_trans)

lemma trim_trimmed: "trimmed (trim s)"
proof -
  let ?a = "strip_front white_spaces s"
  have "prefix (trim s) ?a"
    using strip_front_suffix[of "map rev white_spaces" "rev ?a"] by (simp add: trim_def suffix_to_prefix)
  then show ?thesis
    using stripped_prefix[OF strip_front_stripped] strip_front_stripped[of "map rev white_spaces"]
    by (simp add: trimmed_def trim_def)
qed

lemma trim_id: "trimmed s \<Longrightarrow> trim s = s"
  by (simp add: trim_def trimmed_def strip_front_id)

section \<open>Normalisation\<close>

lemma of_char_char_of_small: "n < 256 \<Longrightarrow> of_char (char_of n :: char) = (n :: nat)"
  by simp

lemma to_ascii_lower_eq_iff:
  assumes "\<not> (CHR ''A'' \<le> c \<and> c \<le> CHR ''Z'')" "\<not> (CHR ''a'' \<le> c \<and> c \<le> CHR ''z'')"
  shows "to_ascii_lower x = c \<longleftrightarrow> x = c"
proof (cases "CHR ''A'' \<le> x \<and> x \<le> CHR ''Z''")
  case True
  let ?n = "of_char x + 32 :: nat"
  have n: "97 \<le> ?n" "?n \<le> 122" using True by (auto simp: less_eq_char_def)
  then have "of_char (to_ascii_lower x) = ?n" using True by (simp add: to_ascii_lower_def)
  then have "CHR ''a'' \<le> to_ascii_lower x \<and> to_ascii_lower x \<le> CHR ''z''" using n by (simp add: less_eq_char_def)
  then show ?thesis using True assms by auto
qed (auto simp: to_ascii_lower_def)

lemma to_ascii_lower_idem: "to_ascii_lower (to_ascii_lower c) = to_ascii_lower c"
proof (cases "CHR ''A'' \<le> c \<and> c \<le> CHR ''Z''")
  case True
  let ?n = "of_char c + 32 :: nat"
  have n: "97 \<le> ?n" "?n \<le> 122" using True by (auto simp: less_eq_char_def)
  then have "of_char (to_ascii_lower c) = ?n" using True by (simp add: to_ascii_lower_def)
  then have "\<not> to_ascii_lower c \<le> CHR ''Z''" using n by (simp add: less_eq_char_def)
  then show ?thesis by (simp add: to_ascii_lower_def[of "to_ascii_lower c"])
next
  case False
  then have "to_ascii_lower c = c" by (auto simp: to_ascii_lower_def)
  then show ?thesis by simp
qed

lemma to_ascii_lowercase_idem [simp]: "to_ascii_lowercase (to_ascii_lowercase s) = to_ascii_lowercase s"
  by (simp add: to_ascii_lowercase_def to_ascii_lower_idem)

lemma prefix_map_plain:
  assumes "\<And>c x. c \<in> set w \<Longrightarrow> f x = c \<longleftrightarrow> x = c"
  shows "prefix w (map f s) \<longleftrightarrow> prefix w s"
  using assms
proof (induction w arbitrary: s)
  case (Cons c w)
  have c: "f x = c \<longleftrightarrow> x = c" for x using Cons.prems[of c] by simp
  have "prefix w (map f s') \<longleftrightarrow> prefix w s'" for s' using Cons.IH Cons.prems by simp
  then show ?case using c by (cases s) (auto simp: eq_commute[of c])
qed simp

lemma white_spaces_caseless: "w \<in> set white_spaces \<Longrightarrow> c \<in> set w \<Longrightarrow> caseless c"
proof -
  have "list_all (list_all caseless) white_spaces" by code_simp
  then show "w \<in> set white_spaces \<Longrightarrow> c \<in> set w \<Longrightarrow> caseless c" by (auto simp: list_all_iff)
qed

lemma stripped_lowercase:
  assumes "\<And>w c. w \<in> set ws \<Longrightarrow> c \<in> set w \<Longrightarrow> caseless c"
  shows "stripped ws (to_ascii_lowercase s) \<longleftrightarrow> stripped ws s"
proof -
  have "prefix w (map to_ascii_lower s) \<longleftrightarrow> prefix w s" if "w \<in> set ws" for w
    using assms[OF that] by (intro prefix_map_plain to_ascii_lower_eq_iff) (auto simp: caseless_def)
  then show ?thesis by (simp add: stripped_def to_ascii_lowercase_def)
qed

lemma trimmed_lowercase: "trimmed (to_ascii_lowercase s) \<longleftrightarrow> trimmed s"
proof -
  have "rev (to_ascii_lowercase s) = to_ascii_lowercase (rev s)" by (simp add: to_ascii_lowercase_def rev_map)
  then show ?thesis
    using stripped_lowercase[of white_spaces s] stripped_lowercase[of "map rev white_spaces" "rev s"] white_spaces_caseless
    by (fastforce simp: trimmed_def)
qed

lemma split_at_char_no: "p \<in> set (split_at_char d s) \<Longrightarrow> d \<notin> set p"
  by (induction s arbitrary: p rule: split_at_char.induct) (auto split: if_splits list.splits)

lemma split_at_char_ne: "split_at_char d s \<noteq> []"
  by (induction s) (auto split: list.splits)

lemma split_at_char_append: "d \<notin> set p \<Longrightarrow> split_at_char d (p @ d # s) = p # split_at_char d s"
  by (induction p) auto

lemma split_at_char_whole: "d \<notin> set p \<Longrightarrow> split_at_char d p = [p]"
  by (induction p) auto

lemma trim_space: "trimmed p \<Longrightarrow> trim (CHR '' '' # p) = p"
proof -
  assume p: "trimmed p"
  have others: "list_all (\<lambda>w. w \<noteq> [] \<longrightarrow> hd w = CHR '' '' \<longrightarrow> w = '' '') white_spaces" by (simp add: white_spaces_def)
  have mem: "'' '' \<in> set white_spaces" by (simp add: white_spaces_def)
  have "find (\<lambda>w. w \<noteq> [] \<and> prefix w (CHR '' '' # p)) white_spaces = Some '' ''"
  proof -
    have "find (\<lambda>w. w \<noteq> [] \<and> prefix w (CHR '' '' # p)) white_spaces \<noteq> None"
      using mem by (auto simp: find_None_iff)
    then obtain w where w: "find (\<lambda>w. w \<noteq> [] \<and> prefix w (CHR '' '' # p)) white_spaces = Some w" by auto
    then have "w \<in> set white_spaces" "w \<noteq> []" "prefix w (CHR '' '' # p)"
      by (auto simp: find_Some_iff)
    moreover have "hd w = CHR '' ''" using \<open>prefix w (CHR '' '' # p)\<close> \<open>w \<noteq> []\<close> by (cases w) auto
    ultimately have "w = '' ''" using others by (auto simp: list_all_iff)
    with w show ?thesis by simp
  qed
  then have "strip_front white_spaces (CHR '' '' # p) = strip_front white_spaces p"
    by (simp add: strip_front.simps[of _ "CHR '' '' # p"])
  then show ?thesis using p by (simp add: trim_def trimmed_def strip_front_id)
qed

lemma split_join:
  assumes "\<And>p. p \<in> set (q # ps) \<Longrightarrow> CHR '';'' \<notin> set p"
  shows "split_at_char (CHR '';'') (join ''; '' (q # ps)) = q # map ((#) (CHR '' '')) ps"
  using assms
proof (induction ps arbitrary: q)
  case (Cons r rs)
  have "split_at_char (CHR '';'') (CHR '' '' # join ''; '' (r # rs)) = map ((#) (CHR '' '')) (r # rs)"
    using Cons.IH[of r] Cons.prems by simp
  then show ?case using Cons.prems split_at_char_append[of "CHR '';''" q "CHR '' '' # join ''; '' (r # rs)"] by simp
qed (simp add: split_at_char_whole)

lemma set_trim: "set (trim s) \<subseteq> set s"
  using set_mono_suffix[OF strip_front_suffix[of white_spaces s]]
    set_mono_suffix[OF strip_front_suffix[of "map rev white_spaces" "rev (strip_front white_spaces s)"]]
  by (auto simp: trim_def)

lemma normal_parts:
  "p \<in> set (map to_ascii_lowercase (filter (\<lambda>p. p \<noteq> []) (map trim (split_at_char (CHR '';'') s)))) \<Longrightarrow> normal_part p"
proof -
  assume "p \<in> set (map to_ascii_lowercase (filter (\<lambda>p. p \<noteq> []) (map trim (split_at_char (CHR '';'') s))))"
  then obtain q where q: "q \<in> set (split_at_char (CHR '';'') s)" "trim q \<noteq> []" "p = to_ascii_lowercase (trim q)"
    by auto
  have "CHR '';'' \<notin> set (trim q)" using split_at_char_no[OF q(1)] set_trim[of q] by auto
  moreover have "to_ascii_lower x = CHR '';'' \<longleftrightarrow> x = CHR '';''" for x
    by (rule to_ascii_lower_eq_iff) (simp_all add: less_eq_char_def)
  ultimately have "CHR '';'' \<notin> set p" unfolding q(3) to_ascii_lowercase_def set_map by force
  with q trim_trimmed[of q] show "normal_part p"
    by (simp add: normal_part_def trimmed_lowercase) (simp add: to_ascii_lowercase_def)
qed

lemma normalize_normal_parts:
  assumes "\<And>p. p \<in> set ps \<Longrightarrow> normal_part p"
  shows "normalize_content_type (join ''; '' ps) = join ''; '' ps"
proof (cases ps)
  case Nil
  have "trim [] = []" by (rule trim_id) (simp add: trimmed_def stripped_def)
  with Nil show ?thesis by (simp add: normalize_content_type_def)
next
  case (Cons q qs)
  have "split_at_char (CHR '';'') (join ''; '' ps) = q # map ((#) (CHR '' '')) qs"
    unfolding Cons by (rule split_join) (use assms Cons in \<open>auto simp: normal_part_def\<close>)
  moreover have parts: "normal_part p" if "p \<in> set (q # qs)" for p using assms Cons that by simp
  have "trim q = q" using parts[of q] by (simp add: normal_part_def trim_id)
  moreover have "map (trim \<circ> (#) (CHR '' '')) qs = qs"
    by (rule map_idI) (use parts in \<open>simp add: normal_part_def trim_space\<close>)
  moreover have "filter (\<lambda>p. p \<noteq> []) (q # qs) = q # qs"
    by (rule filter_True) (use parts in \<open>auto simp: normal_part_def\<close>)
  moreover have "map to_ascii_lowercase (q # qs) = q # qs"
    by (rule map_idI) (use parts in \<open>auto simp: normal_part_def\<close>)
  ultimately show ?thesis using Cons by (simp only: normalize_content_type_def list.map map_map)
qed

section \<open>Message counts\<close>

lemma no_empty_count:
  "no_empty_message start p \<Longrightarrow> 2 * count_list p json_lf \<le> length p + (if start then 0 else 1)"
  by (induction start p rule: no_empty_message.induct) (auto split: if_splits)

lemma no_empty_ends_lf: "p \<noteq> [] \<Longrightarrow> last p = json_lf \<Longrightarrow> 1 \<le> count_list p json_lf"
  by (metis One_nat_def Suc_leI count_list_0_iff last_in_set neq0_conv)

section \<open>Properties\<close>

text \<open>C34. Content-type normalisation is idempotent: a stored content type is its own normal form.\<close>

theorem normalize_content_type_idem:
  "normalize_content_type (normalize_content_type s) = normalize_content_type s"
proof -
  let ?ps = "map to_ascii_lowercase (filter (\<lambda>p. p \<noteq> []) (map trim (split_at_char (CHR '';'') s)))"
  have "normalize_content_type (join ''; '' ?ps) = join ''; '' ?ps"
    by (rule normalize_normal_parts) (rule normal_parts)
  then show ?thesis by (simp add: normalize_content_type_def)
qed

text \<open>A canonical JSON payload whose messages are non-empty has one message per LF, and that
  count is one an external write of the same payload may carry; a payload without a final
  LF is refused.\<close>

lemma canonical_count_is_valid:
  assumes "is_json_record_content_type ct" "payload \<noteq> []" "length payload \<le> u64_max"
  shows "(canonical_json_message_count ct payload = None \<longleftrightarrow> last payload \<noteq> json_lf) \<and>
    (\<forall>n. canonical_json_message_count ct payload = Some n \<longrightarrow>
       n = count_list payload json_lf \<and> 1 \<le> n \<and>
       (no_empty_message True payload \<longrightarrow> message_count_valid True (length payload) n))"
proof -
  have "count_list payload json_lf \<le> length payload" by (rule count_le_length)
  then have "len_u64 (count_list payload json_lf) = count_list payload json_lf" using assms(3) by (simp add: len_u64_def)
  then show ?thesis
    using assms no_empty_count[of True payload] no_empty_ends_lf[of payload]
    by (auto simp: canonical_json_message_count_def message_count_valid_def)
qed

lemma canonical_count_sample:
  "canonical_json_message_count ''Application/JSON; charset=utf-8'' [0x31, 10, 0x32, 10] = Some 2 \<and>
   message_count_valid True (length [0x31, 10, 0x32, 10 :: byte]) 2"
proof -
  have json: "is_json_record_content_type ''Application/JSON; charset=utf-8''" by code_simp
  have count: "canonical_json_message_count ''Application/JSON; charset=utf-8'' [0x31, 10, 0x32, 10] = Some 2"
    using json by (simp add: canonical_json_message_count_def json_lf_def len_u64_def u64_max_def)
  show ?thesis
    using canonical_count_is_valid[OF json, of "[0x31, 10, 0x32, 10]"] count
    by (simp add: u64_max_def json_lf_def)
qed

end
