(* ===== verification/State_Machine.thy ===== *)
theory State_Machine
  imports Usage_Ledger Producers Cold_Gc History_Token Validate
begin

text \<open>
  The state of a group, \<^verbatim>\<open>StreamStateMachine\<close> of \<^verbatim>\<open>state_machine.rs\<close>, with the helpers every command
  uses: slots, shared cold objects, the hot-byte gauge, creation times, histories
  (\<^verbatim>\<open>state_machine/history.rs\<close>) and the usage hooks of \<^verbatim>\<open>state_machine/usage_ledger.rs\<close>.  An operation
  on \<^verbatim>\<open>&mut self\<close> takes the machine last and returns it with the result, if it has one.
\<close>

record flush_planner_state =
  fp_hot_streams :: "bucket_stream_id set"
  fp_cursor :: "bucket_stream_id option"
  fp_hot_since :: "(bucket_stream_id, u64 \<times> u64) hashmap"

record removed_state =
  rm_streams :: u64
  rm_end_records :: u64
  rm_end_records_early :: u64
  rm_bytes :: u64

record stream_state_machine =
  sm_buckets :: "string set"
  sm_erased_buckets :: "string set"
  sm_registry :: stream_registry
  sm_hot_payload_bytes :: u64
  sm_cold_gc :: cold_gc_queue
  sm_shared_refs :: "(string, u64) hashmap"
  sm_usage :: usage_ledger
  sm_flush_planner :: flush_planner_state
  sm_last_created_at_ms :: u64
  sm_history :: "history_event option"
  sm_removed :: removed_state

definition mark_hot :: "bucket_stream_id \<Rightarrow> flush_planner_state \<Rightarrow> flush_planner_state" where
  "mark_hot stream_id p =
     (if stream_id \<notin> fp_hot_streams p then p\<lparr> fp_hot_streams := insert stream_id (fp_hot_streams p) \<rparr> else p)"

definition unmark_hot :: "bucket_stream_id \<Rightarrow> flush_planner_state \<Rightarrow> flush_planner_state" where
  "unmark_hot stream_id p =
     p\<lparr> fp_hot_streams := fp_hot_streams p - {stream_id}, fp_hot_since := AList.delete stream_id (fp_hot_since p) \<rparr>"

definition zero_removed :: removed_state where
  "zero_removed = \<lparr> rm_streams = 0, rm_end_records = 0, rm_end_records_early = 0, rm_bytes = 0 \<rparr>"

definition removed_since :: "removed_state \<Rightarrow> removed_state \<Rightarrow> removed_state" where
  "removed_since earlier r =
     \<lparr> rm_streams = rm_streams r - rm_streams earlier,
       rm_end_records = rm_end_records r - rm_end_records earlier,
       rm_end_records_early = rm_end_records_early r - rm_end_records_early earlier,
       rm_bytes = rm_bytes r - rm_bytes earlier \<rparr>"

text \<open>\<^verbatim>\<open>new\<close>, with the keys the slot map will hand out.\<close>

definition new_machine :: "(nat \<Rightarrow> stream_key) \<Rightarrow> stream_state_machine" where
  "new_machine ks =
     \<lparr> sm_buckets = {}, sm_erased_buckets = {}, sm_registry = empty_registry ks, sm_hot_payload_bytes = 0,
       sm_cold_gc = empty_gc_queue, sm_shared_refs = [], sm_usage = empty_ledger,
       sm_flush_planner = \<lparr> fp_hot_streams = {}, fp_cursor = None, fp_hot_since = [] \<rparr>,
       sm_last_created_at_ms = 0, sm_history = None, sm_removed = zero_removed \<rparr>"

definition stream_slot_of :: "stream_state_machine \<Rightarrow> bucket_stream_id \<Rightarrow> stream_slot option" where
  "stream_slot_of m stream_id = reg_slot (sm_registry m) stream_id"

definition stream_metadata_of :: "stream_state_machine \<Rightarrow> bucket_stream_id \<Rightarrow> stream_metadata option" where
  "stream_metadata_of m stream_id = reg_metadata (sm_registry m) stream_id"

text \<open>A write through \<^verbatim>\<open>stream_slot_mut\<close> or \<^verbatim>\<open>stream_metadata_mut\<close>.\<close>

definition modify_stream_slot ::
  "bucket_stream_id \<Rightarrow> (stream_slot \<Rightarrow> stream_slot) \<Rightarrow> stream_state_machine \<Rightarrow> stream_state_machine" where
  "modify_stream_slot stream_id f m = m\<lparr> sm_registry := modify_slot stream_id f (sm_registry m) \<rparr>"

definition modify_stream_metadata ::
  "bucket_stream_id \<Rightarrow> (stream_metadata \<Rightarrow> stream_metadata) \<Rightarrow> stream_state_machine \<Rightarrow> stream_state_machine" where
  "modify_stream_metadata stream_id f m =
     modify_stream_slot stream_id (\<lambda>s. s\<lparr> slot_metadata := f (slot_metadata s) \<rparr>) m"

definition retain_shared_cold_object :: "string \<Rightarrow> stream_state_machine \<Rightarrow> stream_state_machine" where
  "retain_shared_cold_object path m =
     m\<lparr> sm_shared_refs := entry_modify 0 path (\<lambda>refs. sat_add refs 1) (sm_shared_refs m) \<rparr>"

definition release_shared_one ::
  "string \<Rightarrow> u64 \<Rightarrow> string \<Rightarrow> stream_state_machine \<Rightarrow> stream_state_machine" where
  "release_shared_one bucket_id not_before_ms path m =
     (case map_of (sm_shared_refs m) path of
        None \<Rightarrow> m
      | Some refs \<Rightarrow>
          if refs - 1 = 0
          then m\<lparr> sm_shared_refs := AList.delete path (sm_shared_refs m),
                  sm_cold_gc := enqueue_after bucket_id (Paths [path]) not_before_ms (sm_cold_gc m) \<rparr>
          else m\<lparr> sm_shared_refs := AList.update path (refs - 1) (sm_shared_refs m) \<rparr>)"

definition release_shared_cold_objects ::
  "string \<Rightarrow> string list \<Rightarrow> u64 \<Rightarrow> stream_state_machine \<Rightarrow> stream_state_machine" where
  "release_shared_cold_objects bucket_id paths not_before_ms m =
     fold (release_shared_one bucket_id not_before_ms) paths m"

definition add_hot_payload_bytes :: "u64 \<Rightarrow> stream_state_machine \<Rightarrow> stream_state_machine" where
  "add_hot_payload_bytes bytes m = m\<lparr> sm_hot_payload_bytes := sat_add (sm_hot_payload_bytes m) bytes \<rparr>"

definition remove_hot_payload_bytes :: "u64 \<Rightarrow> stream_state_machine \<Rightarrow> stream_state_machine" where
  "remove_hot_payload_bytes bytes m = m\<lparr> sm_hot_payload_bytes := sm_hot_payload_bytes m - bytes \<rparr>"

definition insert_stream_slot :: "stream_slot \<Rightarrow> stream_state_machine \<Rightarrow> stream_state_machine \<times> stream_key option" where
  "insert_stream_slot s m =
     (case reg_insert s (sm_registry m) of
        (reg, None) \<Rightarrow> (m\<lparr> sm_registry := reg \<rparr>, None)
      | (reg, Some k) \<Rightarrow>
          (m\<lparr> sm_registry := reg,
              sm_usage := index_live (vu_seq (slot_usage s)) k (sm_usage m),
              sm_hot_payload_bytes := sat_add (sm_hot_payload_bytes m) (hot_len (slot_hot_buffer s)),
              sm_flush_planner := (if \<not> hot_is_empty (slot_hot_buffer s)
                 then mark_hot (md_stream_id (slot_metadata s)) (sm_flush_planner m)
                 else sm_flush_planner m) \<rparr>, Some k))"

definition sync_hot_index :: "bucket_stream_id \<Rightarrow> stream_state_machine \<Rightarrow> stream_state_machine" where
  "sync_hot_index stream_id m =
     (let hot = (case reg_slot (sm_registry m) stream_id of
                   None \<Rightarrow> False | Some s \<Rightarrow> \<not> hot_is_empty (slot_hot_buffer s))
      in m\<lparr> sm_flush_planner :=
              (if hot then mark_hot stream_id (sm_flush_planner m)
               else unmark_hot stream_id (sm_flush_planner m)) \<rparr>)"

definition appended_record_count :: "u64 \<Rightarrow> u64 \<Rightarrow> u64" where
  "appended_record_count json_messages payload_len =
     (if json_messages > 0 then json_messages else if payload_len > 0 then 1 else 0)"

definition max_live_created_at_ms :: "stream_state_machine \<Rightarrow> u64 \<Rightarrow> u64" where
  "max_live_created_at_ms m floor =
     fold max (map (\<lambda>s. md_created_at_ms (slot_metadata s)) (reg_slot_values (sm_registry m))) floor"

definition next_created_at_ms :: "u64 \<Rightarrow> stream_state_machine \<Rightarrow> stream_response + u64" where
  "next_created_at_ms now_ms m =
     (let created_at_ms = max now_ms (sat_add (sm_last_created_at_ms m) 1)
      in if created_at_ms > max_created_at_ms then Inl (error CreatedAtOutOfRange) else Inr created_at_ms)"

definition record_created_at_ms :: "u64 \<Rightarrow> stream_state_machine \<Rightarrow> stream_state_machine" where
  "record_created_at_ms created_at_ms m =
     m\<lparr> sm_last_created_at_ms := max (sm_last_created_at_ms m) created_at_ms \<rparr>"

definition add_snapshot_bytes :: "stream_slot \<Rightarrow> (string, u64) btreemap \<Rightarrow> (string, u64) btreemap" where
  "add_snapshot_bytes s acc =
     (case visible_snapshot_bytes s of
        None \<Rightarrow> acc
      | Some n \<Rightarrow>
          (let b = bsi_bucket (md_stream_id (slot_metadata s))
           in case map_of acc b of
                Some bytes \<Rightarrow> AList.update b (sat_add bytes n) acc
              | None \<Rightarrow> AList.update b n acc))"

definition snapshot_bytes_by_bucket :: "stream_state_machine \<Rightarrow> (string, u64) btreemap" where
  "snapshot_bytes_by_bucket m = fold add_snapshot_bytes (reg_slot_values (sm_registry m)) []"

definition refresh_ttl_entry :: "bucket_stream_id \<Rightarrow> stream_state_machine \<Rightarrow> stream_state_machine" where
  "refresh_ttl_entry stream_id m = m\<lparr> sm_registry := refresh_ttl stream_id (sm_registry m) \<rparr>"

section \<open>Time to live\<close>

definition stream_ttl_renewal_due :: "stream_metadata \<Rightarrow> u64 \<Rightarrow> bool" where
  "stream_ttl_renewal_due m now_ms =
     (case md_stream_ttl_seconds m of
        None \<Rightarrow> False
      | Some ttl_seconds \<Rightarrow>
          if md_stream_expires_at_ms m \<noteq> None then False
          else let renewal_interval_ms = max (div_ceil (sat_mul ttl_seconds 1000) 4) 1
               in now_ms - md_last_ttl_touch_at_ms m \<ge> renewal_interval_ms)"

definition renew_stream_ttl :: "u64 \<Rightarrow> stream_metadata \<Rightarrow> stream_metadata" where
  "renew_stream_ttl now_ms m =
     (if md_stream_ttl_seconds m \<noteq> None \<and> md_stream_expires_at_ms m = None
      then m\<lparr> md_last_ttl_touch_at_ms := max (md_last_ttl_touch_at_ms m) now_ms \<rparr> else m)"

section \<open>Histories\<close>

definition written_since_event :: "u64 \<Rightarrow> u64 \<Rightarrow> bool" where
  "written_since_event stream_history group_history \<longleftrightarrow> stream_history = group_history"

definition history_id :: "stream_state_machine \<Rightarrow> u64" where
  "history_id m = (case sm_history m of None \<Rightarrow> 0 | Some h \<Rightarrow> he_id h)"

definition new_history ::
  "u64 \<Rightarrow> u64 \<Rightarrow> u64 \<Rightarrow> u64 \<Rightarrow> history_leader \<Rightarrow> u64 \<Rightarrow> stream_state_machine \<Rightarrow>
   stream_state_machine \<times> stream_response" where
  "new_history index history previous kept leader now_ms m =
     (if previous \<noteq> history_id m then (m, error HistoryMismatch)
      else
        (m\<lparr> sm_usage := (if previous = 0 then record_genesis history (sm_usage m) else sm_usage m),
            sm_history := Some \<lparr> he_id = history, he_event_index = index, he_previous = previous, he_kept = kept,
              he_leader = leader,
              he_imported = (case sm_history m of None \<Rightarrow> None | Some p \<Rightarrow> he_imported p) \<rparr>,
            sm_last_created_at_ms := max (sm_last_created_at_ms m) now_ms \<rparr>,
         HistoryStarted history))"

definition token_of :: "(byte list \<Rightarrow> byte list) \<Rightarrow> stream_state_machine \<Rightarrow> stream_metadata \<Rightarrow> u64" where
  "token_of b3 m stream = incarnation_token b3 (md_created_at_ms stream) (history_id m)"

definition stream_incarnation ::
  "(byte list \<Rightarrow> byte list) \<Rightarrow> stream_state_machine \<Rightarrow> bucket_stream_id \<Rightarrow> u64 option" where
  "stream_incarnation b3 m stream_id = map_option (token_of b3 m) (stream_metadata_of m stream_id)"

definition stream_inherited ::
  "(byte list \<Rightarrow> byte list) \<Rightarrow> stream_state_machine \<Rightarrow> bucket_stream_id \<Rightarrow> inherited_report option" where
  "stream_inherited b3 m stream_id =
     (case stream_slot_of m stream_id of
        None \<Rightarrow> None
      | Some s \<Rightarrow>
          (let created = md_created_at_ms (slot_metadata s);
               report = (\<lambda>history offset. Some \<lparr> ir_previous_incarnation = incarnation_token b3 created history,
                                                 ir_offset = offset \<rparr>)
           in if \<not> written_since_event (slot_history s) (history_id m)
              then report (slot_history s) (md_tail_offset (slot_metadata s))
              else (case slot_inherited s of
                      None \<Rightarrow> None | Some inh \<Rightarrow> report (ih_history inh) (ih_offset inh))))"

definition slot_inherit_history :: "u64 \<Rightarrow> stream_slot \<Rightarrow> stream_slot" where
  "slot_inherit_history group_id s =
     (if \<not> written_since_event (slot_history s) group_id
      then s\<lparr> slot_inherited := Some \<lparr> ih_history = slot_history s, ih_offset = md_tail_offset (slot_metadata s) \<rparr>,
              slot_usage := (slot_usage s)\<lparr> vu_history_baseline := vu_counters (slot_usage s) \<rparr>,
              slot_history := group_id \<rparr>
      else s)"

definition inherit_history :: "bucket_stream_id \<Rightarrow> stream_state_machine \<Rightarrow> stream_state_machine" where
  "inherit_history stream_id m = modify_stream_slot stream_id (slot_inherit_history (history_id m)) m"

definition history_baseline_in :: "stream_slot \<Rightarrow> u64 \<Rightarrow> version_counters" where
  "history_baseline_in s group_id =
     (if written_since_event (slot_history s) group_id then vu_history_baseline (slot_usage s)
      else vu_counters (slot_usage s))"

section \<open>Usage hooks\<close>

definition usage_on_create ::
  "u64 \<Rightarrow> string \<Rightarrow> u64 \<Rightarrow> u64 \<Rightarrow> u64 \<Rightarrow> stream_state_machine \<Rightarrow> stream_state_machine \<times> version_usage" where
  "usage_on_create counted_since bucket_id bytes records now_ms m =
     (let (l, seq) = stamp (insert_bucket bucket_id (sm_usage m))
      in (m\<lparr> sm_usage := l \<rparr>,
          \<lparr> vu_seq = seq, vu_counters = \<lparr> vc_committed = of_write bytes records, vc_appends = 0 \<rparr>,
            vu_history_baseline = zero_counters, vu_last_write = At now_ms, vu_counted_since = counted_since \<rparr>))"

text \<open>What an append adds to a version's usage, before its new seq.\<close>

definition count_append :: "u64 \<Rightarrow> u64 \<Rightarrow> u64 \<Rightarrow> version_usage \<Rightarrow> version_usage" where
  "count_append bytes records now_ms v =
     v\<lparr> vu_counters := \<lparr> vc_committed = usage_add (vc_committed (vu_counters v)) (of_write bytes records),
                          vc_appends = sat_add (vc_appends (vu_counters v)) 1 \<rparr>,
        vu_last_write := At now_ms \<rparr>"

text \<open>Restamps the live version of a stream, after changing its usage by \<open>f\<close>.\<close>

definition restamp_stream ::
  "bucket_stream_id \<Rightarrow> (version_usage \<Rightarrow> version_usage) \<Rightarrow> stream_state_machine \<Rightarrow> stream_state_machine" where
  "restamp_stream stream_id f m =
     (case map_of (reg_keys (sm_registry m)) stream_id of
        None \<Rightarrow> m
      | Some k \<Rightarrow> (case map_of (reg_slots (sm_registry m)) k of
          None \<Rightarrow> m
        | Some s \<Rightarrow>
            (let (l, v) = restamp_version (f (slot_usage s)) k (sm_usage m)
             in modify_stream_slot stream_id (\<lambda>s. s\<lparr> slot_usage := v \<rparr>) (m\<lparr> sm_usage := l \<rparr>))))"

definition usage_on_append ::
  "bucket_stream_id \<Rightarrow> u64 \<Rightarrow> u64 \<Rightarrow> u64 \<Rightarrow> stream_state_machine \<Rightarrow> stream_state_machine" where
  "usage_on_append stream_id bytes records now_ms m =
     restamp_stream stream_id (count_append bytes records now_ms) m"

definition usage_on_size_change :: "bucket_stream_id \<Rightarrow> stream_state_machine \<Rightarrow> stream_state_machine" where
  "usage_on_size_change stream_id m = restamp_stream stream_id (\<lambda>v. v) m"

definition record_folded :: "end_record \<Rightarrow> stream_state_machine \<Rightarrow> stream_state_machine" where
  "record_folded r m =
     m\<lparr> sm_removed := (sm_removed m)\<lparr> rm_end_records := sat_add (rm_end_records (sm_removed m)) 1,
                                        rm_bytes := sat_add (rm_bytes (sm_removed m)) (end_record_bytes r) \<rparr> \<rparr>"

text \<open>A removal at the cap first folds the lowest end record.\<close>

definition fold_early :: "stream_state_machine \<Rightarrow> stream_state_machine" where
  "fold_early m =
     (if length (ul_ends (sm_usage m)) \<ge> max_end_records then
        (case fold_first_end_record (sm_usage m) of
           None \<Rightarrow> m
         | Some (l, folded) \<Rightarrow>
             (let m' = record_folded folded (m\<lparr> sm_usage := l \<rparr>)
              in m'\<lparr> sm_removed := (sm_removed m')\<lparr> rm_end_records_early :=
                       sat_add (rm_end_records_early (sm_removed m')) 1 \<rparr> \<rparr>))
      else m)"

definition end_record_of :: "stream_slot \<Rightarrow> stream_end \<Rightarrow> u64 \<Rightarrow> stream_state_machine \<Rightarrow> u64 \<Rightarrow> end_record" where
  "end_record_of s end now_ms m seq =
     \<lparr> er_seq = seq, er_stream_id = md_stream_id (slot_metadata s),
       er_created_at_ms = md_created_at_ms (slot_metadata s),
       er_counted_since = vu_counted_since (slot_usage s),
       er_ended_in = (case sm_history m of None \<Rightarrow> vu_counted_since (slot_usage s) | Some h \<Rightarrow> he_id h),
       er_end = end, er_ended_at_ms = now_ms, er_counters = vu_counters (slot_usage s),
       er_history_baseline = history_baseline_in s (history_id m),
       er_last_write = vu_last_write (slot_usage s) \<rparr>"

definition usage_on_end :: "stream_slot \<Rightarrow> stream_end \<Rightarrow> u64 \<Rightarrow> stream_state_machine \<Rightarrow> stream_state_machine" where
  "usage_on_end s end now_ms m =
     (let m1 = fold_early (m\<lparr> sm_usage := unindex_live (vu_seq (slot_usage s)) (sm_usage m) \<rparr>);
          (l, seq) = stamp (sm_usage m1);
          r = end_record_of s end now_ms m1 seq
      in m1\<lparr> sm_usage := l\<lparr> ul_ends := AList.update seq r (ul_ends l) \<rparr> \<rparr>)"

definition end_record_due :: "u64 \<Rightarrow> stream_state_machine \<Rightarrow> bool" where
  "end_record_due retire_through m =
     (case first_key_value (ul_ends (sm_usage m)) of None \<Rightarrow> False | Some (seq, _) \<Rightarrow> seq \<le> retire_through)"

text \<open>The loop of \<^verbatim>\<open>retire_end_records\<close>; the first argument is \<open>limit - retired\<close>.\<close>

fun retire_loop :: "nat \<Rightarrow> u64 \<Rightarrow> u64 \<Rightarrow> stream_state_machine \<Rightarrow> stream_state_machine \<times> u64" where
  "retire_loop 0 retire_through retired m = (m, retired)"
| "retire_loop (Suc left) retire_through retired m =
     (if end_record_due retire_through m then
        (case fold_first_end_record (sm_usage m) of
           None \<Rightarrow> (m, retired)
         | Some (l, folded) \<Rightarrow>
             retire_loop left retire_through (sat_add retired 1) (record_folded folded (m\<lparr> sm_usage := l \<rparr>)))
      else (m, retired))"

definition retire_end_records :: "u64 \<Rightarrow> u64 \<Rightarrow> stream_state_machine \<Rightarrow> stream_state_machine \<times> u64" where
  "retire_end_records retire_through limit m = retire_loop limit retire_through 0 m"

definition end_records_ended_by :: "stream_state_machine \<Rightarrow> u64 \<Rightarrow> u64 \<Rightarrow> u64" where
  "end_records_ended_by m at_ms through =
     (let run = takeWhile (\<lambda>r. er_ended_at_ms r \<le> at_ms)
                  (map snd (filter (\<lambda>(seq, _). seq \<le> through) (btree_iter (ul_ends (sm_usage m)))))
      in if run = [] then ul_retired_through (sm_usage m) else er_seq (last run))"

definition version_usage_of :: "stream_state_machine \<Rightarrow> bucket_stream_id \<Rightarrow> version_usage option" where
  "version_usage_of m stream_id = map_option slot_usage (stream_slot_of m stream_id)"

definition usage_seq :: "stream_state_machine \<Rightarrow> u64" where
  "usage_seq m = ul_usage_seq (sm_usage m)"

definition usage_genesis :: "stream_state_machine \<Rightarrow> u64" where
  "usage_genesis m = ul_genesis (sm_usage m)"

definition end_records :: "stream_state_machine \<Rightarrow> end_record list" where
  "end_records m = btree_values (ul_ends (sm_usage m))"

definition usage_retired_through :: "stream_state_machine \<Rightarrow> u64" where
  "usage_retired_through m = ul_retired_through (sm_usage m)"

section \<open>Bucket totals\<close>

definition report_slot :: "stream_slot \<Rightarrow> (string, bucket_usage) btreemap \<Rightarrow> (string, bucket_usage) btreemap" where
  "report_slot s =
     entry_modify zero_bucket_usage (bsi_bucket (md_stream_id (slot_metadata s)))
       (\<lambda>row. let row1 = add_to (vc_committed (vu_counters (slot_usage s))) row
              in row1\<lparr> bu_stream_count := sat_add (bu_stream_count row1) 1,
                       bu_retained_bytes := sat_add (bu_retained_bytes row1) (retained_bytes s) \<rparr>)"

definition report_end :: "end_record \<Rightarrow> (string, bucket_usage) btreemap \<Rightarrow> (string, bucket_usage) btreemap" where
  "report_end r =
     entry_modify zero_bucket_usage (bsi_bucket (er_stream_id r)) (add_to (vc_committed (er_counters r)))"

definition report_rows :: "stream_state_machine \<Rightarrow> (string, bucket_usage) btreemap" where
  "report_rows m =
     fold report_end (btree_values (ul_ends (sm_usage m)))
       (fold report_slot (reg_slot_values (sm_registry m))
         (map (\<lambda>(b, retired). (b, add_to retired zero_bucket_usage)) (ul_retired (sm_usage m))))"

definition bucket_usage_report :: "stream_state_machine \<Rightarrow> bucket_usage_snapshot list" where
  "bucket_usage_report m =
     map (\<lambda>(b, usage). \<lparr> bus_bucket_id = b, bus_usage = usage \<rparr>) (btree_iter (report_rows m))"

definition bucket_usage_rows :: "stream_state_machine \<Rightarrow> usize" where
  "bucket_usage_rows m = length (ul_retired (sm_usage m))"

definition slots_by_id :: "stream_state_machine \<Rightarrow> stream_slot list" where
  "slots_by_id m = sort_key slot_stream_id (reg_slot_values (sm_registry m))"

definition usage_snapshot_of :: "stream_state_machine \<Rightarrow> usage_snapshot" where
  "usage_snapshot_of m =
     (let l = sm_usage m
      in \<lparr> us_genesis = ul_genesis l, us_usage_seq = ul_usage_seq l, us_retired_through = ul_retired_through l,
           us_retired = map (\<lambda>(b, r). \<lparr> br_bucket_id = b, br_retired = r \<rparr>) (btree_iter (ul_retired l)),
           us_streams = map slot_usage (slots_by_id m),
           us_ends = btree_values (ul_ends l) \<rparr>)"

fun check_seqs :: "u64 \<Rightarrow> u64 set \<Rightarrow> stream_slot list \<Rightarrow> usage_snapshot_error option" where
  "check_seqs top_seq seqs [] = None"
| "check_seqs top_seq seqs (s # ss) =
     (let seq = vu_seq (slot_usage s)
      in if seq = 0 \<or> seq > top_seq \<or> seq \<in> seqs then Some (InvalidSeq seq top_seq)
         else check_seqs top_seq (insert seq seqs) ss)"

fun check_totals ::
  "(string, committed_usage) btreemap \<Rightarrow> (string, committed_usage) btreemap \<Rightarrow> string list \<Rightarrow>
   usage_snapshot_error option" where
  "check_totals totals parts [] = None"
| "check_totals totals parts (b # bs) =
     (let t = (case map_of totals b of None \<Rightarrow> zero_usage | Some u \<Rightarrow> u);
          p = (case map_of parts b of None \<Rightarrow> zero_usage | Some u \<Rightarrow> u)
      in case first_difference t p of
           Some c \<Rightarrow> Some (TotalsDisagree b c)
         | None \<Rightarrow> check_totals totals parts bs)"

text \<open>\<^term>\<open>None\<close> is the source's \<^verbatim>\<open>Ok(())\<close>.\<close>

definition check_restored_usage ::
  "(string, committed_usage) btreemap \<Rightarrow> stream_state_machine \<Rightarrow> usage_snapshot_error option" where
  "check_restored_usage totals m =
     (case check_seqs (ul_usage_seq (sm_usage m)) (keys_of (ul_ends (sm_usage m))) (reg_slot_values (sm_registry m)) of
        Some e \<Rightarrow> Some e
      | None \<Rightarrow>
          (let parts = map (\<lambda>row. (bus_bucket_id row, of_bucket (bus_usage row))) (bucket_usage_report m)
           in check_totals totals parts (map fst (btree_iter totals) @ map fst (btree_iter parts))))"

end
