(* ===== verification/Lifecycle.thy ===== *)
theory Lifecycle
  imports State_Machine
begin

text \<open>
  Buckets and streams: creation, deletion, purge, access, expiry and the sweep, and the
  incarnation precondition of a command: \<^verbatim>\<open>state_machine/lifecycle.rs\<close>.
\<close>

definition status_from_closed :: "bool \<Rightarrow> stream_status" where
  "status_from_closed closed = (if closed then Closed_Status else Open)"

text \<open>A refusal, or \<^term>\<open>None\<close> for \<^verbatim>\<open>Ok(())\<close>.\<close>

definition validate_retention :: "u64 option \<Rightarrow> u64 option \<Rightarrow> stream_response option" where
  "validate_retention stream_ttl_seconds stream_expires_at_ms =
     (if stream_ttl_seconds \<noteq> None \<and> stream_expires_at_ms \<noteq> None then Some (error InvalidRetention)
      else (case stream_ttl_seconds of
              None \<Rightarrow> None
            | Some ttl \<Rightarrow> if ttl * 1000 > u64_max then Some (error InvalidRetention) else None))"

definition validate_stream_scope :: "bucket_stream_id \<Rightarrow> stream_state_machine \<Rightarrow> stream_response option" where
  "validate_stream_scope stream_id m =
     (if validate_bucket_id (bsi_bucket stream_id) \<noteq> None then Some (error InvalidBucketId)
      else if validate_stream_id stream_id \<noteq> None then Some (error InvalidStreamId)
      else if bsi_bucket stream_id \<notin> sm_buckets m then
        (if bsi_bucket stream_id \<in> sm_erased_buckets m then Some (error BucketErased)
         else Some (error BucketNotFound))
      else None)"

definition create_bucket :: "string \<Rightarrow> stream_state_machine \<Rightarrow> stream_state_machine \<times> stream_response" where
  "create_bucket bucket_id m =
     (if validate_bucket_id bucket_id \<noteq> None then (m, error InvalidBucketId)
      else if bucket_id \<in> sm_erased_buckets m then (m, error BucketErased)
      else if bucket_id \<in> sm_buckets m then (m, BucketAlreadyExists bucket_id)
      else (m\<lparr> sm_buckets := insert bucket_id (sm_buckets m) \<rparr>, BucketCreated bucket_id))"

definition record_removed :: "stream_slot \<Rightarrow> stream_state_machine \<Rightarrow> stream_state_machine" where
  "record_removed s m =
     (let hot = len_u64 (hot_len (slot_hot_buffer s));
          inline_snapshot = (case slot_visible_snapshot s of
                               None \<Rightarrow> 0
                             | Some v \<Rightarrow> if vs_object v = None then len_u64 (length (vs_payload v)) else 0);
          removed = sm_removed m
      in m\<lparr> sm_removed := removed\<lparr> rm_streams := sat_add (rm_streams removed) 1,
              rm_bytes := sat_add (sat_add (sat_add (rm_bytes removed) hot) inline_snapshot)
                            command_log_overhead_bytes \<rparr> \<rparr>)"

text \<open>The reclamations a removed stream leaves, in the order they are queued.\<close>

definition enqueue_removed :: "bucket_stream_id \<Rightarrow> stream_slot \<Rightarrow> cold_gc_queue \<Rightarrow> cold_gc_queue" where
  "enqueue_removed stream_id s q =
     (let bucket_id = bsi_bucket stream_id;
          has_cold_objects = len_u64 (hot_len (slot_hot_buffer s)) < md_tail_offset (slot_metadata s) \<or>
            has_state_refs (slot_cold s);
          direct_external_paths = map op_s3_path (external_segments (slot_cold s));
          q1 = (if has_cold_objects
                then let q0 = enqueue_stream bucket_id stream_id (cold_generation (slot_cold s)) q
                     in if direct_external_paths \<noteq> []
                        then enqueue bucket_id (Paths direct_external_paths) q0 else q0
                else q)
      in case Option.bind (slot_visible_snapshot s) vs_object of
           None \<Rightarrow> q1
         | Some obj \<Rightarrow> enqueue bucket_id (Paths [ep_s3_path obj]) q1)"

definition remove_stream_state ::
  "bucket_stream_id \<Rightarrow> stream_end \<Rightarrow> u64 \<Rightarrow> stream_state_machine \<Rightarrow> stream_state_machine \<times> bool" where
  "remove_stream_state stream_id end now_ms m =
     (case reg_remove stream_id (sm_registry m) of
        (reg, None) \<Rightarrow> (m\<lparr> sm_registry := reg \<rparr>, False)
      | (reg, Some s) \<Rightarrow>
          (let m1 = record_removed s (m\<lparr> sm_registry := reg \<rparr>);
               m2 = m1\<lparr> sm_flush_planner := unmark_hot stream_id (sm_flush_planner m1) \<rparr>;
               m3 = remove_hot_payload_bytes (hot_len (slot_hot_buffer s)) m2;
               m4 = usage_on_end s end now_ms m3;
               m5 = m4\<lparr> sm_cold_gc := enqueue_removed stream_id s (sm_cold_gc m4) \<rparr>
           in (release_shared_cold_objects (bsi_bucket stream_id) (shared_object_paths (slot_cold s)) 0 m5, True)))"

text \<open>Removes a stream that has expired.\<close>

definition expire_stream_if_due :: "bucket_stream_id \<Rightarrow> u64 \<Rightarrow> stream_state_machine \<Rightarrow> stream_state_machine \<times> bool" where
  "expire_stream_if_due stream_id now_ms m =
     (case stream_metadata_of m stream_id of
        None \<Rightarrow> (m, False)
      | Some md \<Rightarrow>
          if stream_is_expired md now_ms
          then (fst (remove_stream_state stream_id Expired_End now_ms m), True) else (m, False))"

fun purge_streams ::
  "bucket_stream_id list \<Rightarrow> u64 \<Rightarrow> u64 \<Rightarrow> stream_state_machine \<Rightarrow> stream_state_machine \<times> u64" where
  "purge_streams [] now_ms removed m = (m, removed)"
| "purge_streams (i # ids) now_ms removed m =
     (case remove_stream_state i Purged_End now_ms m of
        (m', gone) \<Rightarrow> purge_streams ids now_ms (if gone then sat_add removed 1 else removed) m')"

definition purge_bucket :: "string \<Rightarrow> u64 \<Rightarrow> stream_state_machine \<Rightarrow> stream_state_machine \<times> stream_response" where
  "purge_bucket bucket_id now_ms m =
     (if validate_bucket_id bucket_id \<noteq> None then (m, error InvalidBucketId)
      else (case sm_history m of
              None \<Rightarrow> (m, error HistoryPending)
            | Some h \<Rightarrow>
                (let (m1, removed_streams) = purge_streams (bucket_stream_ids bucket_id (sm_registry m)) now_ms 0 m;
                     m2 = m1\<lparr> sm_buckets := sm_buckets m1 - {bucket_id},
                              sm_erased_buckets := insert bucket_id (sm_erased_buckets m1) \<rparr>
                 in (m2, BucketPurged bucket_id removed_streams
                           (len_u64 (len_for_bucket bucket_id (sm_cold_gc m2))) (he_id h)))))"

definition counting_history :: "stream_state_machine \<Rightarrow> stream_response + u64" where
  "counting_history m = (case sm_history m of None \<Rightarrow> Inl (error HistoryPending) | Some h \<Rightarrow> Inr (he_id h))"

section \<open>Creation\<close>

record create_stream_input =
  ci_stream_id :: bucket_stream_id
  ci_content_type :: string
  ci_initial_payload :: "byte list"
  ci_message_count :: u64
  ci_close_after :: bool
  ci_stream_seq :: "string option"
  ci_stream_ttl_seconds :: "u64 option"
  ci_stream_expires_at_ms :: "u64 option"
  ci_now_ms :: u64

record create_external_stream_input =
  xi_stream_id :: bucket_stream_id
  xi_content_type :: string
  xi_initial_payload :: external_payload_ref
  xi_message_count :: u64
  xi_close_after :: bool
  xi_stream_seq :: "string option"
  xi_stream_ttl_seconds :: "u64 option"
  xi_stream_expires_at_ms :: "u64 option"
  xi_now_ms :: u64

definition initial_len :: "create_stream_input \<Rightarrow> u64" where
  "initial_len input = length (ci_initial_payload input)"

definition validate_external_payload_ref :: "external_payload_ref \<Rightarrow> stream_response option" where
  "validate_external_payload_ref p =
     (if trim (ep_s3_path p) = [] then Some (error InvalidColdFlush)
      else if ep_payload_len p = 0 then Some (error EmptyAppend)
      else if ep_object_size p < ep_payload_len p then Some (error InvalidColdFlush)
      else None)"

definition validate_message_count :: "string \<Rightarrow> u64 \<Rightarrow> u64 \<Rightarrow> stream_response option" where
  "validate_message_count content_type payload_len message_count =
     (if message_count_valid (is_json_record_content_type content_type) payload_len message_count then None
      else Some (error InvalidRecordBoundaries))"

text \<open>The answer to a create of a stream that exists.\<close>

definition answer_existing ::
  "stream_metadata \<Rightarrow> string \<Rightarrow> bool \<Rightarrow> u64 option \<Rightarrow> u64 option \<Rightarrow> stream_response" where
  "answer_existing existing content_type close_after ttl expires =
     (if md_content_type existing = content_type \<and> md_status existing = status_from_closed close_after \<and>
         md_stream_ttl_seconds existing = ttl \<and> md_stream_expires_at_ms existing = expires
      then AlreadyExists (md_tail_offset existing) (md_status existing = Closed_Status) (md_content_type existing)
             (md_stream_ttl_seconds existing) (md_stream_expires_at_ms existing)
      else error StreamAlreadyExistsConflict)"

text \<open>The slot of a new stream, and its insertion once its usage is counted.\<close>

definition created_slot ::
  "stream_metadata \<Rightarrow> hot_buffer \<Rightarrow> stream_cold_state \<Rightarrow> u64 \<Rightarrow> version_usage \<Rightarrow> stream_slot" where
  "created_slot md hot cold history usage =
     \<lparr> slot_metadata = md, slot_hot_buffer = hot, slot_cold = cold, slot_retained_offset = 0,
       slot_visible_snapshot = None, slot_producers = [], slot_retired_epoch_watermark = None,
       slot_history = history, slot_inherited = None, slot_usage = usage \<rparr>"

definition install_created ::
  "u64 \<Rightarrow> stream_metadata \<Rightarrow> hot_buffer \<Rightarrow> stream_cold_state \<Rightarrow> u64 \<Rightarrow> u64 \<Rightarrow> stream_state_machine \<Rightarrow>
   stream_state_machine \<times> stream_response" where
  "install_created history md hot cold message_count now_ms m =
     (let len = md_tail_offset md;
          (m1, usage) = usage_on_create history (bsi_bucket (md_stream_id md)) len
             (appended_record_count message_count len) now_ms m
      in case insert_stream_slot (created_slot md hot cold (history_id m1) usage) m1 of
           (m2, None) \<Rightarrow> (m2, error StreamAlreadyExistsConflict)
         | (m2, Some k) \<Rightarrow>
             (record_created_at_ms (md_created_at_ms md) m2,
              Created (md_stream_id md) len (md_status md = Closed_Status)))"

definition create_stream :: "create_stream_input \<Rightarrow> stream_state_machine \<Rightarrow> stream_state_machine \<times> stream_response" where
  "create_stream input m =
     (case counting_history m of
        Inl r \<Rightarrow> (m, r)
      | Inr history \<Rightarrow>
     (case validate_stream_scope (ci_stream_id input) m of
        Some r \<Rightarrow> (m, r)
      | None \<Rightarrow>
     (case validate_retention (ci_stream_ttl_seconds input) (ci_stream_expires_at_ms input) of
        Some r \<Rightarrow> (m, r)
      | None \<Rightarrow>
         (let m1 = fst (expire_stream_if_due (ci_stream_id input) (ci_now_ms input) m)
          in case stream_slot_of m1 (ci_stream_id input) of
               Some s \<Rightarrow>
                 (m1, answer_existing (slot_metadata s) (ci_content_type input) (ci_close_after input)
                        (ci_stream_ttl_seconds input) (ci_stream_expires_at_ms input))
             | None \<Rightarrow>
                 (case next_created_at_ms (ci_now_ms input) m1 of
                    Inl r \<Rightarrow> (m1, r)
                  | Inr created_at_ms \<Rightarrow>
                      install_created history
                        \<lparr> md_stream_id = ci_stream_id input, md_content_type = ci_content_type input,
                          md_status = status_from_closed (ci_close_after input), md_tail_offset = initial_len input,
                          md_last_stream_seq = ci_stream_seq input,
                          md_stream_ttl_seconds = ci_stream_ttl_seconds input,
                          md_stream_expires_at_ms = ci_stream_expires_at_ms input,
                          md_created_at_ms = created_at_ms, md_last_ttl_touch_at_ms = ci_now_ms input \<rparr>
                        (from_payload 0 (ci_initial_payload input)) (with_generation created_at_ms)
                        (ci_message_count input) (ci_now_ms input) m1)))))"

definition create_external_stream ::
  "create_external_stream_input \<Rightarrow> stream_state_machine \<Rightarrow> stream_state_machine \<times> stream_response" where
  "create_external_stream input m =
     (case counting_history m of
        Inl r \<Rightarrow> (m, r)
      | Inr history \<Rightarrow>
     (case validate_external_payload_ref (xi_initial_payload input) of
        Some r \<Rightarrow> (m, r)
      | None \<Rightarrow>
     (case validate_stream_scope (xi_stream_id input) m of
        Some r \<Rightarrow> (m, r)
      | None \<Rightarrow>
     (case validate_retention (xi_stream_ttl_seconds input) (xi_stream_expires_at_ms input) of
        Some r \<Rightarrow> (m, r)
      | None \<Rightarrow>
     (case validate_message_count (xi_content_type input) (ep_payload_len (xi_initial_payload input))
             (xi_message_count input) of
        Some r \<Rightarrow> (m, r)
      | None \<Rightarrow>
         (let m1 = fst (expire_stream_if_due (xi_stream_id input) (xi_now_ms input) m)
          in case stream_slot_of m1 (xi_stream_id input) of
               Some s \<Rightarrow>
                 (m1, answer_existing (slot_metadata s) (xi_content_type input) (xi_close_after input)
                        (xi_stream_ttl_seconds input) (xi_stream_expires_at_ms input))
             | None \<Rightarrow>
                 (let len = ep_payload_len (xi_initial_payload input)
                  in case next_created_at_ms (xi_now_ms input) m1 of
                       Inl r \<Rightarrow> (m1, r)
                     | Inr created_at_ms \<Rightarrow>
                         install_created history
                           \<lparr> md_stream_id = xi_stream_id input, md_content_type = xi_content_type input,
                             md_status = status_from_closed (xi_close_after input), md_tail_offset = len,
                             md_last_stream_seq = xi_stream_seq input,
                             md_stream_ttl_seconds = xi_stream_ttl_seconds input,
                             md_stream_expires_at_ms = xi_stream_expires_at_ms input,
                             md_created_at_ms = created_at_ms, md_last_ttl_touch_at_ms = xi_now_ms input \<rparr>
                           empty_hot_buffer
                           (push_direct_external_segment
                              \<lparr> op_start_offset = 0, op_end_offset = len,
                                op_s3_path = ep_s3_path (xi_initial_payload input),
                                op_object_size = ep_object_size (xi_initial_payload input), op_object_offset = 0 \<rparr>
                              (with_generation created_at_ms))
                           (xi_message_count input) (xi_now_ms input) m1)))))))"

section \<open>Deletion, access and the sweep\<close>

definition delete_stream ::
  "bucket_stream_id \<Rightarrow> u64 \<Rightarrow> stream_state_machine \<Rightarrow> stream_state_machine \<times> stream_response" where
  "delete_stream stream_id now_ms m =
     (case validate_stream_scope stream_id m of
        Some r \<Rightarrow> (m, r)
      | None \<Rightarrow>
          (case stream_metadata_of m stream_id of
             None \<Rightarrow> (m, error StreamNotFound)
           | Some md \<Rightarrow>
               (let expired = stream_is_expired md now_ms;
                    end = (if expired then Expired_End else Deleted_End)
                in (fst (remove_stream_state stream_id end now_ms m), Deleted expired))))"

definition touch_stream_access ::
  "bucket_stream_id \<Rightarrow> u64 \<Rightarrow> bool \<Rightarrow> stream_state_machine \<Rightarrow> stream_state_machine \<times> stream_response" where
  "touch_stream_access stream_id now_ms renew_ttl m =
     (case validate_stream_scope stream_id m of
        Some r \<Rightarrow> (m, r)
      | None \<Rightarrow>
          (case stream_metadata_of m stream_id of
             None \<Rightarrow> (m, error StreamNotFound)
           | Some md \<Rightarrow>
               if stream_is_expired md now_ms
               then (fst (remove_stream_state stream_id Expired_End now_ms m), Accessed True True)
               else if renew_ttl \<and> md_stream_ttl_seconds md \<noteq> None then
                 (let m1 = modify_stream_metadata stream_id (renew_stream_ttl now_ms) m;
                      changed = md_last_ttl_touch_at_ms (renew_stream_ttl now_ms md) \<noteq> md_last_ttl_touch_at_ms md
                  in (if changed then refresh_ttl_entry stream_id m1 else m1, Accessed changed False))
               else (m, Accessed False False)))"

lemma pop_expired_ttl_length:
  "pop_expired now_ms reg = (reg', Some i) \<Longrightarrow> length (reg_ttl reg') < length (reg_ttl reg)"
proof (induction now_ms reg arbitrary: reg' rule: pop_expired.induct)
  case (1 now_ms reg)
  obtain entry rest where ttl: "reg_ttl reg = entry # rest" and due: "\<not> te_expires_at_ms entry > now_ms"
    using "1.prems" by (subst (asm) pop_expired.simps) (auto split: list.splits if_splits)
  note IH = "1.IH"[OF ttl due refl refl]
  note step = "1.prems"[unfolded pop_expired.simps[of now_ms reg], simplified ttl list.case, unfolded Let_def]
  show ?case
    using step IH due ttl
    by (auto simp: key_expiry_def split: if_splits option.splits) (metis less_Suc_eq)+
qed

lemma pop_expired_keys: "pop_expired now_ms reg = (reg', r) \<Longrightarrow> length (reg_keys reg') \<le> length (reg_keys reg)"
proof (induction now_ms reg arbitrary: reg' rule: pop_expired.induct)
  case (1 now_ms reg)
  show ?case
  proof (cases "ttl_front_due now_ms reg")
    case False
    then show ?thesis using "1.prems" by (subst (asm) pop_expired.simps) (auto simp: ttl_front_due_def split: list.splits if_splits)
  next
    case True
    then obtain entry rest where ttl: "reg_ttl reg = entry # rest" and due: "\<not> te_expires_at_ms entry > now_ms"
      by (auto simp: ttl_front_due_def split: list.splits)
    note IH = "1.IH"[OF ttl due refl refl]
    note step = "1.prems"[unfolded pop_expired.simps[of now_ms reg], simplified ttl list.case, unfolded Let_def]
    show ?thesis using step IH due ttl
      by (auto simp: key_expiry_def split: if_splits option.splits) metis+
  qed
qed

lemma remove_stream_state_False:
  assumes "remove_stream_state i end now_ms m = (m', False)"
  shows "m' = m \<or> length (reg_keys (sm_registry m')) < length (reg_keys (sm_registry m))"
proof (cases "map_of (reg_keys (sm_registry m)) i")
  case None
  then show ?thesis using assms by (simp add: remove_stream_state_def reg_remove_def)
next
  case (Some k)
  then have "i \<in> fst ` set (reg_keys (sm_registry m))" by (metis map_of_SomeD fst_conv image_eqI)
  then have "length (AList.delete i (reg_keys (sm_registry m))) < length (reg_keys (sm_registry m))"
    by (auto simp: AList.delete_eq intro: length_filter_less)
  then show ?thesis using assms Some
    by (auto simp: remove_stream_state_def reg_remove_def Let_def split: option.splits prod.splits)
qed

text \<open>The loop of \<^verbatim>\<open>sweep\<close>; the first argument is \<open>limit - expired\<close>.  An id that the registry no longer
  holds would not be counted; its entry has left the index.\<close>

function sweep_loop :: "nat \<Rightarrow> u64 \<Rightarrow> u64 \<Rightarrow> stream_state_machine \<Rightarrow> stream_state_machine \<times> u64" where
  "sweep_loop left now_ms n m =
     (if left = 0 then (m, n)
      else (case pop_expired now_ms (sm_registry m) of
              (reg, None) \<Rightarrow> (m\<lparr> sm_registry := reg \<rparr>, n)
            | (reg, Some stream_id) \<Rightarrow>
                (case remove_stream_state stream_id Expired_End now_ms (m\<lparr> sm_registry := reg \<rparr>) of
                   (m', True) \<Rightarrow> sweep_loop (left - 1) now_ms (sat_add n 1) m'
                 | (m', False) \<Rightarrow> sweep_loop left now_ms n m')))"
  by pat_completeness auto
termination sweep_loop
proof (relation "measures [\<lambda>(left, _). left, \<lambda>(_, _, _, m). length (reg_keys (sm_registry m)),
      \<lambda>(_, _, _, m). length (reg_ttl (sm_registry m))]", goal_cases)
  case 1
  show ?case by simp
next
  case 2
  then show ?case by simp
next
  case (3 left now_ms n m x r i m' gone)
  then have pop: "pop_expired now_ms (sm_registry m) = (x, Some i)"
    and still: "remove_stream_state i Expired_End now_ms (m\<lparr> sm_registry := x \<rparr>) = (m', False)" by simp_all
  show ?case using pop_expired_ttl_length[OF pop] pop_expired_keys[OF pop] remove_stream_state_False[OF still] by auto
qed

declare sweep_loop.simps [simp del]

definition sweep :: "u64 \<Rightarrow> u32 \<Rightarrow> u64 \<Rightarrow> stream_state_machine \<Rightarrow> stream_state_machine \<times> stream_response" where
  "sweep now_ms limit retire_through m =
     (let retire_through' = min retire_through (usage_seq m);
          (m1, expired) = sweep_loop limit now_ms 0 m;
          (m2, retired) = retire_end_records retire_through' limit m1
      in (m2, Swept expired retired))"

section \<open>The incarnation precondition\<close>

text \<open>The stream, clock and creation flag of a command that carries the precondition.\<close>

definition precondition_target :: "stream_command \<Rightarrow> (bucket_stream_id \<times> u64 \<times> bool) option" where
  "precondition_target command = (case command of
       CreateStream i _ _ _ _ _ _ now_ms \<Rightarrow> Some (i, now_ms, True)
     | CreateExternal i _ _ _ _ _ _ _ now_ms \<Rightarrow> Some (i, now_ms, True)
     | Append i _ _ _ _ _ now_ms \<Rightarrow> Some (i, now_ms, False)
     | AppendExternal i _ _ _ _ _ _ now_ms \<Rightarrow> Some (i, now_ms, False)
     | PublishSnapshot i _ _ _ now_ms _ \<Rightarrow> Some (i, now_ms, False)
     | PublishSnapshotExternal i _ _ _ _ now_ms _ \<Rightarrow> Some (i, now_ms, False)
     | AdvanceRetention i _ now_ms _ \<Rightarrow> Some (i, now_ms, False)
     | Close i _ _ now_ms \<Rightarrow> Some (i, now_ms, False)
     | DeleteStream i now_ms \<Rightarrow> Some (i, now_ms, False)
     | _ \<Rightarrow> None)"

definition incarnation_precondition ::
  "(byte list \<Rightarrow> byte list) \<Rightarrow> stream_command \<Rightarrow> u64 \<Rightarrow> stream_state_machine \<Rightarrow> stream_response option" where
  "incarnation_precondition b3 command expected m =
     (case precondition_target command of
        None \<Rightarrow> None
      | Some (stream_id, now_ms, create) \<Rightarrow>
          (let current = (case stream_metadata_of m stream_id of
                            None \<Rightarrow> None
                          | Some md \<Rightarrow> if \<not> stream_is_expired md now_ms then Some (token_of b3 m md) else None)
           in case current of
                Some token \<Rightarrow>
                  if token = expected then None
                  else Some (error_with_context IncarnationMismatch [StreamIncarnation token])
              | None \<Rightarrow>
                  if create \<and> validate_bucket_id (bsi_bucket stream_id) = None \<and> validate_stream_id stream_id = None \<and>
                     bsi_bucket stream_id \<notin> sm_erased_buckets m
                  then Some (error IncarnationMismatch)
                  else None))"

end
