(* ===== verification/Append_Stream.thy ===== *)
theory Append_Stream
  imports Lifecycle
begin

text \<open>
  Appends, inline and external, closing, and the producer gate: \<^verbatim>\<open>state_machine/append.rs\<close>, with the
  producer operations of \<^verbatim>\<open>state_machine/producers.rs\<close> on the machine and the request checks of
  \<^verbatim>\<open>state_machine.rs\<close>.
\<close>

record append_stream_input =
  ai_stream_id :: bucket_stream_id
  ai_content_type :: "string option"
  ai_payload :: "byte list"
  ai_close_after :: bool
  ai_stream_seq :: "string option"
  ai_producer :: "producer_request option"
  ai_now_ms :: u64
  ai_kind :: write_kind
  ai_check :: incarnation_check

record append_external_input =
  ax_stream_id :: bucket_stream_id
  ax_content_type :: "string option"
  ax_payload :: external_payload_ref
  ax_message_count :: u64
  ax_close_after :: bool
  ax_stream_seq :: "string option"
  ax_producer :: "producer_request option"
  ax_now_ms :: u64
  ax_check :: incarnation_check

section \<open>Request checks\<close>

text \<open>The enum numbers of \<^verbatim>\<open>ContentFaultV1\<close>.\<close>

definition producer_content_fault :: "producer_request \<Rightarrow> stream_response + content_fault option" where
  "producer_content_fault producer =
     (if pr_content_fault producer = 0 then Inr None
      else if pr_content_fault producer = 1 then Inr (Some MissingContentType_Fault)
      else if pr_content_fault producer = 2 then Inr (Some DigestMismatch_Fault)
      else if pr_content_fault producer = 3 then Inr (Some MalformedJson_Fault)
      else Inl (error InvalidProducer))"

fun content_fault_response :: "content_fault \<Rightarrow> stream_response" where
  "content_fault_response MissingContentType_Fault = error MissingContentType"
| "content_fault_response DigestMismatch_Fault = error ProducerDigestMismatch"
| "content_fault_response MalformedJson_Fault = error InvalidRecordBoundaries"

definition max_js_safe_integer :: u64 where
  "max_js_safe_integer = 9007199254740991"

definition producer_write_key :: "producer_request \<Rightarrow> stream_response + write_key" where
  "producer_write_key producer =
     (if trim (pr_producer_id producer) = [] then Inl (error InvalidProducer)
      else if pr_producer_epoch producer > max_js_safe_integer then Inl (error InvalidProducer)
      else if pr_producer_seq producer > max_js_safe_integer then Inl (error InvalidProducer)
      else (case pr_digest producer of
              None \<Rightarrow> Inr \<lparr> wk_epoch = pr_producer_epoch producer, wk_seq = pr_producer_seq producer, wk_digest = None \<rparr>
            | Some bytes \<Rightarrow>
                if length bytes \<noteq> 32 then Inl (error InvalidProducer)
                else Inr \<lparr> wk_epoch = pr_producer_epoch producer, wk_seq = pr_producer_seq producer,
                           wk_digest = Some bytes \<rparr>))"

text \<open>Sequences compare as byte strings.  \<^term>\<open>None\<close> is \<^verbatim>\<open>Ok(())\<close>.\<close>

definition check_stream_seq :: "stream_metadata \<Rightarrow> string option \<Rightarrow> stream_response option" where
  "check_stream_seq md incoming =
     (case incoming of
        None \<Rightarrow> None
      | Some new_seq \<Rightarrow>
          (case md_last_stream_seq md of
             None \<Rightarrow> None
           | Some last_seq \<Rightarrow>
               if new_seq \<le> last_seq
               then Some (error_with_next_offset_and_context StreamSeqConflict (md_tail_offset md)
                            [LastStreamSeq last_seq])
               else None))"

section \<open>Producers of a stream\<close>

definition enforce_producer_cap :: "bucket_stream_id \<Rightarrow> u64 \<Rightarrow> stream_state_machine \<Rightarrow> stream_state_machine" where
  "enforce_producer_cap stream_id now_ms m =
     modify_stream_slot stream_id (evict_producers_over_cap now_ms producer_cap_evict_budget) m"

definition expire_idle_producer ::
  "bucket_stream_id \<Rightarrow> string \<Rightarrow> u64 \<Rightarrow> stream_state_machine \<Rightarrow> stream_state_machine" where
  "expire_idle_producer stream_id producer_id now_ms m =
     modify_stream_slot stream_id (slot_expire_idle producer_id now_ms) m"

definition stream_has_tidy_debt :: "bucket_stream_id \<Rightarrow> u64 \<Rightarrow> stream_state_machine \<Rightarrow> bool" where
  "stream_has_tidy_debt stream_id now_ms m =
     (case stream_slot_of m stream_id of None \<Rightarrow> False | Some s \<Rightarrow> slot_has_tidy_debt now_ms s)"

definition tidy_candidates :: "u64 \<Rightarrow> usize \<Rightarrow> stream_state_machine \<Rightarrow> bucket_stream_id list" where
  "tidy_candidates now_ms limit m =
     (if limit = 0 then []
      else take limit (sort (filter (\<lambda>i. stream_has_tidy_debt i now_ms m)
                              (map slot_stream_id (reg_slot_values (sm_registry m))))))"

definition tidy_stream ::
  "bucket_stream_id \<Rightarrow> u64 \<Rightarrow> stream_state_machine \<Rightarrow> stream_state_machine \<times> stream_response" where
  "tidy_stream stream_id now_ms m =
     (case validate_stream_scope stream_id m of
        Some r \<Rightarrow> (m, r)
      | None \<Rightarrow>
          (case stream_slot_of m stream_id of
             None \<Rightarrow> (m, error StreamNotFound)
           | Some _ \<Rightarrow>
               (let m1 = modify_stream_slot stream_id (slot_tidy now_ms) m
                in (m1, StreamTidied (stream_has_tidy_debt stream_id now_ms m1)))))"

datatype producer_gate = Unkeyed | Apply_Gate write_key advance_kind | Repeat_Gate producer_ack

definition evaluate_write ::
  "bucket_stream_id \<Rightarrow> string \<Rightarrow> write_key \<Rightarrow> incarnation_check \<Rightarrow> u64 \<Rightarrow> stream_state_machine \<Rightarrow> evaluation option" where
  "evaluate_write stream_id producer_id key check now_ms m =
     map_option (slot_evaluate_write (history_id m) producer_id key check now_ms) (stream_slot_of m stream_id)"

fun refusal_response :: "refusal \<Rightarrow> stream_response" where
  "refusal_response (SeqGap expected_seq received_seq) =
     error_with_context ProducerSeqConflict [ProducerSeqConflict_Ctx expected_seq received_seq]"
| "refusal_response (Producer_Refusal refusal) = error_with_context (refusal_code refusal) [Producer_Ctx refusal]"

definition producer_gate_of ::
  "bucket_stream_id \<Rightarrow> producer_request option \<Rightarrow> incarnation_check \<Rightarrow> u64 \<Rightarrow> stream_state_machine \<Rightarrow>
   stream_response + producer_gate" where
  "producer_gate_of stream_id producer check now_ms m =
     (case producer of
        None \<Rightarrow> Inr Unkeyed
      | Some p \<Rightarrow>
     (case producer_write_key p of
        Inl r \<Rightarrow> Inl r
      | Inr key \<Rightarrow>
     (case evaluate_write stream_id (pr_producer_id p) key check now_ms m of
        None \<Rightarrow> Inl (error StreamNotFound)
      | Some (Claim closes op) \<Rightarrow>
          if closes = None \<and>
             (case stream_slot_of m stream_id of
                None \<Rightarrow> False | Some s \<Rightarrow> \<not> producer_cap_admits (pr_producer_id p) now_ms s)
          then Inl (error ProducerLimit)
          else Inr (Apply_Gate key (Advance_Claim closes op))
      | Some Next \<Rightarrow> Inr (Apply_Gate key Advance_Next)
      | Some (Repeat_Eval ack) \<Rightarrow> Inr (Repeat_Gate ack)
      | Some (Refuse refusal) \<Rightarrow> Inl (refusal_response refusal))))"

definition repeat_response :: "bucket_stream_id \<Rightarrow> producer_ack \<Rightarrow> bool \<Rightarrow> stream_state_machine \<Rightarrow> stream_response" where
  "repeat_response stream_id ack close_only m =
     (let receipt = (case pa_delivery ack of
                       Applied r \<Rightarrow> r
                     | Repeat r \<Rightarrow> r
                     | Evicted \<Rightarrow>
                         (case stream_metadata_of m stream_id of
                            None \<Rightarrow> \<lparr> wr_start_offset = 0, wr_next_offset = 0, wr_closed = False \<rparr>
                          | Some md \<Rightarrow> \<lparr> wr_start_offset = md_tail_offset md, wr_next_offset = md_tail_offset md,
                                         wr_closed = (md_status md = Closed_Status) \<rparr>))
      in if close_only then Closed (wr_next_offset receipt) (Some ack)
         else Appended (wr_start_offset receipt) (wr_next_offset receipt) (wr_closed receipt) (Some ack))"

text \<open>The acknowledgement is absent only where the source would panic: no stream, or row 12 without
  its record.\<close>

definition record_producer_success ::
  "bucket_stream_id \<Rightarrow> string \<Rightarrow> write_key \<Rightarrow> advance_kind \<Rightarrow> write_receipt \<Rightarrow> u64 \<Rightarrow> stream_state_machine \<Rightarrow>
   stream_state_machine \<times> producer_ack option" where
  "record_producer_success stream_id producer_id key adv receipt now_ms m =
     (let f = slot_record_success (history_id m) producer_id key adv receipt now_ms
      in (modify_stream_slot stream_id (\<lambda>s. fst (f s)) m,
          case stream_slot_of m stream_id of None \<Rightarrow> None | Some s \<Rightarrow> snd (f s)))"

section \<open>Appends\<close>

text \<open>The metadata of a stream after a write that applies.\<close>

definition written_metadata ::
  "u64 \<Rightarrow> string option \<Rightarrow> bool \<Rightarrow> u64 \<Rightarrow> stream_metadata \<Rightarrow> stream_metadata" where
  "written_metadata payload_len stream_seq close_after now_ms md =
     (let md1 = md\<lparr> md_tail_offset := sat_add (md_tail_offset md) payload_len \<rparr>;
          md2 = (case stream_seq of None \<Rightarrow> md1 | Some seq \<Rightarrow> md1\<lparr> md_last_stream_seq := Some seq \<rparr>);
          md3 = renew_stream_ttl now_ms md2
      in if close_after then md3\<lparr> md_status := Closed_Status \<rparr> else md3)"

text \<open>The common part of both appends once every check passed: the history a write inherits, the
  metadata, the time-to-live entry and the producer record.  It returns the offset, the next
  offset and the acknowledgement.\<close>

definition commit_write ::
  "bucket_stream_id \<Rightarrow> stream_metadata \<Rightarrow> u64 \<Rightarrow> string option \<Rightarrow> bool \<Rightarrow> producer_request option \<Rightarrow>
   (write_key \<times> advance_kind) option \<Rightarrow> u64 \<Rightarrow> stream_state_machine \<Rightarrow>
   stream_state_machine \<times> u64 \<times> u64 \<times> producer_ack option" where
  "commit_write stream_id md payload_len stream_seq close_after producer gate now_ms m =
     (let m1 = inherit_history stream_id m;
          m2 = modify_stream_metadata stream_id (written_metadata payload_len stream_seq close_after now_ms) m1;
          offset = md_tail_offset md;
          next_offset = sat_add offset payload_len;
          closed = (md_status (written_metadata payload_len stream_seq close_after now_ms md) = Closed_Status);
          m3 = refresh_ttl_entry stream_id m2
      in case (producer, gate) of
           (Some p, Some (key, adv)) \<Rightarrow>
             (case record_producer_success stream_id (pr_producer_id p) key adv
                     \<lparr> wr_start_offset = offset, wr_next_offset = next_offset, wr_closed = closed \<rparr> now_ms m3 of
                (m4, ack) \<Rightarrow> (m4, offset, next_offset, ack))
         | _ \<Rightarrow> (m3, offset, next_offset, None))"

text \<open>The producer's recorded content fault, read after the gate.\<close>

definition request_fault :: "producer_request option \<Rightarrow> stream_response + content_fault option" where
  "request_fault producer = (case producer of None \<Rightarrow> Inr None | Some p \<Rightarrow> producer_content_fault p)"

text \<open>The checks of an inline append on the stream it names, after the gate; \<open>Inr\<close> is the message
  count of a write that applies.\<close>

definition check_append ::
  "append_stream_input \<Rightarrow> content_fault option \<Rightarrow> stream_metadata \<Rightarrow> stream_response + u64" where
  "check_append input fault md =
     (case fault of
        Some f \<Rightarrow> Inl (content_fault_response f)
      | None \<Rightarrow>
     if ai_payload input = [] \<and> \<not> ai_close_after input then Inl (error EmptyAppend)
     else if ai_payload input \<noteq> [] \<and> ai_content_type input = None then Inl (error MissingContentType)
     else if ai_payload input \<noteq> [] \<and> ai_content_type input \<noteq> Some (md_content_type md)
     then Inl (error_with_next_offset ContentTypeMismatch (md_tail_offset md))
     else
       (case (case ai_content_type input of
                None \<Rightarrow> Some 0 | Some ct \<Rightarrow> canonical_json_message_count ct (ai_payload input)) of
          None \<Rightarrow> Inl (error InvalidRecordBoundaries)
        | Some message_count \<Rightarrow>
            (case check_stream_seq md (ai_stream_seq input) of
               Some r \<Rightarrow> Inl r
             | None \<Rightarrow> Inr message_count)))"

text \<open>What a gate leaves for a write that is not a repeat.\<close>

fun gate_key :: "producer_gate \<Rightarrow> (write_key \<times> advance_kind) option" where
  "gate_key (Apply_Gate key adv) = Some (key, adv)"
| "gate_key _ = None"

text \<open>The end of an inline append: the payload enters the hot buffer and is counted.\<close>

definition push_payload ::
  "bucket_stream_id \<Rightarrow> u64 \<Rightarrow> u64 \<Rightarrow> byte list \<Rightarrow> u64 \<Rightarrow> u64 \<Rightarrow> stream_state_machine \<Rightarrow> stream_state_machine" where
  "push_payload stream_id offset next_offset payload message_count now_ms m =
     (let payload_len = length payload;
          m1 = modify_stream_slot stream_id
                 (\<lambda>s. s\<lparr> slot_hot_buffer := push offset next_offset payload (slot_hot_buffer s) \<rparr>) m;
          m2 = sync_hot_index stream_id (add_hot_payload_bytes payload_len m1)
      in usage_on_append stream_id payload_len (appended_record_count message_count payload_len) now_ms m2)"

definition append_apply ::
  "append_stream_input \<Rightarrow> (write_key \<times> advance_kind) option \<Rightarrow> content_fault option \<Rightarrow> stream_metadata \<Rightarrow>
   stream_state_machine \<Rightarrow> stream_state_machine \<times> stream_response" where
  "append_apply input gate fault md m =
     (if md_status md = Closed_Status then
        (if ai_kind input = CloseOnly \<and> gate = None then (m, Closed (md_tail_offset md) None)
         else (m, error_with_next_offset_and_context StreamClosed (md_tail_offset md) [StreamClosed_Ctx]))
      else
        (case check_append input fault md of
           Inl r \<Rightarrow> (m, r)
         | Inr message_count \<Rightarrow>
             (case commit_write (ai_stream_id input) md (length (ai_payload input)) (ai_stream_seq input)
                     (ai_close_after input) (ai_producer input) gate (ai_now_ms input) m of
                (m1, offset, next_offset, ack) \<Rightarrow>
                  if ai_kind input = CloseOnly then (m1, Closed next_offset ack)
                  else (push_payload (ai_stream_id input) offset next_offset (ai_payload input) message_count
                          (ai_now_ms input) m1,
                        Appended offset next_offset (ai_close_after input) ack))))"

text \<open>The whole block \<^verbatim>\<open>'append\<close> of \<^verbatim>\<open>append_borrowed\<close>.\<close>

definition append_unenforced ::
  "append_stream_input \<Rightarrow> stream_state_machine \<Rightarrow> stream_state_machine \<times> stream_response" where
  "append_unenforced input m =
     (let stream_id = ai_stream_id input; now_ms = ai_now_ms input
      in case validate_stream_scope stream_id m of
           Some r \<Rightarrow> (m, r)
         | None \<Rightarrow>
         (if stream_metadata_of m stream_id = None then (m, error StreamNotFound)
          else (case expire_stream_if_due stream_id now_ms m of
             (m1, True) \<Rightarrow> (m1, error StreamNotFound)
           | (m1, False) \<Rightarrow>
               (let m2 = (case ai_producer input of
                            None \<Rightarrow> m1 | Some p \<Rightarrow> expire_idle_producer stream_id (pr_producer_id p) now_ms m1)
                in case producer_gate_of stream_id (ai_producer input) (ai_check input) now_ms m2 of
                     Inl r \<Rightarrow> (m2, r)
                   | Inr (Repeat_Gate ack) \<Rightarrow> (m2, repeat_response stream_id ack (ai_kind input = CloseOnly) m2)
                   | Inr gate \<Rightarrow>
                       (case request_fault (ai_producer input) of
                          Inl r \<Rightarrow> (m2, r)
                        | Inr fault \<Rightarrow>
                            (case stream_metadata_of m2 stream_id of
                               None \<Rightarrow> (m2, error StreamNotFound)
                             | Some md \<Rightarrow> append_apply input (gate_key gate) fault md m2))))))"

definition append_borrowed ::
  "append_stream_input \<Rightarrow> stream_state_machine \<Rightarrow> stream_state_machine \<times> stream_response" where
  "append_borrowed input m =
     (case append_unenforced input m of
        (m1, response) \<Rightarrow>
          (case ai_producer input of
             None \<Rightarrow> m1 | Some _ \<Rightarrow> enforce_producer_cap (ai_stream_id input) (ai_now_ms input) m1, response))"

definition close_stream ::
  "bucket_stream_id \<Rightarrow> string option \<Rightarrow> producer_request option \<Rightarrow> u64 \<Rightarrow> incarnation_check \<Rightarrow>
   stream_state_machine \<Rightarrow> stream_state_machine \<times> stream_response" where
  "close_stream stream_id stream_seq producer now_ms check m =
     append_borrowed
       \<lparr> ai_stream_id = stream_id, ai_content_type = None, ai_payload = [], ai_close_after = True,
         ai_stream_seq = stream_seq, ai_producer = producer, ai_now_ms = now_ms, ai_kind = CloseOnly,
         ai_check = check \<rparr> m"

section \<open>External appends\<close>

definition check_append_external ::
  "append_external_input \<Rightarrow> content_fault option \<Rightarrow> stream_metadata \<Rightarrow> stream_response option" where
  "check_append_external input fault md =
     (if md_status md = Closed_Status
      then Some (error_with_next_offset_and_context StreamClosed (md_tail_offset md) [StreamClosed_Ctx])
      else (case fault of
        Some f \<Rightarrow> Some (content_fault_response f)
      | None \<Rightarrow>
     (case ax_content_type input of
        None \<Rightarrow> Some (error MissingContentType)
      | Some ct \<Rightarrow>
          if ct \<noteq> md_content_type md then Some (error_with_next_offset ContentTypeMismatch (md_tail_offset md))
          else (case validate_message_count (md_content_type md) (ep_payload_len (ax_payload input))
                       (ax_message_count input) of
                  Some r \<Rightarrow> Some r
                | None \<Rightarrow> check_stream_seq md (ax_stream_seq input)))))"

text \<open>The end of an external append: state keeps the locator and the bytes are counted.\<close>

definition push_external ::
  "append_external_input \<Rightarrow> u64 \<Rightarrow> u64 \<Rightarrow> stream_state_machine \<Rightarrow> stream_state_machine" where
  "push_external input offset next_offset m =
     (let stream_id = ax_stream_id input;
          obj = \<lparr> op_start_offset = offset, op_end_offset = next_offset, op_s3_path = ep_s3_path (ax_payload input),
                  op_object_size = ep_object_size (ax_payload input), op_object_offset = 0 \<rparr>;
          m1 = modify_stream_slot stream_id (\<lambda>s. s\<lparr> slot_cold := push_direct_external_segment obj (slot_cold s) \<rparr>) m;
          m2 = sync_hot_index stream_id m1;
          appended_bytes = next_offset - offset
      in usage_on_append stream_id appended_bytes
           (appended_record_count (ax_message_count input) appended_bytes) (ax_now_ms input) m2)"

definition append_external_apply ::
  "append_external_input \<Rightarrow> (write_key \<times> advance_kind) option \<Rightarrow> content_fault option \<Rightarrow> stream_metadata \<Rightarrow>
   stream_state_machine \<Rightarrow> stream_state_machine \<times> stream_response" where
  "append_external_apply input gate fault md m =
     (case check_append_external input fault md of
        Some r \<Rightarrow> (m, r)
      | None \<Rightarrow>
          (case commit_write (ax_stream_id input) md (ep_payload_len (ax_payload input)) (ax_stream_seq input)
                  (ax_close_after input) (ax_producer input) gate (ax_now_ms input) m of
             (m1, offset, next_offset, ack) \<Rightarrow>
               (push_external input offset next_offset m1, Appended offset next_offset (ax_close_after input) ack)))"

definition append_external_unenforced ::
  "append_external_input \<Rightarrow> stream_state_machine \<Rightarrow> stream_state_machine \<times> stream_response" where
  "append_external_unenforced input m =
     (let stream_id = ax_stream_id input; now_ms = ax_now_ms input
      in case validate_external_payload_ref (ax_payload input) of
           Some r \<Rightarrow> (m, r)
         | None \<Rightarrow>
         (case validate_stream_scope stream_id m of
           Some r \<Rightarrow> (m, r)
         | None \<Rightarrow>
         (if stream_metadata_of m stream_id = None then (m, error StreamNotFound)
          else (case expire_stream_if_due stream_id now_ms m of
             (m1, True) \<Rightarrow> (m1, error StreamNotFound)
           | (m1, False) \<Rightarrow>
               (let m2 = (case ax_producer input of
                            None \<Rightarrow> m1 | Some p \<Rightarrow> expire_idle_producer stream_id (pr_producer_id p) now_ms m1)
                in case producer_gate_of stream_id (ax_producer input) (ax_check input) now_ms m2 of
                     Inl r \<Rightarrow> (m2, r)
                   | Inr (Repeat_Gate ack) \<Rightarrow> (m2, repeat_response stream_id ack False m2)
                   | Inr gate \<Rightarrow>
                       (case request_fault (ax_producer input) of
                          Inl r \<Rightarrow> (m2, r)
                        | Inr fault \<Rightarrow>
                            (case stream_metadata_of m2 stream_id of
                               None \<Rightarrow> (m2, error StreamNotFound)
                             | Some md \<Rightarrow> append_external_apply input (gate_key gate) fault md m2)))))))"

definition append_external ::
  "append_external_input \<Rightarrow> stream_state_machine \<Rightarrow> stream_state_machine \<times> stream_response" where
  "append_external input m =
     (case append_external_unenforced input m of
        (m1, response) \<Rightarrow>
          (case ax_producer input of
             None \<Rightarrow> m1 | Some _ \<Rightarrow> enforce_producer_cap (ax_stream_id input) (ax_now_ms input) m1, response))"

section \<open>Read-only answers\<close>

definition stream_is_live :: "stream_state_machine \<Rightarrow> bucket_stream_id \<Rightarrow> u64 \<Rightarrow> bool" where
  "stream_is_live m stream_id now_ms =
     (case stream_metadata_of m stream_id of None \<Rightarrow> False | Some md \<Rightarrow> \<not> stream_is_expired md now_ms)"

definition append_would_deduplicate ::
  "bucket_stream_id \<Rightarrow> producer_request option \<Rightarrow> incarnation_check \<Rightarrow> u64 \<Rightarrow> stream_state_machine \<Rightarrow> bool" where
  "append_would_deduplicate stream_id producer check now_ms m \<longleftrightarrow>
     stream_is_live m stream_id now_ms \<and> validate_stream_scope stream_id m = None \<and>
     (case producer_gate_of stream_id producer check now_ms m of Inr (Repeat_Gate _) \<Rightarrow> True | _ \<Rightarrow> False)"

definition producer_early_answer_of ::
  "(byte list \<Rightarrow> byte list) \<Rightarrow> bucket_stream_id \<Rightarrow> producer_request \<Rightarrow> u64 \<Rightarrow> u64 \<Rightarrow> stream_state_machine \<Rightarrow>
   producer_early_answer option" where
  "producer_early_answer_of b3 stream_id producer incarnation now_ms m =
     (if \<not> stream_is_live m stream_id now_ms \<or> validate_stream_scope stream_id m \<noteq> None \<or>
         stream_incarnation b3 m stream_id \<noteq> Some incarnation
      then None
      else (case producer_write_key producer of
              Inl _ \<Rightarrow> None
            | Inr key \<Rightarrow>
                (case evaluate_write stream_id (pr_producer_id producer) key Matched now_ms m of
                   Some (Repeat_Eval ack) \<Rightarrow> Some (Repeat_Early ack)
                 | Some (Refuse (Producer_Refusal (KeyConflict epoch))) \<Rightarrow> Some (KeyConflict_Early epoch)
                 | _ \<Rightarrow> None)))"

end
