(* ===== verification/Cold_Commands.thy ===== *)
theory Cold_Commands
  imports Append_Stream
begin

text \<open>
  The cold tier of a group: flush planning, snapshot publication, retention, cold flush and
  compaction, the garbage-collection queue (\<^verbatim>\<open>state_machine/cold.rs\<close>), references to shared packs
  (\<^verbatim>\<open>state_machine/cold_refs.rs\<close>) and staged external payloads (\<^verbatim>\<open>state_machine/external_locators.rs\<close>).
\<close>

definition retention_cold_gc_grace_ms :: u64 where
  "retention_cold_gc_grace_ms = 300000"

datatype snapshot_body = Inline_Body "byte list" | Object_Body external_payload_ref string

text \<open>\<^verbatim>\<open>SnapshotDigest\<close>: BLAKE3 over the content type's length, the content type and the body.\<close>

definition snapshot_digest :: "(byte list \<Rightarrow> byte list) \<Rightarrow> string \<Rightarrow> byte list \<Rightarrow> string" where
  "snapshot_digest b3 content_type payload =
     to_hex (b3 (le_bytes 8 (length content_type) @ string_bytes content_type @ payload))"

definition machine_hot_start_offset :: "stream_state_machine \<Rightarrow> bucket_stream_id \<Rightarrow> u64" where
  "machine_hot_start_offset m stream_id =
     (case stream_slot_of m stream_id of
        None \<Rightarrow> 0
      | Some s \<Rightarrow> (case first_start_offset (slot_hot_buffer s) of
                     None \<Rightarrow> md_tail_offset (slot_metadata s) | Some off \<Rightarrow> off))"

definition plan_cold_flush_with_start ::
  "(byte list \<Rightarrow> byte list) \<Rightarrow> bucket_stream_id \<Rightarrow> u64 \<Rightarrow> usize \<Rightarrow> usize \<Rightarrow> stream_state_machine \<Rightarrow>
   stream_response + cold_flush_candidate option" where
  "plan_cold_flush_with_start b3 stream_id start_offset min_hot_bytes max_flush_bytes m =
     (if max_flush_bytes = 0 then Inr None
      else (case stream_slot_of m stream_id of
              None \<Rightarrow> Inl (error StreamNotFound)
            | Some s \<Rightarrow>
                (case plan_cold_flush_from start_offset min_hot_bytes max_flush_bytes (slot_hot_buffer s) of
                   None \<Rightarrow> Inr None
                 | Some (start, end, payload) \<Rightarrow>
                     Inr (Some \<lparr> cf_stream_id = stream_id, cf_cold_generation = cold_generation (slot_cold s),
                                 cf_start_offset = start, cf_end_offset = end, cf_payload = payload,
                                 cf_payload_digest = to_hex (b3 payload) \<rparr>))))"

definition plan_cold_flush ::
  "(byte list \<Rightarrow> byte list) \<Rightarrow> bucket_stream_id \<Rightarrow> usize \<Rightarrow> usize \<Rightarrow> stream_state_machine \<Rightarrow>
   stream_response + cold_flush_candidate option" where
  "plan_cold_flush b3 stream_id min_hot_bytes max_flush_bytes m =
     plan_cold_flush_with_start b3 stream_id (machine_hot_start_offset m stream_id) min_hot_bytes max_flush_bytes m"

definition earliest_retained_offset :: "stream_state_machine \<Rightarrow> bucket_stream_id \<Rightarrow> u64" where
  "earliest_retained_offset m stream_id =
     (case stream_slot_of m stream_id of None \<Rightarrow> 0 | Some s \<Rightarrow> slot_retained_offset s)"

text \<open>\<^term>\<open>None\<close> is \<^verbatim>\<open>Ok(())\<close> in the checks below.\<close>

definition check_json_boundary ::
  "(byte list \<Rightarrow> byte list) \<Rightarrow> bucket_stream_id \<Rightarrow> u64 \<Rightarrow> u64 \<Rightarrow> u64 option \<Rightarrow> stream_state_machine \<Rightarrow>
   stream_response option" where
  "check_json_boundary b3 stream_id offset floor expected_incarnation m =
     (case stream_slot_of m stream_id of
        None \<Rightarrow> None
      | Some s \<Rightarrow>
          (let md = slot_metadata s
           in if \<not> is_json_record_content_type (md_content_type md) \<or> offset = floor \<or> offset = md_tail_offset md
              then None
              else if offset = 0 then None
              else (case byte_at (offset - 1) (slot_hot_buffer s) of
                      Some b \<Rightarrow>
                        if b = json_lf then None
                        else Some (error_with_next_offset InvalidSnapshot (md_tail_offset md))
                    | None \<Rightarrow>
                        if expected_incarnation = Some (token_of b3 m md) then None
                        else Some (error_with_next_offset_and_context JsonBoundaryUnverified (md_tail_offset md)
                                     [StreamIncarnation (token_of b3 m md)]))))"

section \<open>Snapshots and retention\<close>

definition body_parts ::
  "(byte list \<Rightarrow> byte list) \<Rightarrow> string \<Rightarrow> snapshot_body \<Rightarrow> byte list \<times> external_payload_ref option \<times> string" where
  "body_parts b3 content_type body =
     (case body of
        Inline_Body payload \<Rightarrow> (payload, None, snapshot_digest b3 content_type payload)
      | Object_Body obj digest \<Rightarrow> ([], Some obj, digest))"

definition enqueue_path :: "bucket_stream_id \<Rightarrow> string \<Rightarrow> u64 \<Rightarrow> stream_state_machine \<Rightarrow> stream_state_machine" where
  "enqueue_path stream_id path not_before_ms m =
     m\<lparr> sm_cold_gc := enqueue_after (bsi_bucket stream_id) (Paths [path]) not_before_ms (sm_cold_gc m) \<rparr>"

text \<open>A publish at an offset that already has a snapshot, or below it: the repeat or the refusal.\<close>

definition publish_over ::
  "stream_visible_snapshot \<Rightarrow> bucket_stream_id \<Rightarrow> u64 \<Rightarrow> external_payload_ref option \<Rightarrow> string \<Rightarrow> u64 \<Rightarrow> u64 \<Rightarrow>
   stream_state_machine \<Rightarrow> (stream_state_machine \<times> stream_response) option" where
  "publish_over current stream_id snapshot_offset obj digest tail_offset now_ms m =
     (let latest = [LatestSnapshot (vs_offset current) (vs_digest current)]
      in if snapshot_offset < vs_offset current
         then Some (m, error_with_next_offset_and_context SnapshotConflict tail_offset latest)
         else if snapshot_offset = vs_offset current then
           (if vs_digest current = digest then
              (let m1 = (case obj of
                           None \<Rightarrow> m
                         | Some staged \<Rightarrow>
                             if map_option ep_s3_path (vs_object current) \<noteq> Some (ep_s3_path staged)
                             then enqueue_path stream_id (ep_s3_path staged) (sat_add now_ms retention_cold_gc_grace_ms) m
                             else m)
               in Some (m1, SnapshotPublished snapshot_offset digest))
            else Some (m, error_with_next_offset_and_context SnapshotConflict tail_offset latest))
         else None)"

definition publish_apply ::
  "bucket_stream_id \<Rightarrow> stream_slot \<Rightarrow> stream_visible_snapshot \<Rightarrow> u64 \<Rightarrow> stream_state_machine \<Rightarrow> stream_state_machine" where
  "publish_apply stream_id s snapshot now_ms m =
     (let m1 = modify_stream_slot stream_id (\<lambda>s. s\<lparr> slot_visible_snapshot := Some snapshot \<rparr>) m;
          m2 = usage_on_size_change stream_id m1
      in case Option.bind (slot_visible_snapshot s) vs_object of
           None \<Rightarrow> m2
         | Some superseded \<Rightarrow>
             enqueue_path stream_id (ep_s3_path superseded) (sat_add now_ms retention_cold_gc_grace_ms) m2)"

definition publish_snapshot ::
  "(byte list \<Rightarrow> byte list) \<Rightarrow> bucket_stream_id \<Rightarrow> u64 \<Rightarrow> string \<Rightarrow> snapshot_body \<Rightarrow> u64 \<Rightarrow> u64 option \<Rightarrow>
   stream_state_machine \<Rightarrow> stream_state_machine \<times> stream_response" where
  "publish_snapshot b3 stream_id snapshot_offset content_type body now_ms expected_incarnation m =
     (case validate_stream_scope stream_id m of
        Some r \<Rightarrow> (m, r)
      | None \<Rightarrow>
     if trim content_type = [] then (m, error InvalidSnapshot)
     else (case stream_slot_of m stream_id of
        None \<Rightarrow> (m, error StreamNotFound)
      | Some s \<Rightarrow>
     if stream_is_expired (slot_metadata s) now_ms
     then (fst (remove_stream_state stream_id Expired_End now_ms m), error StreamNotFound)
     else
       (let tail_offset = md_tail_offset (slot_metadata s);
            retained_offset = earliest_retained_offset m stream_id
        in if snapshot_offset < retained_offset then (m, error_with_next_offset StreamGone retained_offset)
           else if snapshot_offset > tail_offset then (m, error_with_next_offset SnapshotConflict tail_offset)
           else
             (case body_parts b3 content_type body of
                (payload, obj, digest) \<Rightarrow>
                  (case Option.bind (slot_visible_snapshot s)
                          (\<lambda>current. publish_over current stream_id snapshot_offset obj digest tail_offset now_ms m) of
                     Some result \<Rightarrow> result
                   | None \<Rightarrow>
                       (case check_json_boundary b3 stream_id snapshot_offset retained_offset expected_incarnation m of
                          Some r \<Rightarrow> (m, r)
                        | None \<Rightarrow>
                            (publish_apply stream_id s
                               \<lparr> vs_offset = snapshot_offset, vs_content_type = content_type, vs_payload = payload,
                                 vs_digest = digest, vs_object = obj \<rparr> now_ms m,
                             SnapshotPublished snapshot_offset digest)))))))"

text \<open>Drops the hot prefix through \<open>f\<close> and the gauge and index with it.\<close>

definition shrink_hot ::
  "bucket_stream_id \<Rightarrow> (hot_buffer \<Rightarrow> hot_buffer) \<Rightarrow> stream_state_machine \<Rightarrow> stream_state_machine" where
  "shrink_hot stream_id f m =
     (case stream_slot_of m stream_id of
        None \<Rightarrow> m
      | Some s \<Rightarrow>
          (let before = hot_len (slot_hot_buffer s); after = hot_len (f (slot_hot_buffer s))
           in remove_hot_payload_bytes (before - after)
                (modify_stream_slot stream_id (\<lambda>s. s\<lparr> slot_hot_buffer := f (slot_hot_buffer s) \<rparr>) m)))"

definition compact_retained_prefix ::
  "bucket_stream_id \<Rightarrow> u64 \<Rightarrow> u64 \<Rightarrow> stream_state_machine \<Rightarrow> stream_state_machine" where
  "compact_retained_prefix stream_id retained_offset not_before_ms m =
     (case stream_slot_of m stream_id of
        None \<Rightarrow> m
      | Some s \<Rightarrow>
          (let dropped = snd (compact_before retained_offset (slot_cold s));
               m1 = modify_stream_slot stream_id
                      (\<lambda>s. s\<lparr> slot_cold := fst (compact_before retained_offset (slot_cold s)) \<rparr>) m;
               m2 = release_shared_cold_objects (bsi_bucket stream_id) (cp_shared_paths dropped) not_before_ms m1;
               m3 = (if cp_external_paths dropped \<noteq> []
                     then m2\<lparr> sm_cold_gc := enqueue_after (bsi_bucket stream_id) (Paths (cp_external_paths dropped))
                                              not_before_ms (sm_cold_gc m2) \<rparr>
                     else m2)
           in sync_hot_index stream_id (shrink_hot stream_id (discard_before retained_offset) m3)))"

definition advance_retention ::
  "(byte list \<Rightarrow> byte list) \<Rightarrow> bucket_stream_id \<Rightarrow> u64 \<Rightarrow> u64 \<Rightarrow> u64 option \<Rightarrow>
   stream_state_machine \<Rightarrow> stream_state_machine \<times> stream_response" where
  "advance_retention b3 stream_id retained_offset now_ms expected_incarnation m =
     (case validate_stream_scope stream_id m of
        Some r \<Rightarrow> (m, r)
      | None \<Rightarrow>
     (case stream_slot_of m stream_id of
        None \<Rightarrow> (m, error StreamNotFound)
      | Some s \<Rightarrow>
     if stream_is_expired (slot_metadata s) now_ms
     then (fst (remove_stream_state stream_id Expired_End now_ms m), error StreamNotFound)
     else
       (let current = earliest_retained_offset m stream_id; tail_offset = md_tail_offset (slot_metadata s)
        in if retained_offset \<le> current then (m, RetentionAdvanced current)
           else (case slot_visible_snapshot s of
                   None \<Rightarrow> (m, error_with_next_offset SnapshotConflict tail_offset)
                 | Some snapshot \<Rightarrow>
                     if retained_offset > vs_offset snapshot
                     then (m, error_with_next_offset SnapshotConflict tail_offset)
                     else (case check_json_boundary b3 stream_id retained_offset current expected_incarnation m of
                             Some r \<Rightarrow> (m, r)
                           | None \<Rightarrow>
                               (let m1 = modify_stream_slot stream_id (\<lambda>s. s\<lparr> slot_retained_offset := retained_offset \<rparr>) m;
                                    m2 = usage_on_size_change stream_id m1
                                in (compact_retained_prefix stream_id retained_offset
                                      (sat_add now_ms retention_cold_gc_grace_ms) m2,
                                    RetentionAdvanced retained_offset)))))))"

section \<open>Cold flush and compaction\<close>

text \<open>\<^verbatim>\<open>strip_prefix(bucket)\<close> followed by \<^verbatim>\<open>starts_with('/')\<close>.\<close>

definition under_bucket :: "string \<Rightarrow> string \<Rightarrow> bool" where
  "under_bucket bucket_id path \<longleftrightarrow> prefix (bucket_id @ ''/'') path"

text \<open>The checks of a chunk against the slot it names.\<close>

definition check_chunk :: "(byte list \<Rightarrow> byte list) \<Rightarrow> cold_chunk_ref \<Rightarrow> stream_slot \<Rightarrow> stream_response option" where
  "check_chunk b3 chunk s =
     (let tail_offset = md_tail_offset (slot_metadata s);
          hot = slot_hot_buffer s;
          logical_size = cc_end_offset chunk - cc_start_offset chunk;
          stale = Some (error_with_next_offset_and_context InvalidColdFlush tail_offset [StaleColdFlushCandidate]);
          invalid = Some (error_with_next_offset InvalidColdFlush tail_offset)
      in if cc_end_offset chunk \<le> cc_start_offset chunk then invalid
         else if (case checked_add (cc_object_offset chunk) logical_size of
                    None \<Rightarrow> True | Some e \<Rightarrow> e > cc_object_size chunk) then invalid
         else if \<not> cc_shared_object chunk \<and> cc_object_offset chunk \<noteq> 0 then invalid
         else if cc_end_offset chunk > tail_offset then stale
         else if hot_start_offset hot \<noteq> cc_start_offset chunk then stale
         else if \<not> covers_prefix (cc_start_offset chunk) (cc_end_offset chunk) hot then stale
         else if cc_payload_digest chunk \<noteq> [] \<and>
                 digest_prefix b3 (cc_start_offset chunk) (cc_end_offset chunk) hot \<noteq> Some (cc_payload_digest chunk)
         then stale
         else None)"

definition check_cold_flush ::
  "(byte list \<Rightarrow> byte list) \<Rightarrow> bucket_stream_id \<Rightarrow> cold_chunk_ref \<Rightarrow> stream_state_machine \<Rightarrow> stream_response option" where
  "check_cold_flush b3 stream_id chunk m =
     (case validate_stream_scope stream_id m of
        Some r \<Rightarrow> Some r
      | None \<Rightarrow>
     if trim (cc_s3_path chunk) = [] then Some (error InvalidColdFlush)
     else if cc_shared_object chunk \<and> \<not> under_bucket (bsi_bucket stream_id) (cc_s3_path chunk)
     then Some (error InvalidColdFlush)
     else if cc_object_size chunk = 0 then Some (error InvalidColdFlush)
     else (case stream_slot_of m stream_id of
             None \<Rightarrow> Some (error StreamNotFound)
           | Some s \<Rightarrow> check_chunk b3 chunk s))"

definition check_cold_flush_generation ::
  "bucket_stream_id \<Rightarrow> u64 \<Rightarrow> stream_state_machine \<Rightarrow> stream_response option" where
  "check_cold_flush_generation stream_id planned m =
     (case stream_slot_of m stream_id of
        None \<Rightarrow> Some (error StreamNotFound)
      | Some s \<Rightarrow>
          if cold_generation (slot_cold s) = planned then None
          else Some (error_with_next_offset_and_context InvalidColdFlush (md_tail_offset (slot_metadata s))
                       [StaleColdFlushCandidate]))"

definition flush_cold ::
  "(byte list \<Rightarrow> byte list) \<Rightarrow> bucket_stream_id \<Rightarrow> cold_chunk_ref \<Rightarrow> u64 \<Rightarrow>
   stream_state_machine \<Rightarrow> stream_state_machine \<times> stream_response" where
  "flush_cold b3 stream_id chunk planned_generation m =
     (case check_cold_flush b3 stream_id chunk m of
        Some r \<Rightarrow> (m, r)
      | None \<Rightarrow>
     (case check_cold_flush_generation stream_id planned_generation m of
        Some r \<Rightarrow> (m, r)
      | None \<Rightarrow>
          (let m1 = shrink_hot stream_id (flush_prefix (cc_end_offset chunk)) m;
               m2 = modify_stream_slot stream_id (\<lambda>s. s\<lparr> slot_cold := push_cold_chunk chunk (slot_cold s) \<rparr>) m1;
               m3 = sync_hot_index stream_id m2;
               m4 = (if cc_shared_object chunk then retain_shared_cold_object (cc_s3_path chunk) m3 else m3)
           in (m4, ColdFlushed (machine_hot_start_offset m4 stream_id)))))"

text \<open>The loop over the inputs of a compaction: the end of the run and its bytes, or \<^term>\<open>None\<close> when
  they are not contiguous raw chunks.\<close>

fun compaction_run :: "u64 \<Rightarrow> u64 \<Rightarrow> cold_chunk_ref list \<Rightarrow> (u64 \<times> u64) option" where
  "compaction_run expected_start compacted_bytes [] = Some (expected_start, compacted_bytes)"
| "compaction_run expected_start compacted_bytes (chunk # rest) =
     (let logical_bytes = cc_end_offset chunk - cc_start_offset chunk
      in if cc_start_offset chunk \<noteq> expected_start \<or> cc_end_offset chunk \<le> cc_start_offset chunk \<or>
            (\<not> cc_shared_object chunk \<and> cc_object_size chunk \<noteq> logical_bytes)
         then None
         else compaction_run (cc_end_offset chunk) (sat_add compacted_bytes logical_bytes) rest)"

definition check_compaction ::
  "cold_chunk_ref list \<Rightarrow> cold_chunk_ref \<Rightarrow> u64 option" where
  "check_compaction old_chunks replacement =
     (if old_chunks = [] \<or> (length old_chunks < 2 \<and> list_all (\<lambda>c. \<not> cc_shared_object c) old_chunks) then None
      else if trim (cc_s3_path replacement) = [] \<or> cc_object_size replacement = 0 then None
      else if list_ex cc_shared_object old_chunks \<noteq> list_all cc_shared_object old_chunks \<or>
              cc_shared_object replacement \<or> cc_object_offset replacement \<noteq> 0 then None
      else (case compaction_run (cc_start_offset (hd old_chunks)) 0 old_chunks of
              None \<Rightarrow> None
            | Some (run_end, compacted_bytes) \<Rightarrow>
                if cc_start_offset replacement \<noteq> cc_start_offset (hd old_chunks) \<or>
                   cc_end_offset replacement \<noteq> run_end \<or> cc_object_size replacement \<noteq> compacted_bytes
                then None else Some compacted_bytes))"

definition compact_cold ::
  "bucket_stream_id \<Rightarrow> cold_chunk_ref list \<Rightarrow> cold_chunk_ref \<Rightarrow> u64 \<Rightarrow>
   stream_state_machine \<Rightarrow> stream_state_machine \<times> stream_response" where
  "compact_cold stream_id old_chunks replacement not_before_ms m =
     (case validate_stream_scope stream_id m of
        Some r \<Rightarrow> (m, r)
      | None \<Rightarrow>
     (case stream_slot_of m stream_id of
        None \<Rightarrow> (m, error StreamNotFound)
      | Some s \<Rightarrow>
     (case check_compaction old_chunks replacement of
        None \<Rightarrow> (m, error InvalidColdFlush)
      | Some compacted_bytes \<Rightarrow>
          (let rewriting_shared = list_all cc_shared_object old_chunks;
               m1 = (if rewriting_shared
                     then modify_stream_slot stream_id
                            (\<lambda>s. s\<lparr> slot_cold := fst (remove_shared_chunks old_chunks (slot_cold s)) \<rparr>) m
                     else m)
           in if rewriting_shared \<and> \<not> snd (remove_shared_chunks old_chunks (slot_cold s))
              then (m1, error InvalidColdFlush)
              else
                (let exclusive_paths = map cc_s3_path (filter (\<lambda>c. \<not> cc_shared_object c) old_chunks);
                     shared_paths = map cc_s3_path (filter cc_shared_object old_chunks);
                     m2 = (if exclusive_paths \<noteq> []
                           then m1\<lparr> sm_cold_gc := enqueue_after (bsi_bucket stream_id) (Paths exclusive_paths)
                                                    not_before_ms (sm_cold_gc m1) \<rparr>
                           else m1)
                 in (release_shared_cold_objects (bsi_bucket stream_id) shared_paths not_before_ms m2,
                     ColdCompacted (length old_chunks) compacted_bytes))))))"

section \<open>The garbage-collection queue of the group\<close>

definition ack_cold_gc :: "u64 \<Rightarrow> stream_state_machine \<Rightarrow> stream_state_machine \<times> stream_response" where
  "ack_cold_gc up_to_seq m =
     (case gc_ack up_to_seq (sm_cold_gc m) of (q, removed) \<Rightarrow> (m\<lparr> sm_cold_gc := q \<rparr>, ColdGcAcked removed))"

definition defer_cold_gc :: "u64 \<Rightarrow> u64 \<Rightarrow> stream_state_machine \<Rightarrow> stream_state_machine \<times> stream_response" where
  "defer_cold_gc seq not_before_ms m =
     (case gc_defer seq not_before_ms (sm_cold_gc m) of (q, new_seq) \<Rightarrow> (m\<lparr> sm_cold_gc := q \<rparr>, ColdGcDeferred new_seq))"

definition cold_index_generation :: "stream_state_machine \<Rightarrow> bucket_stream_id \<Rightarrow> u64 option" where
  "cold_index_generation m stream_id = map_option (\<lambda>s. cold_generation (slot_cold s)) (stream_slot_of m stream_id)"

definition plan_cold_gc_batch :: "usize \<Rightarrow> stream_state_machine \<Rightarrow> cold_gc_plan_entry list" where
  "plan_cold_gc_batch max_entries m =
     map (\<lambda>e. \<lparr> gp_entry = e,
                gp_live_cold_generation = (case gc_target e of
                   Stream_Target i \<Rightarrow> cold_index_generation m i | Paths _ \<Rightarrow> None) \<rparr>)
       (gc_batch max_entries (sm_cold_gc m))"

section \<open>Staged external payloads and shared packs\<close>

definition offload_cold_refs ::
  "bucket_stream_id \<Rightarrow> object_payload_ref list \<Rightarrow> stream_state_machine \<Rightarrow> stream_state_machine \<times> stream_response" where
  "offload_cold_refs stream_id refs m =
     (case stream_slot_of m stream_id of
        None \<Rightarrow> (m, error StreamNotFound)
      | Some s \<Rightarrow>
          (case remove_external_segments refs (slot_cold s) of
             (cold, removed) \<Rightarrow>
               (modify_stream_slot stream_id (\<lambda>s. s\<lparr> slot_cold := fst (remove_external_segments refs (slot_cold s)) \<rparr>) m,
                ColdRefsOffloaded removed (len_u64 (length (external_segments cold))))))"

record staged_external_ref_candidate =
  sc_stream_id :: bucket_stream_id
  sc_cold_generation :: u64
  sc_refs :: "object_payload_ref list"

definition staged_candidate ::
  "usize \<Rightarrow> (object_payload_ref \<Rightarrow> bool) \<Rightarrow> stream_slot \<Rightarrow> staged_external_ref_candidate option" where
  "staged_candidate max_staged is_due s =
     (let refs = external_segments (slot_cold s)
      in if refs = [] \<or> (length refs \<le> max_staged \<and> \<not> list_ex is_due refs) then None
         else Some \<lparr> sc_stream_id = slot_stream_id s, sc_cold_generation = cold_generation (slot_cold s),
                     sc_refs = sort_key (\<lambda>obj. (op_start_offset obj, op_end_offset obj)) refs \<rparr>)"

text \<open>Most refs first, then by stream id: the two stable sorts of the comparator's keys.\<close>

definition staged_external_ref_candidates ::
  "usize \<Rightarrow> (object_payload_ref \<Rightarrow> bool) \<Rightarrow> usize \<Rightarrow> stream_state_machine \<Rightarrow> staged_external_ref_candidate list" where
  "staged_external_ref_candidates max_staged is_due limit m =
     take limit
       (rev (sort_key (\<lambda>c. length (sc_refs c))
         (rev (sort_key sc_stream_id (List.map_filter (staged_candidate max_staged is_due) (reg_slot_values (sm_registry m)))))))"

fun shared_run :: "u64 \<Rightarrow> u64 \<Rightarrow> cold_chunk_ref list \<Rightarrow> cold_chunk_ref list \<Rightarrow> cold_chunk_ref list" where
  "shared_run max_bytes bytes run [] = run"
| "shared_run max_bytes bytes run (chunk # rest) =
     (let len = cc_end_offset chunk - cc_start_offset chunk
      in if run \<noteq> [] \<and> (cc_start_offset chunk \<noteq> cc_end_offset (last run) \<or> sat_add bytes len > max_bytes)
         then run
         else shared_run max_bytes (sat_add bytes len) (run @ [chunk]) rest)"

definition plan_shared_ref_run :: "cold_chunk_ref list \<Rightarrow> u64 \<Rightarrow> cold_chunk_ref list" where
  "plan_shared_ref_run refs max_bytes =
     shared_run max_bytes 0 []
       (sort_key (\<lambda>c. (cc_start_offset c, cc_end_offset c))
         (filter (\<lambda>c. cc_shared_object c \<and> cc_end_offset c > cc_start_offset c) refs))"

text \<open>The idle tracker of the leader: per stream, its last tail and when it moved there.\<close>

type_synonym shared_ref_idle_tracker = "(bucket_stream_id, u64 \<times> u64) hashmap"

definition observe ::
  "bucket_stream_id \<Rightarrow> u64 \<Rightarrow> u64 \<Rightarrow> shared_ref_idle_tracker \<Rightarrow> shared_ref_idle_tracker \<times> u64" where
  "observe stream_id tail_offset now_ms tails =
     (let entry = (case map_of tails stream_id of None \<Rightarrow> (tail_offset, now_ms) | Some e \<Rightarrow> e);
          entry' = (if fst entry \<noteq> tail_offset then (tail_offset, now_ms) else entry)
      in (AList.update stream_id entry' tails, now_ms - snd entry'))"

record shared_ref_compaction_request =
  rq_min_refs :: usize
  rq_idle_ms :: u64
  rq_now_ms :: u64
  rq_max_run_bytes :: u64
  rq_limit :: usize

record shared_ref_candidate =
  sr_stream_id :: bucket_stream_id
  sr_cold_generation :: u64
  sr_shared_refs :: usize
  sr_min_pack_live_slices :: u64
  sr_run :: "cold_chunk_ref list"

definition run_bytes :: "shared_ref_candidate \<Rightarrow> u64" where
  "run_bytes c = foldl (\<lambda>sum chunk. sat_add sum (cc_end_offset chunk - cc_start_offset chunk)) 0 (sr_run c)"

definition shared_ref_count :: "stream_slot \<Rightarrow> usize" where
  "shared_ref_count s = length (filter cc_shared_object (cold_chunks (slot_cold s)))"

text \<open>One turn of the discovery loop, once the tail of the slot has been observed idle for \<^term>\<open>idle_for\<close>.\<close>

definition shared_ref_candidate_of ::
  "stream_state_machine \<Rightarrow> shared_ref_compaction_request \<Rightarrow> u64 \<Rightarrow> stream_slot \<Rightarrow> shared_ref_candidate option" where
  "shared_ref_candidate_of m req idle_for s =
     (let run = plan_shared_ref_run (cold_chunks (slot_cold s)) (rq_max_run_bytes req);
          live = List.map_filter (\<lambda>c. map_of (sm_shared_refs m) (cc_s3_path c)) run
      in if shared_ref_count s < max (rq_min_refs req) 1 \<and> idle_for < rq_idle_ms req then None
         else if run = [] then None
         else Some \<lparr> sr_stream_id = slot_stream_id s, sr_cold_generation = cold_generation (slot_cold s),
                     sr_shared_refs = shared_ref_count s,
                     sr_min_pack_live_slices = (if live = [] then 0 else Min (set live)), sr_run = run \<rparr>)"

fun shared_ref_pass ::
  "stream_state_machine \<Rightarrow> shared_ref_compaction_request \<Rightarrow> stream_slot list \<Rightarrow> shared_ref_idle_tracker \<Rightarrow>
   shared_ref_idle_tracker \<times> bucket_stream_id set \<times> shared_ref_candidate list" where
  "shared_ref_pass m req [] tails = (tails, {}, [])"
| "shared_ref_pass m req (s # slots) tails =
     (if shared_ref_count s = 0 then shared_ref_pass m req slots tails
      else (case observe (slot_stream_id s) (md_tail_offset (slot_metadata s)) (rq_now_ms req) tails of
              (tails1, idle_for) \<Rightarrow>
                (case shared_ref_pass m req slots tails1 of
                   (tails2, seen, candidates) \<Rightarrow>
                     (tails2, insert (slot_stream_id s) seen,
                      (case shared_ref_candidate_of m req idle_for s of
                         None \<Rightarrow> candidates | Some c \<Rightarrow> c # candidates)))))"

definition shared_ref_candidates ::
  "shared_ref_compaction_request \<Rightarrow> shared_ref_idle_tracker \<Rightarrow> stream_state_machine \<Rightarrow>
   shared_ref_idle_tracker \<times> shared_ref_candidate list" where
  "shared_ref_candidates req tails m =
     (case shared_ref_pass m req (reg_slot_values (sm_registry m)) tails of
        (tails1, seen, candidates) \<Rightarrow>
          (filter (\<lambda>(i, _). i \<in> seen) tails1,
           take (rq_limit req) (sort_key sr_min_pack_live_slices (sort_key sr_stream_id candidates))))"

definition bucket_ids :: "stream_state_machine \<Rightarrow> string list" where
  "bucket_ids m = sorted_list_of_set (sm_buckets m)"

definition group_referenced_cold_paths :: "stream_state_machine \<Rightarrow> string set" where
  "group_referenced_cold_paths m =
     keys_of (sm_shared_refs m) \<union>
     \<Union> (set (map (\<lambda>e. case gc_target e of Paths ps \<Rightarrow> set ps | Stream_Target _ \<Rightarrow> {}) (gq_pending (sm_cold_gc m))))"

definition stream_referenced_cold_paths :: "stream_state_machine \<Rightarrow> bucket_stream_id \<Rightarrow> string list" where
  "stream_referenced_cold_paths m stream_id =
     (case stream_slot_of m stream_id of
        None \<Rightarrow> []
      | Some s \<Rightarrow>
          map cc_s3_path (cold_chunks (slot_cold s)) @ map op_s3_path (external_segments (slot_cold s)) @
          (case Option.bind (slot_visible_snapshot s) vs_object of None \<Rightarrow> [] | Some obj \<Rightarrow> [ep_s3_path obj]))"

end
