(* ===== verification/Query.thy ===== *)
theory Query
  imports Cold_Commands
begin

text \<open>
  The read and query paths of the state machine (\<^verbatim>\<open>state_machine/query.rs\<close>): heads, due checks,
  read plans that tile a range with hot bytes, object slices and cold-index pages, visible snapshots and
  bootstrap plans. Nothing here changes the machine.
\<close>

section \<open>Heads and due checks\<close>

definition head_at :: "stream_state_machine \<Rightarrow> bucket_stream_id \<Rightarrow> u64 \<Rightarrow> stream_metadata option" where
  "head_at m stream_id now_ms =
     (case stream_metadata_of m stream_id of
        None \<Rightarrow> None | Some md \<Rightarrow> if \<not> stream_is_expired md now_ms then Some md else None)"

definition access_requires_write ::
  "stream_state_machine \<Rightarrow> bucket_stream_id \<Rightarrow> u64 \<Rightarrow> bool \<Rightarrow> stream_response + bool" where
  "access_requires_write m stream_id now_ms renew_ttl =
     (case validate_stream_scope stream_id m of
        Some r \<Rightarrow> Inl r
      | None \<Rightarrow>
     (case stream_metadata_of m stream_id of
        None \<Rightarrow> Inl (error StreamNotFound)
      | Some md \<Rightarrow> if stream_is_expired md now_ms then Inr True
                  else Inr (renew_ttl \<and> stream_ttl_renewal_due md now_ms)))"

definition expiry_due :: "stream_state_machine \<Rightarrow> u64 \<Rightarrow> bool" where
  "expiry_due m now_ms = ttl_front_due now_ms (sm_registry m)"

definition sweep_due :: "stream_state_machine \<Rightarrow> u64 \<Rightarrow> u64 \<Rightarrow> bool" where
  "sweep_due m now_ms retire_through \<longleftrightarrow> expiry_due m now_ms \<or> end_record_due retire_through m"

definition stream_ids_after :: "stream_state_machine \<Rightarrow> bucket_stream_id option \<Rightarrow> usize \<Rightarrow> bucket_stream_id list" where
  "stream_ids_after m after max_ids =
     take max_ids (sort (filter (\<lambda>i. case after of None \<Rightarrow> True | Some a \<Rightarrow> i > a)
                           (map slot_stream_id (reg_slot_values (sm_registry m)))))"

definition hot_payload_len_of :: "stream_state_machine \<Rightarrow> bucket_stream_id \<Rightarrow> stream_response + u64" where
  "hot_payload_len_of m stream_id =
     (case stream_slot_of m stream_id of
        None \<Rightarrow> Inl (error StreamNotFound) | Some s \<Rightarrow> Inr (len_u64 (hot_len (slot_hot_buffer s))))"

section \<open>Read plans\<close>

text \<open>The loop of \<^verbatim>\<open>push_cold_index_segments\<close>: one segment per page. A \<^verbatim>\<open>u64\<close> cursor below the end is
  below \<^term>\<open>u64_max\<close>, where the saturating page end still moves it.\<close>

lemma page_end_above: "c < u64_max \<Longrightarrow> c < sat_mul (sat_add (c div cold_index_page_span_bytes) 1) cold_index_page_span_bytes"
  by (auto simp: sat_mul_def sat_add_def cold_index_page_span_bytes_def min_def u64_max_def dividend_less_div_times)

function push_cold_index_segments :: "u64 \<Rightarrow> u64 \<Rightarrow> u64 \<Rightarrow> (u64 \<times> stream_read_segment) list" where
  "push_cold_index_segments generation cursor end_offset =
     (if cursor < end_offset \<and> cursor < u64_max
      then (let page_id = cursor div cold_index_page_span_bytes;
                page_end = sat_mul (sat_add page_id 1) cold_index_page_span_bytes;
                segment_end = min end_offset page_end
            in (cursor, ColdIndex \<lparr> ri_generation = generation, ri_page_id = page_id, ri_read_start_offset = cursor,
                                    ri_len = offset_delta cursor segment_end \<rparr>) #
               push_cold_index_segments generation segment_end end_offset)
      else [])"
  by pat_completeness auto
termination
  by (relation "measure (\<lambda>(g, c, e). e - c)") (auto simp: min_def dest: page_end_above)

declare push_cold_index_segments.simps [simp del]

fun push_cold_index_segments_excluding ::
  "u64 \<Rightarrow> u64 \<Rightarrow> u64 \<Rightarrow> (u64 \<times> u64) list \<Rightarrow> (u64 \<times> stream_read_segment) list" where
  "push_cold_index_segments_excluding generation cursor end_offset [] =
     push_cold_index_segments generation cursor end_offset"
| "push_cold_index_segments_excluding generation cursor end_offset ((excluded_start, excluded_end) # exclusions) =
     (if excluded_end \<le> cursor \<or> excluded_start \<ge> end_offset
      then push_cold_index_segments_excluding generation cursor end_offset exclusions
      else push_cold_index_segments generation cursor (min excluded_start end_offset) @
           (if max cursor excluded_end \<ge> end_offset then []
            else push_cold_index_segments_excluding generation (max cursor excluded_end) end_offset exclusions))"

fun read_segment_end :: "u64 \<Rightarrow> stream_read_segment \<Rightarrow> u64 option" where
  "read_segment_end segment_start (Object obj) =
     (if ro_len obj = 0 \<or> ro_read_start_offset obj \<noteq> segment_start \<or>
         ro_read_start_offset obj < op_start_offset (ro_object obj) then None
      else (case checked_add (ro_read_start_offset obj) (ro_len obj) of
              None \<Rightarrow> None
            | Some e \<Rightarrow> if e > op_end_offset (ro_object obj) then None else Some e))"
| "read_segment_end segment_start (ColdIndex index) =
     (if ri_len index = 0 \<or> ri_read_start_offset index \<noteq> segment_start then None
      else checked_add segment_start (ri_len index))"
| "read_segment_end segment_start (Hot payload) =
     (if payload = [] then None else checked_add segment_start (length payload))"

fun cover_loop :: "u64 \<Rightarrow> u64 \<Rightarrow> (u64 \<times> stream_read_segment) list \<Rightarrow> bool" where
  "cover_loop next_offset expected_start [] = (expected_start = next_offset)"
| "cover_loop next_offset expected_start ((segment_start, segment) # segments) =
     (case read_segment_end segment_start segment of
        None \<Rightarrow> False
      | Some segment_end \<Rightarrow>
          if segment_end \<le> expected_start then cover_loop next_offset expected_start segments
          else if segment_start > expected_start then False
          else if segment_end \<ge> next_offset then True
          else cover_loop next_offset segment_end segments)"

definition segments_cover_range :: "(u64 \<times> stream_read_segment) list \<Rightarrow> u64 \<Rightarrow> u64 \<Rightarrow> bool" where
  "segments_cover_range segments offset next_offset =
     (if next_offset < offset then False else cover_loop next_offset offset segments)"

text \<open>The loop over the hot segments that fills the gaps between them with cold-index pages.\<close>

fun cold_gaps ::
  "u64 \<Rightarrow> u64 \<Rightarrow> (u64 \<times> u64) list \<Rightarrow> u64 \<Rightarrow> (u64 \<times> stream_read_segment) list \<Rightarrow> (u64 \<times> stream_read_segment) list" where
  "cold_gaps generation cold_index_end direct cursor [] =
     push_cold_index_segments_excluding generation cursor cold_index_end direct"
| "cold_gaps generation cold_index_end direct cursor ((hot_start, hot_segment) # hot) =
     (if cursor \<ge> cold_index_end
      then push_cold_index_segments_excluding generation cursor cold_index_end direct
      else (case read_segment_end hot_start hot_segment of
              None \<Rightarrow> cold_gaps generation cold_index_end direct cursor hot
            | Some hot_end \<Rightarrow>
                if hot_end \<le> cursor then cold_gaps generation cold_index_end direct cursor hot
                else push_cold_index_segments_excluding generation cursor (min hot_start cold_index_end) direct @
                     cold_gaps generation cold_index_end direct (max cursor hot_end) hot))"

definition object_segments :: "u64 \<Rightarrow> u64 \<Rightarrow> object_payload_ref list \<Rightarrow> (u64 \<times> stream_read_segment) list" where
  "object_segments offset next_offset objs =
     List.map_filter
       (\<lambda>obj. let start = max offset (op_start_offset obj); stop = min next_offset (op_end_offset obj)
              in if start < stop
                 then Some (start, Object \<lparr> ro_object = obj, ro_read_start_offset = start, ro_len = offset_delta start stop \<rparr>)
                 else None) objs"

definition direct_cold_ranges :: "stream_cold_state \<Rightarrow> (u64 \<times> u64) list" where
  "direct_cold_ranges c =
     sort (map (\<lambda>x. (cc_start_offset x, cc_end_offset x)) (cold_chunks c) @
           map (\<lambda>x. (op_start_offset x, op_end_offset x)) (external_segments c))"

text \<open>The segments of a plan of \<^term>\<open>offset\<close> up to \<^term>\<open>next_offset\<close>, sorted by their start.\<close>

definition plan_segments :: "stream_slot \<Rightarrow> u64 \<Rightarrow> u64 \<Rightarrow> (u64 \<times> stream_read_segment) list" where
  "plan_segments s offset next_offset =
     (let hot = read_segments offset next_offset (slot_hot_buffer s);
          cold = slot_cold s
      in sort_key fst
           (cold_gaps (cold_generation cold) next_offset (direct_cold_ranges cold) offset hot @
            object_segments offset next_offset (map object_payload_ref_of_chunk (cold_chunks cold)) @
            object_segments offset next_offset (external_segments cold) @ hot))"

definition read_plan_at ::
  "(byte list \<Rightarrow> byte list) \<Rightarrow> bucket_stream_id \<Rightarrow> u64 \<Rightarrow> usize \<Rightarrow> u64 \<Rightarrow> stream_state_machine \<Rightarrow>
   stream_response + stream_read_plan" where
  "read_plan_at b3 stream_id offset max_len now_ms m =
     (case stream_slot_of m stream_id of
        None \<Rightarrow> Inl (error StreamNotFound)
      | Some s \<Rightarrow>
          (let md = slot_metadata s;
               token = [StreamIncarnation (token_of b3 m md)];
               retained = earliest_retained_offset m stream_id;
               next_offset = min (md_tail_offset md) (sat_add offset max_len);
               segments = plan_segments s offset next_offset
           in if stream_is_expired md now_ms then Inl (error StreamNotFound)
              else if offset > md_tail_offset md
              then Inl (error_with_next_offset_and_context OffsetOutOfRange (md_tail_offset md) token)
              else if offset < retained
              then Inl (error_with_next_offset_and_context StreamGone retained token)
              else if \<not> segments_cover_range segments offset next_offset
              then Inl (error_with_next_offset InvalidColdFlush next_offset)
              else Inr \<lparr> rp_incarnation = token_of b3 m md, rp_offset = offset, rp_next_offset = next_offset,
                         rp_content_type = md_content_type md, rp_segments = map snd segments,
                         rp_up_to_date = (next_offset = md_tail_offset md), rp_closed = (md_status md = Closed_Status) \<rparr>))"

definition read_plan ::
  "(byte list \<Rightarrow> byte list) \<Rightarrow> bucket_stream_id \<Rightarrow> u64 \<Rightarrow> usize \<Rightarrow> stream_state_machine \<Rightarrow>
   stream_response + stream_read_plan" where
  "read_plan b3 stream_id offset max_len m = read_plan_at b3 stream_id offset max_len 0 m"

fun segment_bytes :: "stream_read_segment \<Rightarrow> byte list option" where
  "segment_bytes (Hot payload) = Some payload"
| "segment_bytes (ColdIndex _) = None"
| "segment_bytes (Object _) = None"

definition read_stream ::
  "(byte list \<Rightarrow> byte list) \<Rightarrow> bucket_stream_id \<Rightarrow> u64 \<Rightarrow> usize \<Rightarrow> stream_state_machine \<Rightarrow>
   stream_response + stream_read" where
  "read_stream b3 stream_id offset max_len m =
     (case read_plan b3 stream_id offset max_len m of
        Inl r \<Rightarrow> Inl r
      | Inr plan \<Rightarrow>
          if list_ex (\<lambda>s. segment_bytes s = None) (rp_segments plan)
          then Inl (error_with_next_offset InvalidColdFlush (rp_next_offset plan))
          else Inr \<lparr> sr_offset = rp_offset plan, sr_next_offset = rp_next_offset plan,
                     sr_content_type = rp_content_type plan,
                     sr_payload = concat (List.map_filter segment_bytes (rp_segments plan)),
                     sr_up_to_date = rp_up_to_date plan, sr_closed = rp_closed plan \<rparr>)"

section \<open>Visible snapshots and bootstrap\<close>

definition latest_snapshot ::
  "bucket_stream_id \<Rightarrow> stream_state_machine \<Rightarrow> stream_response + stream_visible_snapshot option" where
  "latest_snapshot stream_id m =
     (case stream_slot_of m stream_id of
        None \<Rightarrow> Inl (error StreamNotFound) | Some s \<Rightarrow> Inr (slot_visible_snapshot s))"

definition read_snapshot ::
  "(byte list \<Rightarrow> byte list) \<Rightarrow> bucket_stream_id \<Rightarrow> u64 \<Rightarrow> stream_state_machine \<Rightarrow>
   stream_response + stream_visible_snapshot" where
  "read_snapshot b3 stream_id snapshot_offset m =
     (let missing = Inl (error_with_context SnapshotNotFound
            (case stream_slot_of m stream_id of
               None \<Rightarrow> [] | Some s \<Rightarrow> [StreamIncarnation (token_of b3 m (slot_metadata s))]))
      in case latest_snapshot stream_id m of
           Inl r \<Rightarrow> Inl r
         | Inr None \<Rightarrow> missing
         | Inr (Some v) \<Rightarrow> if vs_offset v = snapshot_offset then Inr v else missing)"

fun message_records :: "u64 \<Rightarrow> u64 list \<Rightarrow> stream_message_record list" where
  "message_records start_offset [] = []"
| "message_records start_offset (e # ends) =
     \<lparr> mr_start_offset = start_offset, mr_end_offset = e \<rparr> # message_records e ends"

definition bootstrap_plan_with_cap ::
  "bucket_stream_id \<Rightarrow> u64 \<Rightarrow> stream_state_machine \<Rightarrow> stream_response + stream_bootstrap_plan" where
  "bootstrap_plan_with_cap stream_id max_update_bytes m =
     (case stream_slot_of m stream_id of
        None \<Rightarrow> Inl (error StreamNotFound)
      | Some s \<Rightarrow>
          (let md = slot_metadata s;
               tail_offset = md_tail_offset md;
               snapshot = slot_visible_snapshot s;
               snapshot_offset = (case snapshot of None \<Rightarrow> slot_retained_offset s | Some v \<Rightarrow> vs_offset v);
               exact_frontier = max (seal_point s) (slot_retained_offset s);
               is_closed = (md_status md = Closed_Status);
               honest_partial = \<lparr> bp_snapshot = snapshot, bp_updates = [], bp_next_offset = snapshot_offset,
                                  bp_content_type = md_content_type md, bp_up_to_date = False, bp_closed = False \<rparr>
           in if snapshot_offset < exact_frontier \<or> \<not> covers snapshot_offset tail_offset (slot_hot_buffer s)
              then Inr honest_partial
              else if \<not> is_json_record_content_type (md_content_type md)
              then (let len = tail_offset - snapshot_offset
                    in if len > max_update_bytes then Inr honest_partial
                       else Inr \<lparr> bp_snapshot = snapshot,
                                  bp_updates = (if len > 0 then [\<lparr> mr_start_offset = snapshot_offset, mr_end_offset = tail_offset \<rparr>] else []),
                                  bp_next_offset = tail_offset, bp_content_type = md_content_type md,
                                  bp_up_to_date = True, bp_closed = is_closed \<rparr>)
              else (let ends = lf_ends snapshot_offset tail_offset max_update_bytes (slot_hot_buffer s);
                        next_offset = last (snapshot_offset # ends)
                    in Inr \<lparr> bp_snapshot = snapshot, bp_updates = message_records snapshot_offset ends,
                             bp_next_offset = next_offset, bp_content_type = md_content_type md,
                             bp_up_to_date = (next_offset = tail_offset),
                             bp_closed = (next_offset = tail_offset \<and> is_closed) \<rparr>)))"

definition bootstrap_plan ::
  "bucket_stream_id \<Rightarrow> stream_state_machine \<Rightarrow> stream_response + stream_bootstrap_plan" where
  "bootstrap_plan stream_id m = bootstrap_plan_with_cap stream_id bootstrap_max_update_bytes m"

end
