(* ===== verification/Persist.thy ===== *)
theory Persist
  imports Query
begin

text \<open>
  Snapshots of a group, their restore and the import of a backup (\<^verbatim>\<open>state_machine/persist.rs\<close>,
  \<^verbatim>\<open>snapshot.rs\<close>). A restored machine's slot map starts afresh, so a restore takes the key sequence
  of the new slot map as an argument, as \<^term>\<open>new_machine\<close> does.
\<close>

definition backup_format_version :: u32 where
  "backup_format_version = 5"

section \<open>Snapshot\<close>

definition producer_snapshot_of :: "string \<Rightarrow> producer_state \<Rightarrow> producer_snapshot" where
  "producer_snapshot_of producer_id st = producer_state.extend st \<lparr> psn_producer_id = producer_id \<rparr>"

definition producer_snapshots :: "(string, producer_state) hashmap \<Rightarrow> producer_snapshot list" where
  "producer_snapshots states = sort_key psn_producer_id (map (\<lambda>(i, st). producer_snapshot_of i st) states)"

definition snapshot_entry :: "stream_state_machine \<Rightarrow> stream_slot \<Rightarrow> stream_snapshot_entry" where
  "snapshot_entry m s =
     \<lparr> se_metadata = slot_metadata s, se_hot_start_offset = machine_hot_start_offset m (slot_stream_id s),
       se_payload = hot_payload (slot_hot_buffer s), se_hot_segments = hot_segments (slot_hot_buffer s),
       se_cold_index_generation = cold_generation (slot_cold s), se_cold_chunks = cold_chunks (slot_cold s),
       se_external_segments = external_segments (slot_cold s), se_retained_offset = slot_retained_offset s,
       se_visible_snapshot = slot_visible_snapshot s, se_producer_states = producer_snapshots (slot_producers s),
       se_retired_epoch_watermark = slot_retired_epoch_watermark s, se_history = slot_history s,
       se_inherited = slot_inherited s \<rparr>"

definition entry_stream_id :: "stream_snapshot_entry \<Rightarrow> bucket_stream_id" where
  "entry_stream_id e = md_stream_id (se_metadata e)"

definition snapshot_of :: "stream_state_machine \<Rightarrow> stream_snapshot" where
  "snapshot_of m =
     \<lparr> ss_format_version = backup_format_version, ss_buckets = sorted_list_of_set (sm_buckets m),
       ss_erased_buckets = sorted_list_of_set (sm_erased_buckets m),
       ss_streams = sort_key entry_stream_id (map (snapshot_entry m) (reg_slot_values (sm_registry m))),
       ss_pending_cold_gc = gq_pending (sm_cold_gc m), ss_next_cold_gc_seq = gq_next_seq (sm_cold_gc m),
       ss_bucket_usage = bucket_usage_report m, ss_last_created_at_ms = sm_last_created_at_ms m,
       ss_history = sm_history m \<rparr>"

section \<open>Checks of a snapshot entry\<close>

text \<open>\<^term>\<open>None\<close> is \<^verbatim>\<open>Ok(())\<close>.\<close>

definition check_format :: "u32 option \<Rightarrow> stream_snapshot_error option" where
  "check_format found = (if found = Some backup_format_version then None else Some (BackupFormat found))"

fun restore_producer_loop ::
  "bucket_stream_id \<Rightarrow> producer_snapshot list \<Rightarrow> (string, producer_state) hashmap \<Rightarrow>
   stream_snapshot_error + (string, producer_state) hashmap" where
  "restore_producer_loop stream_id [] states = Inr states"
| "restore_producer_loop stream_id (p # ps) states =
     (if map_of states (psn_producer_id p) \<noteq> None then Inl (DuplicateProducer stream_id (psn_producer_id p))
      else restore_producer_loop stream_id ps (AList.update (psn_producer_id p) (producer_state.truncate p) states))"

definition restore_producer_states ::
  "bucket_stream_id \<Rightarrow> producer_snapshot list \<Rightarrow> stream_snapshot_error + (string, producer_state) hashmap" where
  "restore_producer_states stream_id snapshots = restore_producer_loop stream_id snapshots []"

definition valid_cold_chunk_ref :: "cold_chunk_ref \<Rightarrow> bool" where
  "valid_cold_chunk_ref c \<longleftrightarrow>
     cc_end_offset c > cc_start_offset c \<and> trim (cc_s3_path c) \<noteq> [] \<and>
     (case checked_add (cc_object_offset c) (cc_end_offset c - cc_start_offset c) of
        None \<Rightarrow> False | Some e \<Rightarrow> e \<le> cc_object_size c)"

definition valid_object_payload_ref :: "object_payload_ref \<Rightarrow> bool" where
  "valid_object_payload_ref obj \<longleftrightarrow>
     op_end_offset obj > op_start_offset obj \<and> trim (op_s3_path obj) \<noteq> [] \<and>
     (case checked_add (op_object_offset obj) (op_end_offset obj - op_start_offset obj) of
        None \<Rightarrow> False | Some e \<Rightarrow> e \<le> op_object_size obj)"

fun match_payload_loop :: "usize \<Rightarrow> usize \<Rightarrow> hot_payload_segment list \<Rightarrow> bool" where
  "match_payload_loop payload_len expected [] = (expected = payload_len)"
| "match_payload_loop payload_len expected (g # gs) =
     (if hs_end_offset g \<le> hs_start_offset g \<or> hs_payload_start g \<noteq> expected \<or>
         hs_payload_end g \<le> hs_payload_start g \<or> hs_payload_end g > payload_len then False
      else if hs_end_offset g - hs_start_offset g \<noteq> hs_payload_end g - hs_payload_start g then False
      else match_payload_loop payload_len (hs_payload_end g) gs)"

definition hot_segments_match_payload :: "hot_payload_segment list \<Rightarrow> usize \<Rightarrow> bool" where
  "hot_segments_match_payload segments payload_len = match_payload_loop payload_len 0 segments"

fun sources_loop :: "u64 \<Rightarrow> u64 \<Rightarrow> hot_payload_segment list \<Rightarrow> bool" where
  "sources_loop tail_offset previous_end [] = True"
| "sources_loop tail_offset previous_end (g # gs) =
     (if hs_end_offset g \<le> hs_start_offset g \<or> hs_start_offset g < previous_end \<or> hs_end_offset g > tail_offset
      then False else sources_loop tail_offset (hs_end_offset g) gs)"

definition payload_sources_cover_retained_suffix ::
  "cold_chunk_ref list \<Rightarrow> object_payload_ref list \<Rightarrow> hot_payload_segment list \<Rightarrow> u64 \<Rightarrow> u64 \<Rightarrow> bool" where
  "payload_sources_cover_retained_suffix refs externals segments retained_offset tail_offset =
     (if tail_offset < retained_offset then False
      else if \<not> list_all valid_cold_chunk_ref refs \<or> \<not> list_all valid_object_payload_ref externals then False
      else sources_loop tail_offset 0 segments)"

section \<open>Restore\<close>

datatype restored_usage = Backup_Usage | Imported_Usage u64 | Group_Usage usage_snapshot

definition check_entry :: "stream_snapshot_entry \<Rightarrow> stream_state_machine \<Rightarrow> stream_snapshot_error option" where
  "check_entry e m =
     (let stream_id = entry_stream_id e; tail_offset = md_tail_offset (se_metadata e)
      in if sm_history m = None then Some (StreamWithoutHistory stream_id)
         else if bsi_bucket stream_id \<notin> sm_buckets m then Some (MissingBucket stream_id)
         else if (case se_visible_snapshot e of None \<Rightarrow> False | Some v \<Rightarrow> vs_offset v > tail_offset)
         then Some (SnapshotOffsetOutOfRange stream_id (vs_offset (the (se_visible_snapshot e))) tail_offset)
         else if se_retained_offset e > tail_offset
         then Some (SnapshotOffsetOutOfRange stream_id (se_retained_offset e) tail_offset)
         else if \<not> hot_segments_match_payload (se_hot_segments e) (length (se_payload e)) \<or>
                 \<not> payload_sources_cover_retained_suffix (se_cold_chunks e) (se_external_segments e)
                     (se_hot_segments e) (se_retained_offset e) tail_offset
         then Some (PayloadLengthMismatch stream_id tail_offset (len_u64 (length (se_payload e))))
         else if reg_contains_key (sm_registry m) stream_id then Some (DuplicateStream stream_id)
         else None)"

definition restored_slot ::
  "stream_snapshot_entry \<Rightarrow> (string, producer_state) hashmap \<Rightarrow> version_usage \<Rightarrow> stream_slot" where
  "restored_slot e producers usage =
     \<lparr> slot_metadata = se_metadata e, slot_hot_buffer = from_snapshot (se_payload e) (se_hot_segments e),
       slot_cold = restore_cold_state (se_cold_index_generation e) (se_cold_chunks e) (se_external_segments e),
       slot_retained_offset = se_retained_offset e, slot_visible_snapshot = se_visible_snapshot e,
       slot_producers = producers, slot_retired_epoch_watermark = se_retired_epoch_watermark e,
       slot_history = se_history e, slot_inherited = se_inherited e, slot_usage = usage \<rparr>"

definition restored_usage_of ::
  "string \<Rightarrow> version_usage option \<Rightarrow> u64 \<Rightarrow> usage_ledger \<Rightarrow> usage_ledger \<times> version_usage" where
  "restored_usage_of bucket_id version counted_since l =
     (case version of
        Some usage \<Rightarrow> (insert_bucket bucket_id l, usage)
      | None \<Rightarrow> restored_version bucket_id counted_since l)"

definition restore_entry ::
  "u64 option \<Rightarrow> stream_snapshot_entry \<times> version_usage option \<Rightarrow> stream_state_machine \<Rightarrow>
   stream_snapshot_error + stream_state_machine" where
  "restore_entry imported_since ev m =
     (let (e, version) = ev; stream_id = entry_stream_id e
      in case check_entry e m of
           Some err \<Rightarrow> Inl err
         | None \<Rightarrow>
         (case restore_producer_states stream_id (se_producer_states e) of
            Inl err \<Rightarrow> Inl err
          | Inr producers \<Rightarrow>
              (let since = (case imported_since of None \<Rightarrow> history_id m | Some h \<Rightarrow> h);
                   (l, usage) = restored_usage_of (bsi_bucket stream_id) version since (sm_usage m);
                   shared_cold_paths = map cc_s3_path (filter cc_shared_object (se_cold_chunks e))
               in case insert_stream_slot (restored_slot e producers usage) (m\<lparr> sm_usage := l \<rparr>) of
                    (m1, None) \<Rightarrow> Inl (DuplicateStream stream_id)
                  | (m1, Some _) \<Rightarrow> Inr (fold retain_shared_cold_object shared_cold_paths m1))))"

fun restore_entries ::
  "u64 option \<Rightarrow> (stream_snapshot_entry \<times> version_usage option) list \<Rightarrow> stream_state_machine \<Rightarrow>
   stream_snapshot_error + stream_state_machine" where
  "restore_entries imported_since [] m = Inr m"
| "restore_entries imported_since (ev # evs) m =
     (case restore_entry imported_since ev m of
        Inl err \<Rightarrow> Inl err | Inr m1 \<Rightarrow> restore_entries imported_since evs m1)"

fun restore_buckets :: "string list \<Rightarrow> stream_state_machine \<Rightarrow> stream_snapshot_error + stream_state_machine" where
  "restore_buckets [] m = Inr m"
| "restore_buckets (b # bs) m =
     (if b \<in> sm_buckets m then Inl (DuplicateBucket b)
      else restore_buckets bs (m\<lparr> sm_buckets := insert b (sm_buckets m) \<rparr>))"

fun restore_erased :: "string list \<Rightarrow> stream_state_machine \<Rightarrow> stream_snapshot_error + stream_state_machine" where
  "restore_erased [] m = Inr m"
| "restore_erased (b # bs) m =
     (if b \<in> sm_buckets m then Inl (ActiveBucketErased b)
      else if b \<in> sm_erased_buckets m then Inl (DuplicateErasedBucket b)
      else restore_erased bs (m\<lparr> sm_erased_buckets := insert b (sm_erased_buckets m) \<rparr>))"

fun check_pending_gc :: "cold_gc_entry list \<Rightarrow> stream_snapshot_error option" where
  "check_pending_gc [] = None"
| "check_pending_gc (g # gs) =
     (if gc_bucket_id g = [] then Some (UnattributedColdGc (gc_seq g))
      else if (case gc_target g of Stream_Target _ \<Rightarrow> True | Paths _ \<Rightarrow> False) \<and> gc_cold_generation g = None
      then Some (ColdGcWithoutGeneration (gc_seq g))
      else check_pending_gc gs)"

definition normalize_last_created_at_ms :: "stream_state_machine \<Rightarrow> stream_state_machine" where
  "normalize_last_created_at_ms m =
     m\<lparr> sm_last_created_at_ms := max_live_created_at_ms m (sm_last_created_at_ms m) \<rparr>"

text \<open>The ledger, the version usages of a group snapshot, the history of an import and the totals to
  check.\<close>

definition restored_ledger ::
  "stream_snapshot \<Rightarrow> (string, committed_usage) btreemap \<Rightarrow> restored_usage \<Rightarrow>
   stream_snapshot_error + usage_ledger \<times> version_usage option list \<times> u64 option \<times> (string, committed_usage) btreemap option" where
  "restored_ledger snapshot totals usage =
     (let no_versions = map (\<lambda>_. None) (ss_streams snapshot)
      in case usage of
           Backup_Usage \<Rightarrow> Inr (retiring totals, no_versions, None, None)
         | Imported_Usage counted_since \<Rightarrow> Inr (retiring totals, no_versions, Some counted_since, None)
         | Group_Usage u \<Rightarrow>
             if length (us_streams u) \<noteq> length (ss_streams snapshot)
             then Inl (Usage_Error (StreamCount (len_u64 (length (ss_streams snapshot))) (len_u64 (length (us_streams u)))))
             else (case of_group (us_genesis u) (us_usage_seq u) (us_retired_through u) (us_retired u) (us_ends u) of
                     Inl err \<Rightarrow> Inl (Usage_Error err)
                   | Inr ledger \<Rightarrow> Inr (ledger, map Some (us_streams u), None, Some totals)))"

definition restore_state ::
  "(nat \<Rightarrow> stream_key) \<Rightarrow> stream_snapshot \<Rightarrow>
   usage_ledger \<times> version_usage option list \<times> u64 option \<times> (string, committed_usage) btreemap option \<Rightarrow>
   stream_snapshot_error + stream_state_machine" where
  "restore_state ks snapshot parts =
     (let (ledger, versions, imported_since, checked_totals) = parts;
          m0 = (new_machine ks)\<lparr> sm_last_created_at_ms := ss_last_created_at_ms snapshot,
                                 sm_history := ss_history snapshot, sm_usage := ledger \<rparr>;
          entries = sort_key (\<lambda>(e, _). entry_stream_id e) (zip (ss_streams snapshot) versions)
      in case restore_buckets (ss_buckets snapshot) m0 of
           Inl err \<Rightarrow> Inl err
         | Inr m1 \<Rightarrow>
         (case restore_erased (ss_erased_buckets snapshot) m1 of
            Inl err \<Rightarrow> Inl err
          | Inr m2 \<Rightarrow>
         (case restore_entries imported_since entries m2 of
            Inl err \<Rightarrow> Inl err
          | Inr m3 \<Rightarrow>
         (case check_pending_gc (ss_pending_cold_gc snapshot) of
            Some err \<Rightarrow> Inl err
          | None \<Rightarrow>
              (let m4 = normalize_last_created_at_ms
                          (m3\<lparr> sm_cold_gc := from_parts (ss_pending_cold_gc snapshot) (ss_next_cold_gc_seq snapshot) \<rparr>)
               in case checked_totals of
                    None \<Rightarrow> Inr m4
                  | Some totals \<Rightarrow> (case check_restored_usage totals m4 of
                                      None \<Rightarrow> Inr m4 | Some err \<Rightarrow> Inl (Usage_Error err)))))))"

definition restore_with ::
  "(nat \<Rightarrow> stream_key) \<Rightarrow> stream_snapshot \<Rightarrow> restored_usage \<Rightarrow> stream_snapshot_error + stream_state_machine" where
  "restore_with ks snapshot usage =
     (case check_format (Some (ss_format_version snapshot)) of
        Some err \<Rightarrow> Inl err
      | None \<Rightarrow>
     (case committed_by_bucket (ss_bucket_usage snapshot) of
        Inl err \<Rightarrow> Inl err
      | Inr totals \<Rightarrow>
     (case restored_ledger snapshot totals usage of
        Inl err \<Rightarrow> Inl err
      | Inr parts \<Rightarrow> restore_state ks snapshot parts)))"

definition restore :: "(nat \<Rightarrow> stream_key) \<Rightarrow> stream_snapshot \<Rightarrow> stream_snapshot_error + stream_state_machine" where
  "restore ks snapshot = restore_with ks snapshot Backup_Usage"

definition restore_group ::
  "(nat \<Rightarrow> stream_key) \<Rightarrow> stream_snapshot \<Rightarrow> usage_snapshot \<Rightarrow> stream_snapshot_error + stream_state_machine" where
  "restore_group ks snapshot usage = restore_with ks snapshot (Group_Usage usage)"

definition restore_counted_since ::
  "(nat \<Rightarrow> stream_key) \<Rightarrow> stream_snapshot \<Rightarrow> u64 \<Rightarrow> stream_snapshot_error + stream_state_machine" where
  "restore_counted_since ks snapshot counted_since = restore_with ks snapshot (Imported_Usage counted_since)"

section \<open>Import\<close>

definition imported_machine :: "u64 \<Rightarrow> u64 \<Rightarrow> byte list \<Rightarrow> u64 \<Rightarrow> stream_state_machine \<Rightarrow> stream_state_machine \<Rightarrow> stream_state_machine" where
  "imported_machine index history backup_digest now_ms m restored =
     (let r1 = normalize_last_created_at_ms
                 (restored\<lparr> sm_last_created_at_ms :=
                    max (max (sm_last_created_at_ms restored) (sm_last_created_at_ms m)) now_ms \<rparr>)
      in r1\<lparr> sm_history := Some \<lparr> he_id = history, he_event_index = index, he_previous = history_id m,
                                   he_kept = index - 1, he_leader = \<lparr> hl_term = 0, hl_node_id = 0 \<rparr>,
                                   he_imported = Some backup_digest \<rparr>,
             sm_usage := keep_genesis (sm_usage m) (sm_usage r1) \<rparr>)"

definition import_snapshot ::
  "u64 \<Rightarrow> stream_snapshot \<Rightarrow> u64 \<Rightarrow> byte list \<Rightarrow> u64 \<Rightarrow> stream_state_machine \<Rightarrow> stream_state_machine \<times> stream_response" where
  "import_snapshot index snapshot history backup_digest now_ms m =
     (let imported = Option.bind (sm_history m) he_imported
      in if imported = Some backup_digest
         then (m, SnapshotImported (len_u64 (card (sm_buckets m))) (len_u64 (length (reg_slot_values (sm_registry m))))
                    (history_id m) True)
         else if sm_buckets m \<noteq> {} \<or> sm_erased_buckets m \<noteq> {} \<or> \<not> reg_is_empty (sm_registry m)
         then (m, error ImportConflict)
         else (case restore_counted_since (reg_key_seq (sm_registry m)) snapshot history of
                 Inl _ \<Rightarrow> (m, error ImportInvalid)
               | Inr restored \<Rightarrow>
                   (imported_machine index history backup_digest now_ms m restored,
                    SnapshotImported (len_u64 (length (ss_buckets snapshot))) (len_u64 (length (ss_streams snapshot)))
                      history False)))"

end
