(* ===== verification/Apply.thy ===== *)
theory Apply
  imports Persist
begin

text \<open>
  The command dispatch of the state machine (\<^verbatim>\<open>apply_checked\<close>, \<^verbatim>\<open>apply_entry\<close>, \<^verbatim>\<open>apply\<close> and
  \<^verbatim>\<open>with_genesis\<close> of \<^verbatim>\<open>state_machine.rs\<close>). BLAKE3 is the argument \<open>b3\<close>.
\<close>

fun apply_checked ::
  "(byte list \<Rightarrow> byte list) \<Rightarrow> u64 \<Rightarrow> stream_command \<Rightarrow> incarnation_check \<Rightarrow> stream_state_machine \<Rightarrow>
   stream_state_machine \<times> stream_response" where
  "apply_checked b3 index (CreateBucket bucket_id) check m = create_bucket bucket_id m"
| "apply_checked b3 index
     (CreateStream stream_id content_type initial_payload close_after stream_seq ttl expires_at now_ms) check m =
     (case canonical_json_message_count content_type initial_payload of
        Some message_count \<Rightarrow>
          create_stream \<lparr> ci_stream_id = stream_id, ci_content_type = content_type,
            ci_initial_payload = initial_payload, ci_message_count = message_count, ci_close_after = close_after,
            ci_stream_seq = stream_seq, ci_stream_ttl_seconds = ttl, ci_stream_expires_at_ms = expires_at,
            ci_now_ms = now_ms \<rparr> m
      | None \<Rightarrow> (m, error InvalidRecordBoundaries))"
| "apply_checked b3 index
     (CreateExternal stream_id content_type initial_payload message_count close_after stream_seq ttl expires_at now_ms)
     check m =
     create_external_stream \<lparr> xi_stream_id = stream_id, xi_content_type = content_type,
       xi_initial_payload = initial_payload, xi_message_count = message_count, xi_close_after = close_after,
       xi_stream_seq = stream_seq, xi_stream_ttl_seconds = ttl, xi_stream_expires_at_ms = expires_at,
       xi_now_ms = now_ms \<rparr> m"
| "apply_checked b3 index (Append stream_id content_type payload close_after stream_seq producer now_ms) check m =
     append_borrowed \<lparr> ai_stream_id = stream_id, ai_content_type = content_type, ai_payload = payload,
       ai_close_after = close_after, ai_stream_seq = stream_seq, ai_producer = producer, ai_now_ms = now_ms,
       ai_kind = Append_Kind, ai_check = check \<rparr> m"
| "apply_checked b3 index
     (AppendExternal stream_id content_type payload message_count close_after stream_seq producer now_ms) check m =
     append_external \<lparr> ax_stream_id = stream_id, ax_content_type = content_type, ax_payload = payload,
       ax_message_count = message_count, ax_close_after = close_after, ax_stream_seq = stream_seq,
       ax_producer = producer, ax_now_ms = now_ms, ax_check = check \<rparr> m"
| "apply_checked b3 index (PublishSnapshot stream_id snapshot_offset content_type payload now_ms expected) check m =
     publish_snapshot b3 stream_id snapshot_offset content_type (Inline_Body payload) now_ms expected m"
| "apply_checked b3 index
     (PublishSnapshotExternal stream_id snapshot_offset content_type obj digest now_ms expected) check m =
     publish_snapshot b3 stream_id snapshot_offset content_type (Object_Body obj digest) now_ms expected m"
| "apply_checked b3 index (AdvanceRetention stream_id retained_offset now_ms expected) check m =
     advance_retention b3 stream_id retained_offset now_ms expected m"
| "apply_checked b3 index (TouchStreamAccess stream_id now_ms renew_ttl) check m =
     touch_stream_access stream_id now_ms renew_ttl m"
| "apply_checked b3 index (FlushCold stream_id chunk planned_generation) check m =
     flush_cold b3 stream_id chunk planned_generation m"
| "apply_checked b3 index (CompactCold stream_id old_chunks replacement not_before_ms) check m =
     compact_cold stream_id old_chunks replacement not_before_ms m"
| "apply_checked b3 index (Close stream_id stream_seq producer now_ms) check m =
     close_stream stream_id stream_seq producer now_ms check m"
| "apply_checked b3 index (DeleteStream stream_id now_ms) check m = delete_stream stream_id now_ms m"
| "apply_checked b3 index (PurgeBucket bucket_id now_ms) check m = purge_bucket bucket_id now_ms m"
| "apply_checked b3 index (AckColdGc up_to_seq) check m = ack_cold_gc up_to_seq m"
| "apply_checked b3 index (DeferColdGc seq not_before_ms) check m = defer_cold_gc seq not_before_ms m"
| "apply_checked b3 index (ImportSnapshot snapshot history backup_digest now_ms) check m =
     import_snapshot index snapshot history backup_digest now_ms m"
| "apply_checked b3 index (NewHistory history now_ms previous kept leader) check m =
     new_history index history previous kept leader now_ms m"
| "apply_checked b3 index (TidyStream stream_id now_ms) check m = tidy_stream stream_id now_ms m"
| "apply_checked b3 index (Sweep now_ms limit retire_through) check m = sweep now_ms limit retire_through m"
| "apply_checked b3 index (OffloadColdRefs stream_id refs) check m = offload_cold_refs stream_id refs m"
| "apply_checked b3 index (IfIncarnation incarnation command) check m =
     (case incarnation_precondition b3 command incarnation m of
        Some refusal \<Rightarrow> (m, refusal)
      | None \<Rightarrow> apply_checked b3 index command Matched m)"

definition apply_entry ::
  "(byte list \<Rightarrow> byte list) \<Rightarrow> u64 \<Rightarrow> stream_command \<Rightarrow> stream_state_machine \<Rightarrow> stream_state_machine \<times> stream_response" where
  "apply_entry b3 index command m = apply_checked b3 index command Absent m"

definition apply_command ::
  "(byte list \<Rightarrow> byte list) \<Rightarrow> stream_command \<Rightarrow> stream_state_machine \<Rightarrow> stream_state_machine \<times> stream_response" where
  "apply_command b3 command m = apply_entry b3 0 command m"

definition with_genesis :: "(byte list \<Rightarrow> byte list) \<Rightarrow> (nat \<Rightarrow> stream_key) \<Rightarrow> u64 \<Rightarrow> stream_state_machine" where
  "with_genesis b3 ks history =
     fst (apply_entry b3 1 (NewHistory history 0 0 0 \<lparr> hl_term = 0, hl_node_id = 0 \<rparr>) (new_machine ks))"

end
