(* ===== verification/Machine_Frame.thy ===== *)
theory Machine_Frame
  imports Apply
begin

text \<open>
  What each helper of the state machine leaves alone, and its effect on the lookup of a stream: the
  facts the proofs about commands are assembled from.
\<close>

section \<open>Fields\<close>

lemma frame_fields [simp]:
  "sm_registry (add_hot_payload_bytes n m) = sm_registry m"
  "sm_buckets (add_hot_payload_bytes n m) = sm_buckets m"
  "sm_erased_buckets (add_hot_payload_bytes n m) = sm_erased_buckets m"
  "sm_last_created_at_ms (add_hot_payload_bytes n m) = sm_last_created_at_ms m"
  "sm_history (add_hot_payload_bytes n m) = sm_history m"
  "sm_usage (add_hot_payload_bytes n m) = sm_usage m"
  "sm_shared_refs (add_hot_payload_bytes n m) = sm_shared_refs m"
  "sm_cold_gc (add_hot_payload_bytes n m) = sm_cold_gc m"
  "sm_flush_planner (add_hot_payload_bytes n m) = sm_flush_planner m"
  "sm_registry (remove_hot_payload_bytes n m) = sm_registry m"
  "sm_buckets (remove_hot_payload_bytes n m) = sm_buckets m"
  "sm_erased_buckets (remove_hot_payload_bytes n m) = sm_erased_buckets m"
  "sm_last_created_at_ms (remove_hot_payload_bytes n m) = sm_last_created_at_ms m"
  "sm_history (remove_hot_payload_bytes n m) = sm_history m"
  "sm_usage (remove_hot_payload_bytes n m) = sm_usage m"
  "sm_shared_refs (remove_hot_payload_bytes n m) = sm_shared_refs m"
  "sm_cold_gc (remove_hot_payload_bytes n m) = sm_cold_gc m"
  "sm_flush_planner (remove_hot_payload_bytes n m) = sm_flush_planner m"
  "sm_registry (sync_hot_index i m) = sm_registry m"
  "sm_buckets (sync_hot_index i m) = sm_buckets m"
  "sm_erased_buckets (sync_hot_index i m) = sm_erased_buckets m"
  "sm_last_created_at_ms (sync_hot_index i m) = sm_last_created_at_ms m"
  "sm_history (sync_hot_index i m) = sm_history m"
  "sm_usage (sync_hot_index i m) = sm_usage m"
  "sm_shared_refs (sync_hot_index i m) = sm_shared_refs m"
  "sm_cold_gc (sync_hot_index i m) = sm_cold_gc m"
  "sm_hot_payload_bytes (sync_hot_index i m) = sm_hot_payload_bytes m"
  "sm_registry (retain_shared_cold_object p m) = sm_registry m"
  "sm_buckets (retain_shared_cold_object p m) = sm_buckets m"
  "sm_erased_buckets (retain_shared_cold_object p m) = sm_erased_buckets m"
  "sm_last_created_at_ms (retain_shared_cold_object p m) = sm_last_created_at_ms m"
  "sm_history (retain_shared_cold_object p m) = sm_history m"
  "sm_usage (retain_shared_cold_object p m) = sm_usage m"
  "sm_cold_gc (retain_shared_cold_object p m) = sm_cold_gc m"
  "sm_hot_payload_bytes (retain_shared_cold_object p m) = sm_hot_payload_bytes m"
  "sm_flush_planner (retain_shared_cold_object p m) = sm_flush_planner m"
  "sm_registry (release_shared_one b t p m) = sm_registry m"
  "sm_buckets (release_shared_one b t p m) = sm_buckets m"
  "sm_erased_buckets (release_shared_one b t p m) = sm_erased_buckets m"
  "sm_last_created_at_ms (release_shared_one b t p m) = sm_last_created_at_ms m"
  "sm_history (release_shared_one b t p m) = sm_history m"
  "sm_usage (release_shared_one b t p m) = sm_usage m"
  "sm_hot_payload_bytes (release_shared_one b t p m) = sm_hot_payload_bytes m"
  "sm_flush_planner (release_shared_one b t p m) = sm_flush_planner m"
  "sm_registry (record_created_at_ms t m) = sm_registry m"
  "sm_buckets (record_created_at_ms t m) = sm_buckets m"
  "sm_erased_buckets (record_created_at_ms t m) = sm_erased_buckets m"
  "sm_history (record_created_at_ms t m) = sm_history m"
  "sm_usage (record_created_at_ms t m) = sm_usage m"
  "sm_shared_refs (record_created_at_ms t m) = sm_shared_refs m"
  "sm_cold_gc (record_created_at_ms t m) = sm_cold_gc m"
  "sm_hot_payload_bytes (record_created_at_ms t m) = sm_hot_payload_bytes m"
  "sm_flush_planner (record_created_at_ms t m) = sm_flush_planner m"
  "sm_registry (record_folded r m) = sm_registry m"
  "sm_buckets (record_folded r m) = sm_buckets m"
  "sm_erased_buckets (record_folded r m) = sm_erased_buckets m"
  "sm_last_created_at_ms (record_folded r m) = sm_last_created_at_ms m"
  "sm_history (record_folded r m) = sm_history m"
  "sm_usage (record_folded r m) = sm_usage m"
  "sm_shared_refs (record_folded r m) = sm_shared_refs m"
  "sm_cold_gc (record_folded r m) = sm_cold_gc m"
  "sm_hot_payload_bytes (record_folded r m) = sm_hot_payload_bytes m"
  "sm_flush_planner (record_folded r m) = sm_flush_planner m"
  "sm_registry (record_removed s m) = sm_registry m"
  "sm_buckets (record_removed s m) = sm_buckets m"
  "sm_erased_buckets (record_removed s m) = sm_erased_buckets m"
  "sm_last_created_at_ms (record_removed s m) = sm_last_created_at_ms m"
  "sm_history (record_removed s m) = sm_history m"
  "sm_usage (record_removed s m) = sm_usage m"
  "sm_shared_refs (record_removed s m) = sm_shared_refs m"
  "sm_cold_gc (record_removed s m) = sm_cold_gc m"
  "sm_hot_payload_bytes (record_removed s m) = sm_hot_payload_bytes m"
  "sm_flush_planner (record_removed s m) = sm_flush_planner m"
  "sm_registry (fold_early m) = sm_registry m"
  "sm_buckets (fold_early m) = sm_buckets m"
  "sm_erased_buckets (fold_early m) = sm_erased_buckets m"
  "sm_last_created_at_ms (fold_early m) = sm_last_created_at_ms m"
  "sm_history (fold_early m) = sm_history m"
  "sm_shared_refs (fold_early m) = sm_shared_refs m"
  "sm_cold_gc (fold_early m) = sm_cold_gc m"
  "sm_hot_payload_bytes (fold_early m) = sm_hot_payload_bytes m"
  "sm_flush_planner (fold_early m) = sm_flush_planner m"
  "sm_registry (usage_on_end s e now m) = sm_registry m"
  "sm_buckets (usage_on_end s e now m) = sm_buckets m"
  "sm_erased_buckets (usage_on_end s e now m) = sm_erased_buckets m"
  "sm_last_created_at_ms (usage_on_end s e now m) = sm_last_created_at_ms m"
  "sm_history (usage_on_end s e now m) = sm_history m"
  "sm_shared_refs (usage_on_end s e now m) = sm_shared_refs m"
  "sm_cold_gc (usage_on_end s e now m) = sm_cold_gc m"
  "sm_hot_payload_bytes (usage_on_end s e now m) = sm_hot_payload_bytes m"
  "sm_flush_planner (usage_on_end s e now m) = sm_flush_planner m"
  by (simp_all add: add_hot_payload_bytes_def remove_hot_payload_bytes_def sync_hot_index_def retain_shared_cold_object_def release_shared_one_def record_created_at_ms_def record_folded_def record_removed_def fold_early_def usage_on_end_def restamp_version_def
      Let_def split: option.splits prod.splits)

lemma frame_registry [simp]:
  "sm_buckets (modify_stream_slot i f m) = sm_buckets m"
  "sm_erased_buckets (modify_stream_slot i f m) = sm_erased_buckets m"
  "sm_last_created_at_ms (modify_stream_slot i f m) = sm_last_created_at_ms m"
  "sm_history (modify_stream_slot i f m) = sm_history m"
  "sm_usage (modify_stream_slot i f m) = sm_usage m"
  "sm_shared_refs (modify_stream_slot i f m) = sm_shared_refs m"
  "sm_cold_gc (modify_stream_slot i f m) = sm_cold_gc m"
  "sm_hot_payload_bytes (modify_stream_slot i f m) = sm_hot_payload_bytes m"
  "sm_flush_planner (modify_stream_slot i f m) = sm_flush_planner m"
  "sm_buckets (modify_stream_metadata i g m) = sm_buckets m"
  "sm_erased_buckets (modify_stream_metadata i g m) = sm_erased_buckets m"
  "sm_last_created_at_ms (modify_stream_metadata i g m) = sm_last_created_at_ms m"
  "sm_history (modify_stream_metadata i g m) = sm_history m"
  "sm_usage (modify_stream_metadata i g m) = sm_usage m"
  "sm_shared_refs (modify_stream_metadata i g m) = sm_shared_refs m"
  "sm_cold_gc (modify_stream_metadata i g m) = sm_cold_gc m"
  "sm_hot_payload_bytes (modify_stream_metadata i g m) = sm_hot_payload_bytes m"
  "sm_flush_planner (modify_stream_metadata i g m) = sm_flush_planner m"
  "sm_buckets (refresh_ttl_entry i m) = sm_buckets m"
  "sm_erased_buckets (refresh_ttl_entry i m) = sm_erased_buckets m"
  "sm_last_created_at_ms (refresh_ttl_entry i m) = sm_last_created_at_ms m"
  "sm_history (refresh_ttl_entry i m) = sm_history m"
  "sm_usage (refresh_ttl_entry i m) = sm_usage m"
  "sm_shared_refs (refresh_ttl_entry i m) = sm_shared_refs m"
  "sm_cold_gc (refresh_ttl_entry i m) = sm_cold_gc m"
  "sm_hot_payload_bytes (refresh_ttl_entry i m) = sm_hot_payload_bytes m"
  "sm_flush_planner (refresh_ttl_entry i m) = sm_flush_planner m"
  "sm_buckets (inherit_history i m) = sm_buckets m"
  "sm_erased_buckets (inherit_history i m) = sm_erased_buckets m"
  "sm_last_created_at_ms (inherit_history i m) = sm_last_created_at_ms m"
  "sm_history (inherit_history i m) = sm_history m"
  "sm_usage (inherit_history i m) = sm_usage m"
  "sm_shared_refs (inherit_history i m) = sm_shared_refs m"
  "sm_cold_gc (inherit_history i m) = sm_cold_gc m"
  "sm_hot_payload_bytes (inherit_history i m) = sm_hot_payload_bytes m"
  "sm_flush_planner (inherit_history i m) = sm_flush_planner m"
  "sm_buckets (enforce_producer_cap i now m) = sm_buckets m"
  "sm_erased_buckets (enforce_producer_cap i now m) = sm_erased_buckets m"
  "sm_last_created_at_ms (enforce_producer_cap i now m) = sm_last_created_at_ms m"
  "sm_history (enforce_producer_cap i now m) = sm_history m"
  "sm_usage (enforce_producer_cap i now m) = sm_usage m"
  "sm_shared_refs (enforce_producer_cap i now m) = sm_shared_refs m"
  "sm_cold_gc (enforce_producer_cap i now m) = sm_cold_gc m"
  "sm_hot_payload_bytes (enforce_producer_cap i now m) = sm_hot_payload_bytes m"
  "sm_flush_planner (enforce_producer_cap i now m) = sm_flush_planner m"
  "sm_buckets (expire_idle_producer i p now m) = sm_buckets m"
  "sm_erased_buckets (expire_idle_producer i p now m) = sm_erased_buckets m"
  "sm_last_created_at_ms (expire_idle_producer i p now m) = sm_last_created_at_ms m"
  "sm_history (expire_idle_producer i p now m) = sm_history m"
  "sm_usage (expire_idle_producer i p now m) = sm_usage m"
  "sm_shared_refs (expire_idle_producer i p now m) = sm_shared_refs m"
  "sm_cold_gc (expire_idle_producer i p now m) = sm_cold_gc m"
  "sm_hot_payload_bytes (expire_idle_producer i p now m) = sm_hot_payload_bytes m"
  "sm_flush_planner (expire_idle_producer i p now m) = sm_flush_planner m"
  "sm_buckets (restamp_stream i u m) = sm_buckets m"
  "sm_erased_buckets (restamp_stream i u m) = sm_erased_buckets m"
  "sm_last_created_at_ms (restamp_stream i u m) = sm_last_created_at_ms m"
  "sm_history (restamp_stream i u m) = sm_history m"
  "sm_shared_refs (restamp_stream i u m) = sm_shared_refs m"
  "sm_cold_gc (restamp_stream i u m) = sm_cold_gc m"
  "sm_hot_payload_bytes (restamp_stream i u m) = sm_hot_payload_bytes m"
  "sm_flush_planner (restamp_stream i u m) = sm_flush_planner m"
  "sm_buckets (usage_on_append i n c now m) = sm_buckets m"
  "sm_erased_buckets (usage_on_append i n c now m) = sm_erased_buckets m"
  "sm_last_created_at_ms (usage_on_append i n c now m) = sm_last_created_at_ms m"
  "sm_history (usage_on_append i n c now m) = sm_history m"
  "sm_shared_refs (usage_on_append i n c now m) = sm_shared_refs m"
  "sm_cold_gc (usage_on_append i n c now m) = sm_cold_gc m"
  "sm_hot_payload_bytes (usage_on_append i n c now m) = sm_hot_payload_bytes m"
  "sm_flush_planner (usage_on_append i n c now m) = sm_flush_planner m"
  "sm_buckets (usage_on_size_change i m) = sm_buckets m"
  "sm_erased_buckets (usage_on_size_change i m) = sm_erased_buckets m"
  "sm_last_created_at_ms (usage_on_size_change i m) = sm_last_created_at_ms m"
  "sm_history (usage_on_size_change i m) = sm_history m"
  "sm_shared_refs (usage_on_size_change i m) = sm_shared_refs m"
  "sm_cold_gc (usage_on_size_change i m) = sm_cold_gc m"
  "sm_hot_payload_bytes (usage_on_size_change i m) = sm_hot_payload_bytes m"
  "sm_flush_planner (usage_on_size_change i m) = sm_flush_planner m"
  "sm_buckets (fst (record_producer_success i p key adv receipt now m)) = sm_buckets m"
  "sm_erased_buckets (fst (record_producer_success i p key adv receipt now m)) = sm_erased_buckets m"
  "sm_last_created_at_ms (fst (record_producer_success i p key adv receipt now m)) = sm_last_created_at_ms m"
  "sm_history (fst (record_producer_success i p key adv receipt now m)) = sm_history m"
  "sm_usage (fst (record_producer_success i p key adv receipt now m)) = sm_usage m"
  "sm_shared_refs (fst (record_producer_success i p key adv receipt now m)) = sm_shared_refs m"
  "sm_cold_gc (fst (record_producer_success i p key adv receipt now m)) = sm_cold_gc m"
  "sm_hot_payload_bytes (fst (record_producer_success i p key adv receipt now m)) = sm_hot_payload_bytes m"
  "sm_flush_planner (fst (record_producer_success i p key adv receipt now m)) = sm_flush_planner m"
  by (simp_all add: modify_stream_slot_def modify_stream_metadata_def refresh_ttl_entry_def inherit_history_def enforce_producer_cap_def expire_idle_producer_def restamp_stream_def usage_on_append_def usage_on_size_change_def record_producer_success_def restamp_version_def
      Let_def split: option.splits prod.splits)


lemma release_frame [simp]:
  "sm_registry (release_shared_cold_objects b ps t m) = sm_registry m"
  "sm_buckets (release_shared_cold_objects b ps t m) = sm_buckets m"
  "sm_erased_buckets (release_shared_cold_objects b ps t m) = sm_erased_buckets m"
  "sm_last_created_at_ms (release_shared_cold_objects b ps t m) = sm_last_created_at_ms m"
  "sm_history (release_shared_cold_objects b ps t m) = sm_history m"
  "sm_usage (release_shared_cold_objects b ps t m) = sm_usage m"
  "sm_hot_payload_bytes (release_shared_cold_objects b ps t m) = sm_hot_payload_bytes m"
  "sm_flush_planner (release_shared_cold_objects b ps t m) = sm_flush_planner m"
  by (induction ps arbitrary: m) (simp_all add: release_shared_cold_objects_def)

lemma history_id_cong: "sm_history m' = sm_history m \<Longrightarrow> history_id m' = history_id m"
  by (simp add: history_id_def)

section \<open>Lookups\<close>

text \<open>A machine whose registry is in order.\<close>

definition machine_ok :: "stream_state_machine \<Rightarrow> bool" where
  "machine_ok m \<longleftrightarrow> reg_inv (sm_registry m)"

lemma machine_ok_struct: "machine_ok m \<Longrightarrow> reg_struct_inv (sm_registry m)"
  by (simp add: machine_ok_def reg_inv_def)

lemma machine_ok_cong: "sm_registry m' = sm_registry m \<Longrightarrow> machine_ok m' = machine_ok m"
  by (simp add: machine_ok_def)

lemma lookup_cong: "sm_registry m' = sm_registry m \<Longrightarrow> stream_slot_of m' = stream_slot_of m"
  by (simp add: stream_slot_of_def fun_eq_iff)

lemma lookup_id: "machine_ok m \<Longrightarrow> stream_slot_of m i = Some s \<Longrightarrow> slot_stream_id s = i"
  using rt.look_id[OF machine_ok_struct] by (simp add: stream_slot_of_def)

lemma stream_metadata_of_slot: "stream_metadata_of m i = map_option slot_metadata (stream_slot_of m i)"
  by (simp add: stream_metadata_of_def stream_slot_of_def reg_metadata_def)

lemma slot_values_lookup:
  "machine_ok m \<Longrightarrow> s \<in> set (reg_slot_values (sm_registry m)) \<longleftrightarrow> stream_slot_of m (slot_stream_id s) = Some s"
  using reg_slot_values_iff[OF machine_ok_struct] by (simp add: stream_slot_of_def)

lemma lookup_modify:
  assumes "machine_ok m"
  shows "stream_slot_of (modify_stream_slot i f m) = (stream_slot_of m)(i := map_option f (stream_slot_of m i))"
  using reg_slot_modify[OF machine_ok_struct[OF assms]] by (auto simp: stream_slot_of_def modify_stream_slot_def)

lemma expiry_not_earlier_refl [simp]: "expiry_not_earlier s s"
  by (auto simp: expiry_not_earlier_def)

lemma modify_ok:
  assumes "machine_ok m" "\<And>s. slot_stream_id (f s) = slot_stream_id s" "\<And>s. expiry_not_earlier s (f s)"
  shows "machine_ok (modify_stream_slot i f m)"
  using assms ttl_inv_modify(2)[of "sm_registry m" "{}" f i] reg_struct_modify[of "sm_registry m" f i]
  by (simp add: machine_ok_def reg_inv_def modify_stream_slot_def)

text \<open>Writes that leave the metadata alone.\<close>

lemma modify_ok_metadata:
  assumes "machine_ok m" "\<And>s. slot_metadata (f s) = slot_metadata s"
  shows "machine_ok (modify_stream_slot i f m)"
  using assms by (intro modify_ok) (simp_all add: slot_stream_id_def expiry_not_earlier_def)

lemma lookup_refresh [simp]: "stream_slot_of (refresh_ttl_entry i m) = stream_slot_of m"
  using reg_slot_cong[of "refresh_ttl i (sm_registry m)" "sm_registry m"]
  by (simp add: stream_slot_of_def refresh_ttl_entry_def fun_eq_iff)

lemma ttl_inv_weaken: "ttl_inv_except X reg \<Longrightarrow> X \<subseteq> Y \<Longrightarrow> ttl_inv_except Y reg"
  unfolding ttl_inv_except_def by blast

lemma refresh_ok: "machine_ok m \<Longrightarrow> machine_ok (refresh_ttl_entry i m)"
  using ttl_inv_refresh[of "sm_registry m" i "{}"] ttl_inv_weaken[of "{}" "sm_registry m" "{i}"]
  by (simp add: machine_ok_def reg_inv_def refresh_ttl_entry_def)

lemma lookup_remove:
  assumes "reg_struct_inv (sm_registry m)"
  shows "stream_slot_of (fst (remove_stream_state i e now m)) = (stream_slot_of m)(i := None)"
    and "sm_registry (fst (remove_stream_state i e now m)) = fst (reg_remove i (sm_registry m))"
    and "snd (remove_stream_state i e now m) \<longleftrightarrow> stream_slot_of m i \<noteq> None"
proof -
  show reg: "sm_registry (fst (remove_stream_state i e now m)) = fst (reg_remove i (sm_registry m))"
    by (auto simp: remove_stream_state_def Let_def split: prod.splits option.splits)
  show "stream_slot_of (fst (remove_stream_state i e now m)) = (stream_slot_of m)(i := None)"
    using rt.drop_law[OF assms, of i] by (simp add: stream_slot_of_def[abs_def] reg)
  show "snd (remove_stream_state i e now m) \<longleftrightarrow> stream_slot_of m i \<noteq> None"
    using reg_slot_remove(2)[OF assms, of i]
    by (cases "reg_remove i (sm_registry m)"; cases "reg_slot (sm_registry m) i")
      (simp_all add: remove_stream_state_def stream_slot_of_def Let_def)
qed

lemma remove_ok: "machine_ok m \<Longrightarrow> machine_ok (fst (remove_stream_state i e now m))"
  using reg_remove_inv[of "sm_registry m" "{}" i] by (simp add: machine_ok_def reg_inv_def lookup_remove(2))

text \<open>The turn of a sweep: the front of the index is popped and its stream removed.\<close>

lemma pop_remove:
  assumes ok: "machine_ok m" and pop: "pop_expired now (sm_registry m) = (reg, Some i)"
  shows "machine_ok (fst (remove_stream_state i e t (m\<lparr> sm_registry := reg \<rparr>)))"
    and "stream_slot_of (m\<lparr> sm_registry := reg \<rparr>) = stream_slot_of m"
    and "\<exists>s. stream_slot_of m i = Some s \<and> stream_is_expired (slot_metadata s) now"
    and "reg_struct_inv reg"
proof -
  have p: "pop_ok now (sm_registry m) reg (Some i)"
    using pop_expired_ok[of "sm_registry m" now] ok pop by (simp add: machine_ok_def reg_inv_def)
  have st: "reg_struct_inv reg"
    using p machine_ok_struct[OF ok] reg_struct_cong[of reg "sm_registry m"] by (simp add: pop_ok_def)
  then show "reg_struct_inv reg" .
  show "machine_ok (fst (remove_stream_state i e t (m\<lparr> sm_registry := reg \<rparr>)))"
    using p reg_remove_inv[OF st, of "{i}" i] st by (simp add: machine_ok_def reg_inv_def lookup_remove(2) pop_ok_def)
  show same: "stream_slot_of (m\<lparr> sm_registry := reg \<rparr>) = stream_slot_of m"
    using p reg_slot_cong[of reg "sm_registry m"] by (simp add: pop_ok_def stream_slot_of_def fun_eq_iff)
  show "\<exists>s. stream_slot_of m i = Some s \<and> stream_is_expired (slot_metadata s) now"
    using p by (auto simp: pop_ok_def next_expired_def stream_slot_of_def)
qed

lemma pop_none:
  assumes ok: "machine_ok m" and pop: "pop_expired now (sm_registry m) = (reg, None)"
  shows "machine_ok (m\<lparr> sm_registry := reg \<rparr>)"
    and "stream_slot_of (m\<lparr> sm_registry := reg \<rparr>) = stream_slot_of m"
    and "stream_slot_of m i = Some s \<Longrightarrow> \<not> stream_is_expired (slot_metadata s) now"
proof -
  have p: "pop_ok now (sm_registry m) reg None"
    using pop_expired_ok[of "sm_registry m" now] ok pop by (simp add: machine_ok_def reg_inv_def)
  then show "machine_ok (m\<lparr> sm_registry := reg \<rparr>)"
    using machine_ok_struct[OF ok] reg_struct_cong[of reg "sm_registry m"] by (simp add: pop_ok_def machine_ok_def reg_inv_def)
  show "stream_slot_of (m\<lparr> sm_registry := reg \<rparr>) = stream_slot_of m"
    using p reg_slot_cong[of reg "sm_registry m"] by (simp add: pop_ok_def stream_slot_of_def fun_eq_iff)
  show "stream_slot_of m i = Some s \<Longrightarrow> \<not> stream_is_expired (slot_metadata s) now"
    using p by (auto simp: pop_ok_def next_expired_def stream_slot_of_def)
qed

lemma lookup_restamp:
  assumes "machine_ok m"
  shows "\<exists>g. stream_slot_of (restamp_stream i u m) =
           (stream_slot_of m)(i := map_option (\<lambda>s. s\<lparr> slot_usage := (u (slot_usage s))\<lparr> vu_seq := g \<rparr> \<rparr>) (stream_slot_of m i))"
    and "machine_ok (restamp_stream i u m)"
proof -
  have some: "stream_slot_of m i = (case map_of (reg_keys (sm_registry m)) i of
      None \<Rightarrow> None | Some k \<Rightarrow> map_of (reg_slots (sm_registry m)) k)"
    by (simp add: stream_slot_of_def reg_slot_def)
  have up: "lookup = lookup(i := map_option f (lookup i))" if "lookup i = None"
    for lookup :: "bucket_stream_id \<Rightarrow> stream_slot option" and f using that by auto
  show "\<exists>g. stream_slot_of (restamp_stream i u m) =
           (stream_slot_of m)(i := map_option (\<lambda>s. s\<lparr> slot_usage := (u (slot_usage s))\<lparr> vu_seq := g \<rparr> \<rparr>) (stream_slot_of m i))"
  proof (cases "stream_slot_of m i")
    case None
    then have "restamp_stream i u m = m" using some by (auto simp: restamp_stream_def split: option.splits)
    then show ?thesis using up[of "stream_slot_of m"] None by auto
  next
    case (Some s)
    then obtain k where k: "map_of (reg_keys (sm_registry m)) i = Some k" "map_of (reg_slots (sm_registry m)) k = Some s"
      using some by (auto split: option.splits)
    obtain l v where lv: "restamp_version (u (slot_usage s)) k (sm_usage m) = (l, v)" by fastforce
    then obtain g where v: "v = (u (slot_usage s))\<lparr> vu_seq := g \<rparr>" by (auto simp: restamp_version_def split: prod.splits)
    have ok': "machine_ok (m\<lparr> sm_usage := l \<rparr>)" using assms by (simp add: machine_ok_def)
    have same: "stream_slot_of (m\<lparr> sm_usage := l \<rparr>) = stream_slot_of m" by (rule lookup_cong) simp
    have "restamp_stream i u m = modify_stream_slot i (\<lambda>s. s\<lparr> slot_usage := v \<rparr>) (m\<lparr> sm_usage := l \<rparr>)"
      using k lv by (simp add: restamp_stream_def)
    then show ?thesis using lookup_modify[OF ok', of i "\<lambda>s. s\<lparr> slot_usage := v \<rparr>"] Some v same by auto
  qed
  show "machine_ok (restamp_stream i u m)"
    using assms modify_ok_metadata[of "m\<lparr> sm_usage := l \<rparr>" "\<lambda>s. s\<lparr> slot_usage := v \<rparr>" i for l v]
    by (auto simp: restamp_stream_def machine_ok_cong[of "m\<lparr> sm_usage := l \<rparr>" m for l] split: option.splits prod.splits)
qed

end
