(* ===== verification/Kernel.thy ===== *)
theory Kernel
  imports Machine_Frame
begin

text \<open>
  Every command of the state machine is a sequence of a few kinds of steps, each a function of the
  code under the conditions the code has checked by then. The relation \<open>kstep\<close> lists the kinds; the
  invariants of the machine are proved for them once, and \<open>apply_checked_steps\<close> shows that every
  command is such a sequence.
\<close>

section \<open>Parts of a slot\<close>

text \<open>A slot without its producer records.\<close>

definition slot_body :: "stream_slot \<Rightarrow> stream_slot" where
  "slot_body s = s\<lparr> slot_producers := [], slot_retired_epoch_watermark := None \<rparr>"

lemma slot_bodyD:
  assumes "slot_body s' = slot_body s"
  shows "slot_metadata s' = slot_metadata s" "slot_hot_buffer s' = slot_hot_buffer s" "slot_cold s' = slot_cold s"
    "slot_retained_offset s' = slot_retained_offset s" "slot_visible_snapshot s' = slot_visible_snapshot s"
    "slot_history s' = slot_history s" "slot_inherited s' = slot_inherited s" "slot_usage s' = slot_usage s"
  using assms by (cases s; cases s'; simp add: slot_body_def)+

lemma retire_body [simp]: "slot_body (retire_producer p s) = slot_body s"
  by (simp add: retire_producer_def slot_body_def split: option.split)

lemma fold_retire_body [simp]: "slot_body (fold retire_producer ps s) = slot_body s"
  by (induction ps arbitrary: s) simp_all

lemma producer_ops_body [simp]:
  "slot_body (evict_producers_over_cap now n s) = slot_body s"
  "slot_body (slot_expire_idle p now s) = slot_body s"
  "slot_body (slot_tidy now s) = slot_body s"
  "slot_body (fst (slot_record_success h p key adv r now s)) = slot_body s"
  by (simp_all add: evict_producers_over_cap_def slot_expire_idle_def slot_tidy_def slot_record_success_def Let_def
      split: advance_kind.split option.split) (simp_all add: slot_body_def)

text \<open>What a committed write leaves of the slot it found: everything but the metadata, the producer
  records and what the stream inherits from an earlier history.\<close>

definition committed :: "stream_slot \<Rightarrow> u64 \<Rightarrow> string option \<Rightarrow> bool \<Rightarrow> u64 \<Rightarrow> stream_slot \<Rightarrow> bool" where
  "committed s len stream_seq close_after now s' \<longleftrightarrow>
     slot_metadata s' = written_metadata len stream_seq close_after now (slot_metadata s) \<and>
     slot_hot_buffer s' = slot_hot_buffer s \<and> slot_cold s' = slot_cold s \<and>
     slot_retained_offset s' = slot_retained_offset s \<and> slot_visible_snapshot s' = slot_visible_snapshot s \<and>
     vu_seq (slot_usage s') = vu_seq (slot_usage s) \<and> vu_counters (slot_usage s') = vu_counters (slot_usage s)"

lemma renew_simps [simp]:
  "md_stream_id (renew_stream_ttl now md) = md_stream_id md"
  "md_content_type (renew_stream_ttl now md) = md_content_type md"
  "md_status (renew_stream_ttl now md) = md_status md"
  "md_tail_offset (renew_stream_ttl now md) = md_tail_offset md"
  "md_created_at_ms (renew_stream_ttl now md) = md_created_at_ms md"
  "md_stream_ttl_seconds (renew_stream_ttl now md) = md_stream_ttl_seconds md"
  "md_stream_expires_at_ms (renew_stream_ttl now md) = md_stream_expires_at_ms md"
  by (simp_all add: renew_stream_ttl_def)

lemma written_simps [simp]:
  "md_stream_id (written_metadata len q close_after now md) = md_stream_id md"
  "md_content_type (written_metadata len q close_after now md) = md_content_type md"
  "md_tail_offset (written_metadata len q close_after now md) = sat_add (md_tail_offset md) len"
  "md_created_at_ms (written_metadata len q close_after now md) = md_created_at_ms md"
  by (simp_all add: written_metadata_def Let_def split: option.split)

lemma expiry_renewed:
  "stream_expiry_at_ms (renew_stream_ttl now md) = Some e' \<Longrightarrow> \<exists>e \<le> e'. stream_expiry_at_ms md = Some e"
  by (auto simp: stream_expiry_at_ms_def renew_stream_ttl_def split: option.splits if_splits intro: sat_add_mono[OF _ order_refl])

lemma expiry_written:
  "stream_expiry_at_ms (written_metadata len q close_after now md) = Some e' \<Longrightarrow> \<exists>e \<le> e'. stream_expiry_at_ms md = Some e"
  using expiry_renewed[of now "md\<lparr> md_tail_offset := t, md_last_stream_seq := x \<rparr>" e' for t x]
    expiry_renewed[of now "md\<lparr> md_tail_offset := t \<rparr>" e' for t]
  by (auto simp: written_metadata_def Let_def stream_expiry_at_ms_def split: option.splits if_splits)

section \<open>Committing a write\<close>

lemma commit_write_effect:
  assumes ok: "machine_ok m" and s: "stream_slot_of m i = Some s" and md: "md = slot_metadata s"
    and c: "commit_write i md len q close_after producer gate now m = (m1, off, nxt, ack)"
  shows "machine_ok m1" "off = md_tail_offset md" "nxt = sat_add (md_tail_offset md) len"
    and "\<exists>s1. stream_slot_of m1 = (stream_slot_of m)(i \<mapsto> s1) \<and> committed s len q close_after now s1"
    and "m1 = m\<lparr> sm_registry := sm_registry m1 \<rparr>"
proof -
  define ma where "ma = inherit_history i m"
  define mb where "mb = modify_stream_metadata i (written_metadata len q close_after now) ma"
  define mc where "mc = refresh_ttl_entry i mb"
  define s1 where "s1 = slot_inherit_history (history_id m) s"
  define s2 where "s2 = s1\<lparr> slot_metadata := written_metadata len q close_after now (slot_metadata s1) \<rparr>"
  have ok_a: "machine_ok ma" unfolding ma_def inherit_history_def
    by (rule modify_ok_metadata[OF ok]) (simp add: slot_inherit_history_def)
  have ok_b: "machine_ok mb" unfolding mb_def modify_stream_metadata_def
    by (rule modify_ok[OF ok_a]) (auto simp: slot_stream_id_def expiry_not_earlier_def dest: expiry_written)
  have ok_c: "machine_ok mc" unfolding mc_def by (rule refresh_ok[OF ok_b])
  have la: "stream_slot_of ma = (stream_slot_of m)(i \<mapsto> s1)"
    unfolding ma_def inherit_history_def using lookup_modify[OF ok] s by (simp add: s1_def)
  have lc: "stream_slot_of mc = (stream_slot_of m)(i \<mapsto> s2)"
    unfolding mc_def mb_def modify_stream_metadata_def using lookup_modify[OF ok_a] la by (simp add: s2_def)
  have com: "committed s len q close_after now s2"
    by (simp add: committed_def s2_def s1_def slot_inherit_history_def)
  have com': "committed s len q close_after now s'" if "slot_body s' = slot_body s2" for s'
    using com slot_bodyD[OF that] by (simp add: committed_def)
  have reg: "mc = m\<lparr> sm_registry := sm_registry mc \<rparr>"
    by (simp add: mc_def mb_def ma_def refresh_ttl_entry_def modify_stream_metadata_def modify_stream_slot_def inherit_history_def)
  show "off = md_tail_offset md" "nxt = sat_add (md_tail_offset md) len"
    using c by (auto simp: commit_write_def Let_def record_producer_success_def split: option.splits prod.splits)
  consider "m1 = mc" | p key adv r where
    "m1 = modify_stream_slot i (\<lambda>x. fst (slot_record_success (history_id mc) p key adv r now x)) mc"
    using c unfolding commit_write_def Let_def record_producer_success_def mc_def mb_def ma_def
    by (auto split: option.splits prod.splits)
  then have "machine_ok m1 \<and> (\<exists>s1. stream_slot_of m1 = (stream_slot_of m)(i \<mapsto> s1) \<and> committed s len q close_after now s1) \<and>
      m1 = m\<lparr> sm_registry := sm_registry m1 \<rparr>"
  proof cases
    case 1
    then show ?thesis using ok_c lc com reg by auto
  next
    case (2 p key adv r)
    let ?f = "\<lambda>x. fst (slot_record_success (history_id mc) p key adv r now x)"
    have body: "slot_body (?f x) = slot_body x" for x by simp
    have "machine_ok m1" unfolding 2 by (rule modify_ok_metadata[OF ok_c]) (rule slot_bodyD(1)[OF body])
    moreover have "stream_slot_of m1 = (stream_slot_of m)(i \<mapsto> ?f s2)" unfolding 2 using lookup_modify[OF ok_c] lc by simp
    moreover have "m1 = m\<lparr> sm_registry := sm_registry m1 \<rparr>" unfolding 2
      by (subst (1) reg) (simp add: modify_stream_slot_def)
    ultimately show ?thesis using com'[OF body] by blast
  qed
  then show "machine_ok m1" "\<exists>s1. stream_slot_of m1 = (stream_slot_of m)(i \<mapsto> s1) \<and> committed s len q close_after now s1"
    "m1 = m\<lparr> sm_registry := sm_registry m1 \<rparr>" by blast+
qed

section \<open>The steps\<close>

text \<open>The updates a flush, a retention and a shared compaction make once their checks passed.\<close>

definition flush_effect :: "bucket_stream_id \<Rightarrow> cold_chunk_ref \<Rightarrow> stream_state_machine \<Rightarrow> stream_state_machine" where
  "flush_effect i chunk m =
     (let m1 = shrink_hot i (flush_prefix (cc_end_offset chunk)) m;
          m2 = modify_stream_slot i (\<lambda>s. s\<lparr> slot_cold := push_cold_chunk chunk (slot_cold s) \<rparr>) m1;
          m3 = sync_hot_index i m2
      in if cc_shared_object chunk then retain_shared_cold_object (cc_s3_path chunk) m3 else m3)"

definition retain_effect :: "bucket_stream_id \<Rightarrow> u64 \<Rightarrow> u64 \<Rightarrow> stream_state_machine \<Rightarrow> stream_state_machine" where
  "retain_effect i r t m =
     compact_retained_prefix i r t
       (usage_on_size_change i (modify_stream_slot i (\<lambda>s. s\<lparr> slot_retained_offset := r \<rparr>) m))"

definition drop_shared :: "bucket_stream_id \<Rightarrow> cold_chunk_ref list \<Rightarrow> stream_state_machine \<Rightarrow> stream_state_machine" where
  "drop_shared i old m =
     modify_stream_slot i (\<lambda>s. s\<lparr> slot_cold := fst (remove_shared_chunks old (slot_cold s)) \<rparr>) m"

text \<open>The parts a create starts a stream with.\<close>

definition fresh_parts :: "stream_metadata \<Rightarrow> hot_buffer \<Rightarrow> stream_cold_state \<Rightarrow> bool" where
  "fresh_parts md hot cold \<longleftrightarrow>
     (\<exists>payload. hot = from_payload 0 payload \<and> md_tail_offset md = length payload \<and>
        cold = with_generation (md_created_at_ms md)) \<or>
     (\<exists>obj. hot = empty_hot_buffer \<and> cold = push_direct_external_segment obj (with_generation (md_created_at_ms md)) \<and>
        op_start_offset obj = 0 \<and> op_end_offset obj = md_tail_offset md \<and> valid_object_payload_ref obj)"

text \<open>References to shared packs below the hot bytes, as a flush leaves them.\<close>

definition cold_sound :: "cold_chunk_ref list \<Rightarrow> hot_buffer \<Rightarrow> u64 \<Rightarrow> bool" where
  "cold_sound refs h tail \<longleftrightarrow> distinct refs \<and>
     (\<forall>c \<in> set refs. cc_shared_object c \<and> valid_cold_chunk_ref c \<and> cc_end_offset c \<le> tail \<and>
        (\<forall>b \<in> set (hot_blocks h). cc_end_offset c \<le> hb_start_offset b))"

text \<open>The tail of an entry of a backup fits 64 bits, as the field that holds it does; and the references
  of an entry are as a group writes them, which an import does not check.\<close>

definition entry_ranged :: "stream_snapshot_entry \<Rightarrow> bool" where
  "entry_ranged e \<longleftrightarrow> md_tail_offset (se_metadata e) \<le> u64_max"

definition entry_sound :: "stream_snapshot_entry \<Rightarrow> bool" where
  "entry_sound e \<longleftrightarrow>
     cold_sound (se_cold_chunks e) (from_snapshot (se_payload e) (se_hot_segments e)) (md_tail_offset (se_metadata e))"

text \<open>The steps, over what is known of the entries that are imported (\<open>imp\<close>).\<close>

inductive kstep ::
  "(byte list \<Rightarrow> byte list) \<Rightarrow> (stream_snapshot_entry \<Rightarrow> bool) \<Rightarrow> stream_state_machine \<Rightarrow> stream_state_machine \<Rightarrow> bool"
  for b3 imp where
  bucket: "b \<notin> sm_erased_buckets m \<Longrightarrow> kstep b3 imp m (m\<lparr> sm_buckets := insert b (sm_buckets m) \<rparr>)"
| gc: "kstep b3 imp m (m\<lparr> sm_cold_gc := gc_step op (sm_cold_gc m) \<rparr>)"
| producers: "(\<And>s. slot_body (f s) = slot_body s) \<Longrightarrow> kstep b3 imp m (modify_stream_slot i f m)"
| renew: "kstep b3 imp m (modify_stream_metadata i (renew_stream_ttl now) m)"
| refresh: "kstep b3 imp m (refresh_ttl_entry i m)"
| remove: "stream_slot_of m i = Some s \<Longrightarrow> kstep b3 imp m (fst (remove_stream_state i e now m))"
| expire: "pop_expired now (sm_registry m) = (reg, Some i) \<Longrightarrow>
    kstep b3 imp m (fst (remove_stream_state i e now (m\<lparr> sm_registry := reg \<rparr>)))"
| pop: "pop_expired now (sm_registry m) = (reg, None) \<Longrightarrow> kstep b3 imp m (m\<lparr> sm_registry := reg \<rparr>)"
| commit: "stream_slot_of m i = Some s \<Longrightarrow> md_status (slot_metadata s) = Open \<Longrightarrow>
    commit_write i (slot_metadata s) 0 q close_after producer gate now m = (m1, off, nxt, ack) \<Longrightarrow> kstep b3 imp m m1"
| append: "stream_slot_of m i = Some s \<Longrightarrow> md_status (slot_metadata s) = Open \<Longrightarrow>
    md_tail_offset (slot_metadata s) + length payload \<le> u64_max \<Longrightarrow>
    commit_write i (slot_metadata s) (length payload) q close_after producer gate now m = (m1, off, nxt, ack) \<Longrightarrow>
    kstep b3 imp m (push_payload i off nxt payload mc now m1)"
| append_external: "stream_slot_of m (ax_stream_id input) = Some s \<Longrightarrow> md_status (slot_metadata s) = Open \<Longrightarrow>
    validate_external_payload_ref (ax_payload input) = None \<Longrightarrow>
    md_tail_offset (slot_metadata s) + ep_payload_len (ax_payload input) \<le> u64_max \<Longrightarrow>
    commit_write (ax_stream_id input) (slot_metadata s) (ep_payload_len (ax_payload input)) q close_after producer gate now m
      = (m1, off, nxt, ack) \<Longrightarrow>
    kstep b3 imp m (push_external input off nxt m1)"
| create: "sm_history m = Some h \<Longrightarrow> stream_slot_of m (md_stream_id md) = None \<Longrightarrow>
    bsi_bucket (md_stream_id md) \<in> sm_buckets m \<Longrightarrow> sm_last_created_at_ms m < md_created_at_ms md \<Longrightarrow>
    md_created_at_ms md \<le> max_created_at_ms \<Longrightarrow> fresh_parts md hot cold \<Longrightarrow> md_tail_offset md \<le> u64_max \<Longrightarrow>
    kstep b3 imp m (fst (install_created (he_id h) md hot cold mc now m))"
| publish: "stream_slot_of m i = Some s \<Longrightarrow> slot_retained_offset s \<le> vs_offset v \<Longrightarrow>
    vs_offset v \<le> md_tail_offset (slot_metadata s) \<Longrightarrow>
    (\<And>current. slot_visible_snapshot s = Some current \<Longrightarrow> vs_offset current < vs_offset v) \<Longrightarrow>
    kstep b3 imp m (publish_apply i s v now m)"
| retain: "stream_slot_of m i = Some s \<Longrightarrow> slot_retained_offset s < r \<Longrightarrow> slot_visible_snapshot s = Some v \<Longrightarrow>
    r \<le> vs_offset v \<Longrightarrow> kstep b3 imp m (retain_effect i r t m)"
| flush: "stream_slot_of m i = Some s \<Longrightarrow> check_chunk b3 chunk s = None \<Longrightarrow> trim (cc_s3_path chunk) \<noteq> [] \<Longrightarrow>
    (cc_shared_object chunk \<Longrightarrow> under_bucket (bsi_bucket i) (cc_s3_path chunk)) \<Longrightarrow> kstep b3 imp m (flush_effect i chunk m)"
| drop: "kstep b3 imp m (drop_shared i old m)"
| compact: "stream_slot_of m i = Some s \<Longrightarrow> snd (remove_shared_chunks old (slot_cold s)) \<Longrightarrow> list_all cc_shared_object old \<Longrightarrow>
    kstep b3 imp m (release_shared_cold_objects (bsi_bucket i) (map cc_s3_path old) t (drop_shared i old m))"
| offload: "kstep b3 imp m (modify_stream_slot i (\<lambda>s. s\<lparr> slot_cold := fst (remove_external_segments refs (slot_cold s)) \<rparr>) m)"
| fold_end: "fold_first_end_record (sm_usage m) = Some (l, r) \<Longrightarrow> kstep b3 imp m (record_folded r (m\<lparr> sm_usage := l \<rparr>))"
| erase: "(\<And>i. bsi_bucket i = b \<Longrightarrow> stream_slot_of m i = None) \<Longrightarrow>
    kstep b3 imp m (m\<lparr> sm_buckets := sm_buckets m - {b}, sm_erased_buckets := insert b (sm_erased_buckets m) \<rparr>)"
| history: "previous = history_id m \<Longrightarrow> kstep b3 imp m (fst (new_history index h previous kept leader now m))"
| import_step: "sm_buckets m = {} \<Longrightarrow> sm_erased_buckets m = {} \<Longrightarrow> reg_is_empty (sm_registry m) \<Longrightarrow>
    list_all entry_ranged (ss_streams snapshot) \<Longrightarrow> list_all imp (ss_streams snapshot) \<Longrightarrow>
    restore_counted_since (reg_key_seq (sm_registry m)) snapshot h = Inr restored \<Longrightarrow>
    kstep b3 imp m (imported_machine index h digest now m restored)"

inductive_cases kstep_cases: "kstep b3 imp m m'"

section \<open>Effects on the registry\<close>

lemma push_payload_effect:
  assumes ok: "machine_ok m" and s: "stream_slot_of m i = Some s"
  shows "machine_ok (push_payload i off nxt payload mc now m)"
    and "\<exists>g. stream_slot_of (push_payload i off nxt payload mc now m) = (stream_slot_of m)(i \<mapsto>
      s\<lparr> slot_hot_buffer := push off nxt payload (slot_hot_buffer s),
         slot_usage := (count_append (length payload) (appended_record_count mc (length payload)) now (slot_usage s))\<lparr> vu_seq := g \<rparr> \<rparr>)"
proof -
  let ?f = "\<lambda>s. s\<lparr> slot_hot_buffer := push off nxt payload (slot_hot_buffer s) \<rparr>"
  define m1 where "m1 = modify_stream_slot i ?f m"
  define m2 where "m2 = sync_hot_index i (add_hot_payload_bytes (length payload) m1)"
  have ok1: "machine_ok m1" unfolding m1_def by (rule modify_ok_metadata[OF ok]) simp
  have reg: "sm_registry m2 = sm_registry m1" by (simp add: m2_def)
  have ok2: "machine_ok m2" using ok1 machine_ok_cong[OF reg] by simp
  have l2: "stream_slot_of m2 = (stream_slot_of m)(i \<mapsto> ?f s)"
    using lookup_modify[OF ok, of i ?f] lookup_cong[OF reg] s by (simp add: m1_def)
  have eq: "push_payload i off nxt payload mc now m =
      restamp_stream i (count_append (length payload) (appended_record_count mc (length payload)) now) m2"
    by (simp add: push_payload_def usage_on_append_def m2_def m1_def Let_def)
  show "machine_ok (push_payload i off nxt payload mc now m)" unfolding eq by (rule lookup_restamp(2)[OF ok2])
  show "\<exists>g. stream_slot_of (push_payload i off nxt payload mc now m) = (stream_slot_of m)(i \<mapsto>
      s\<lparr> slot_hot_buffer := push off nxt payload (slot_hot_buffer s),
         slot_usage := (count_append (length payload) (appended_record_count mc (length payload)) now (slot_usage s))\<lparr> vu_seq := g \<rparr> \<rparr>)"
    unfolding eq using lookup_restamp(1)[OF ok2, of i] l2 by simp
qed

lemma push_external_effect:
  assumes ok: "machine_ok m" and s: "stream_slot_of m (ax_stream_id input) = Some s"
  shows "machine_ok (push_external input off nxt m)"
    and "\<exists>g c. stream_slot_of (push_external input off nxt m) = (stream_slot_of m)(ax_stream_id input \<mapsto>
        s\<lparr> slot_cold := push_direct_external_segment \<lparr> op_start_offset = off, op_end_offset = nxt,
               op_s3_path = ep_s3_path (ax_payload input), op_object_size = ep_object_size (ax_payload input),
               op_object_offset = 0 \<rparr> (slot_cold s),
           slot_usage := (count_append (nxt - off) c (ax_now_ms input) (slot_usage s))\<lparr> vu_seq := g \<rparr> \<rparr>)"
proof -
  let ?i = "ax_stream_id input"
  let ?obj = "\<lparr> op_start_offset = off, op_end_offset = nxt, op_s3_path = ep_s3_path (ax_payload input),
                  op_object_size = ep_object_size (ax_payload input), op_object_offset = 0 \<rparr>"
  let ?f = "\<lambda>s. s\<lparr> slot_cold := push_direct_external_segment ?obj (slot_cold s) \<rparr>"
  let ?c = "appended_record_count (ax_message_count input) (nxt - off)"
  define m1 where "m1 = modify_stream_slot ?i ?f m"
  define m2 where "m2 = sync_hot_index ?i m1"
  have ok1: "machine_ok m1" unfolding m1_def by (rule modify_ok_metadata[OF ok]) simp
  have reg: "sm_registry m2 = sm_registry m1" by (simp add: m2_def)
  have ok2: "machine_ok m2" using ok1 machine_ok_cong[OF reg] by simp
  have l2: "stream_slot_of m2 = (stream_slot_of m)(?i \<mapsto> ?f s)"
    using lookup_modify[OF ok, of ?i ?f] lookup_cong[OF reg] s by (simp add: m1_def)
  have eq: "push_external input off nxt m = restamp_stream ?i (count_append (nxt - off) ?c (ax_now_ms input)) m2"
    by (simp add: push_external_def usage_on_append_def m2_def m1_def Let_def)
  show "machine_ok (push_external input off nxt m)" unfolding eq by (rule lookup_restamp(2)[OF ok2])
  show "\<exists>g c. stream_slot_of (push_external input off nxt m) = (stream_slot_of m)(?i \<mapsto>
        s\<lparr> slot_cold := push_direct_external_segment ?obj (slot_cold s),
           slot_usage := (count_append (nxt - off) c (ax_now_ms input) (slot_usage s))\<lparr> vu_seq := g \<rparr> \<rparr>)"
  proof -
    obtain g where "stream_slot_of (restamp_stream ?i (count_append (nxt - off) ?c (ax_now_ms input)) m2) =
        (stream_slot_of m2)(?i := map_option (\<lambda>s. s\<lparr> slot_usage :=
           (count_append (nxt - off) ?c (ax_now_ms input) (slot_usage s))\<lparr> vu_seq := g \<rparr> \<rparr>) (stream_slot_of m2 ?i))"
      using lookup_restamp(1)[OF ok2, of ?i] by blast
    then show ?thesis using l2 by (intro exI[of _ g] exI[of _ ?c]) (simp add: eq)
  qed
qed

lemma insert_slot_effect:
  assumes ok: "machine_ok m" and fresh: "stream_slot_of m (slot_stream_id s) = None"
  shows "machine_ok (fst (insert_stream_slot s m))"
    and "stream_slot_of (fst (insert_stream_slot s m)) = (stream_slot_of m)(slot_stream_id s \<mapsto> s)"
    and "snd (insert_stream_slot s m) \<noteq> None"
proof -
  have none: "reg_slot (sm_registry m) (slot_stream_id s) = None" using fresh by (simp add: stream_slot_of_def)
  have reg: "sm_registry (fst (insert_stream_slot s m)) = fst (reg_insert s (sm_registry m))"
    by (auto simp: insert_stream_slot_def split: prod.splits option.splits)
  show "machine_ok (fst (insert_stream_slot s m))"
    using reg_insert_inv[OF _ none] ok by (simp add: machine_ok_def reg)
  show "stream_slot_of (fst (insert_stream_slot s m)) = (stream_slot_of m)(slot_stream_id s \<mapsto> s)"
    using reg_slot_insert[OF machine_ok_struct[OF ok] none] by (auto simp: stream_slot_of_def reg)
  have "map_of (reg_keys (sm_registry m)) (slot_stream_id s) = None"
    using none reg_slot_Some(3)[OF machine_ok_struct[OF ok]] by simp
  then show "snd (insert_stream_slot s m) \<noteq> None"
    by (auto simp: insert_stream_slot_def reg_insert_def reg_contains_key_def slot_stream_id_def Let_def split: prod.splits option.splits)
qed

lemma install_effect:
  assumes ok: "machine_ok m" and fresh: "stream_slot_of m (md_stream_id md) = None"
  shows "machine_ok (fst (install_created h md hot cold mc now m))"
    and "\<exists>u. stream_slot_of (fst (install_created h md hot cold mc now m)) =
      (stream_slot_of m)(md_stream_id md \<mapsto> created_slot md hot cold (history_id m) u)"
    and "sm_buckets (fst (install_created h md hot cold mc now m)) = sm_buckets m"
    and "sm_erased_buckets (fst (install_created h md hot cold mc now m)) = sm_erased_buckets m"
    and "sm_last_created_at_ms (fst (install_created h md hot cold mc now m)) = max (sm_last_created_at_ms m) (md_created_at_ms md)"
    and "sm_history (fst (install_created h md hot cold mc now m)) = sm_history m"
    and "snd (install_created h md hot cold mc now m) =
      Created (md_stream_id md) (md_tail_offset md) (md_status md = Closed_Status)"
proof -
  obtain m1 u where uc: "usage_on_create h (bsi_bucket (md_stream_id md)) (md_tail_offset md)
      (appended_record_count mc (md_tail_offset md)) now m = (m1, u)" by fastforce
  then have m1: "m1 = m\<lparr> sm_usage := sm_usage m1 \<rparr>" by (auto simp: usage_on_create_def split: prod.splits)
  have reg: "sm_registry m1 = sm_registry m" using m1 by (metis stream_state_machine.select_convs(3) stream_state_machine.surjective stream_state_machine.update_convs(7))
  let ?s = "created_slot md hot cold (history_id m1) u"
  have id: "slot_stream_id ?s = md_stream_id md" by (simp add: created_slot_def slot_stream_id_def)
  have h: "history_id m1 = history_id m" by (subst m1) (simp add: history_id_def)
  have ok1: "machine_ok m1" using ok machine_ok_cong[OF reg] by simp
  have fresh1: "stream_slot_of m1 (slot_stream_id ?s) = None" using fresh lookup_cong[OF reg] id by simp
  obtain m2 k where ins: "insert_stream_slot ?s m1 = (m2, Some k)"
    using insert_slot_effect(3)[OF ok1 fresh1] by (cases "insert_stream_slot ?s m1") auto
  have eq: "install_created h md hot cold mc now m =
      (record_created_at_ms (md_created_at_ms md) m2, Created (md_stream_id md) (md_tail_offset md) (md_status md = Closed_Status))"
    by (simp add: install_created_def uc ins Let_def)
  have fields: "sm_buckets m2 = sm_buckets m1" "sm_erased_buckets m2 = sm_erased_buckets m1"
    "sm_last_created_at_ms m2 = sm_last_created_at_ms m1" "sm_history m2 = sm_history m1"
    using ins by (auto simp: insert_stream_slot_def split: prod.splits option.splits)
  have reg2: "sm_registry (record_created_at_ms t m2) = sm_registry m2" for t by simp
  show "machine_ok (fst (install_created h md hot cold mc now m))"
    using insert_slot_effect(1)[OF ok1 fresh1] ins machine_ok_cong[OF reg2] by (simp add: eq)
  show "\<exists>u. stream_slot_of (fst (install_created h md hot cold mc now m)) =
      (stream_slot_of m)(md_stream_id md \<mapsto> created_slot md hot cold (history_id m) u)"
    using insert_slot_effect(2)[OF ok1 fresh1] ins lookup_cong[OF reg2] lookup_cong[OF reg] id h by (auto simp: eq)
  show "sm_buckets (fst (install_created h md hot cold mc now m)) = sm_buckets m"
    "sm_erased_buckets (fst (install_created h md hot cold mc now m)) = sm_erased_buckets m"
    "sm_history (fst (install_created h md hot cold mc now m)) = sm_history m"
    "sm_last_created_at_ms (fst (install_created h md hot cold mc now m)) = max (sm_last_created_at_ms m) (md_created_at_ms md)"
    by (simp_all add: eq fields record_created_at_ms_def) (subst m1, simp)+
  show "snd (install_created h md hot cold mc now m) = Created (md_stream_id md) (md_tail_offset md) (md_status md = Closed_Status)"
    by (simp add: eq)
qed

lemma size_change_effect:
  assumes ok: "machine_ok m" and s: "stream_slot_of m i = Some s"
  shows "machine_ok (usage_on_size_change i m)"
    and "\<exists>g. stream_slot_of (usage_on_size_change i m) = (stream_slot_of m)(i \<mapsto> s\<lparr> slot_usage := (slot_usage s)\<lparr> vu_seq := g \<rparr> \<rparr>)"
  using lookup_restamp[OF ok, of i "\<lambda>v. v"] s by (simp_all add: usage_on_size_change_def)

lemma enqueue_path_frame [simp]: "sm_registry (enqueue_path i p t m) = sm_registry m"
  "sm_buckets (enqueue_path i p t m) = sm_buckets m" "sm_erased_buckets (enqueue_path i p t m) = sm_erased_buckets m"
  "sm_last_created_at_ms (enqueue_path i p t m) = sm_last_created_at_ms m" "sm_history (enqueue_path i p t m) = sm_history m"
  "sm_usage (enqueue_path i p t m) = sm_usage m" "sm_shared_refs (enqueue_path i p t m) = sm_shared_refs m"
  "sm_hot_payload_bytes (enqueue_path i p t m) = sm_hot_payload_bytes m"
  "sm_flush_planner (enqueue_path i p t m) = sm_flush_planner m"
  by (simp_all add: enqueue_path_def)

lemma publish_effect:
  assumes ok: "machine_ok m" and s: "stream_slot_of m i = Some s"
  shows "machine_ok (publish_apply i s v now m)"
    and "\<exists>g. stream_slot_of (publish_apply i s v now m) = (stream_slot_of m)(i \<mapsto>
      s\<lparr> slot_visible_snapshot := Some v, slot_usage := (slot_usage s)\<lparr> vu_seq := g \<rparr> \<rparr>)"
proof -
  let ?f = "\<lambda>s. s\<lparr> slot_visible_snapshot := Some v \<rparr>"
  define m1 where "m1 = modify_stream_slot i ?f m"
  have ok1: "machine_ok m1" unfolding m1_def by (rule modify_ok_metadata[OF ok]) simp
  have l1: "stream_slot_of m1 = (stream_slot_of m)(i \<mapsto> ?f s)" using lookup_modify[OF ok] s by (simp add: m1_def)
  have reg: "sm_registry (publish_apply i s v now m) = sm_registry (usage_on_size_change i m1)"
    by (simp add: publish_apply_def m1_def Let_def split: option.split)
  have s1: "stream_slot_of m1 i = Some (?f s)" using l1 by simp
  show "machine_ok (publish_apply i s v now m)" using size_change_effect(1)[OF ok1 s1] machine_ok_cong[OF reg] by simp
  show "\<exists>g. stream_slot_of (publish_apply i s v now m) = (stream_slot_of m)(i \<mapsto>
      s\<lparr> slot_visible_snapshot := Some v, slot_usage := (slot_usage s)\<lparr> vu_seq := g \<rparr> \<rparr>)"
    using size_change_effect(2)[OF ok1 s1] lookup_cong[OF reg] l1 by simp
qed

lemma shrink_effect:
  assumes ok: "machine_ok m" and s: "stream_slot_of m i = Some s"
  shows "machine_ok (shrink_hot i f m)"
    and "stream_slot_of (shrink_hot i f m) = (stream_slot_of m)(i \<mapsto> s\<lparr> slot_hot_buffer := f (slot_hot_buffer s) \<rparr>)"
    and "shrink_hot i f m = m\<lparr> sm_registry := sm_registry (shrink_hot i f m),
      sm_hot_payload_bytes := sm_hot_payload_bytes m - (hot_len (slot_hot_buffer s) - hot_len (f (slot_hot_buffer s))) \<rparr>"
proof -
  let ?f = "\<lambda>s. s\<lparr> slot_hot_buffer := f (slot_hot_buffer s) \<rparr>"
  have reg: "sm_registry (shrink_hot i f m) = sm_registry (modify_stream_slot i ?f m)"
    using s by (simp add: shrink_hot_def Let_def)
  have "machine_ok (modify_stream_slot i ?f m)" by (rule modify_ok_metadata[OF ok]) simp
  then show "machine_ok (shrink_hot i f m)" using machine_ok_cong[OF reg] by simp
  show "stream_slot_of (shrink_hot i f m) = (stream_slot_of m)(i \<mapsto> ?f s)"
    using lookup_modify[OF ok, of i ?f] lookup_cong[OF reg] s by simp
  show "shrink_hot i f m = m\<lparr> sm_registry := sm_registry (shrink_hot i f m),
      sm_hot_payload_bytes := sm_hot_payload_bytes m - (hot_len (slot_hot_buffer s) - hot_len (f (slot_hot_buffer s))) \<rparr>"
    using s by (simp add: shrink_hot_def remove_hot_payload_bytes_def modify_stream_slot_def Let_def)
qed

lemma shrink_frame [simp]:
  "sm_buckets (shrink_hot i f m) = sm_buckets m" "sm_erased_buckets (shrink_hot i f m) = sm_erased_buckets m"
  "sm_last_created_at_ms (shrink_hot i f m) = sm_last_created_at_ms m" "sm_history (shrink_hot i f m) = sm_history m"
  "sm_usage (shrink_hot i f m) = sm_usage m" "sm_shared_refs (shrink_hot i f m) = sm_shared_refs m"
  "sm_cold_gc (shrink_hot i f m) = sm_cold_gc m" "sm_flush_planner (shrink_hot i f m) = sm_flush_planner m"
  by (simp_all add: shrink_hot_def Let_def split: option.split)

lemma flush_effect_ok:
  assumes ok: "machine_ok m" and s: "stream_slot_of m i = Some s"
  shows "machine_ok (flush_effect i chunk m)"
    and "stream_slot_of (flush_effect i chunk m) = (stream_slot_of m)(i \<mapsto>
      s\<lparr> slot_hot_buffer := flush_prefix (cc_end_offset chunk) (slot_hot_buffer s),
         slot_cold := push_cold_chunk chunk (slot_cold s) \<rparr>)"
proof -
  let ?f = "\<lambda>s. s\<lparr> slot_cold := push_cold_chunk chunk (slot_cold s) \<rparr>"
  define m1 where "m1 = shrink_hot i (flush_prefix (cc_end_offset chunk)) m"
  have ok1: "machine_ok m1" and l1: "stream_slot_of m1 = (stream_slot_of m)(i \<mapsto>
      s\<lparr> slot_hot_buffer := flush_prefix (cc_end_offset chunk) (slot_hot_buffer s) \<rparr>)"
    using shrink_effect(1,2)[OF ok s] by (simp_all add: m1_def)
  have reg: "sm_registry (flush_effect i chunk m) = sm_registry (modify_stream_slot i ?f m1)"
    by (simp add: flush_effect_def m1_def Let_def)
  have "machine_ok (modify_stream_slot i ?f m1)" by (rule modify_ok_metadata[OF ok1]) simp
  then show "machine_ok (flush_effect i chunk m)" using machine_ok_cong[OF reg] by simp
  show "stream_slot_of (flush_effect i chunk m) = (stream_slot_of m)(i \<mapsto>
      s\<lparr> slot_hot_buffer := flush_prefix (cc_end_offset chunk) (slot_hot_buffer s),
         slot_cold := push_cold_chunk chunk (slot_cold s) \<rparr>)"
    using lookup_modify[OF ok1, of i ?f] lookup_cong[OF reg] l1 by simp
qed

lemma compact_prefix_effect:
  assumes ok: "machine_ok m" and s: "stream_slot_of m i = Some s"
  shows "machine_ok (compact_retained_prefix i r t m)"
    and "stream_slot_of (compact_retained_prefix i r t m) = (stream_slot_of m)(i \<mapsto>
      s\<lparr> slot_cold := fst (compact_before r (slot_cold s)), slot_hot_buffer := discard_before r (slot_hot_buffer s) \<rparr>)"
    and "sm_buckets (compact_retained_prefix i r t m) = sm_buckets m"
    and "sm_erased_buckets (compact_retained_prefix i r t m) = sm_erased_buckets m"
    and "sm_last_created_at_ms (compact_retained_prefix i r t m) = sm_last_created_at_ms m"
    and "sm_history (compact_retained_prefix i r t m) = sm_history m"
    and "sm_usage (compact_retained_prefix i r t m) = sm_usage m"
proof -
  let ?f = "\<lambda>s. s\<lparr> slot_cold := fst (compact_before r (slot_cold s)) \<rparr>"
  define dropped where "dropped = snd (compact_before r (slot_cold s))"
  define m2 where "m2 = release_shared_cold_objects (bsi_bucket i) (cp_shared_paths dropped) t (modify_stream_slot i ?f m)"
  define m3 where "m3 = (if cp_external_paths dropped \<noteq> []
      then m2\<lparr> sm_cold_gc := enqueue_after (bsi_bucket i) (Paths (cp_external_paths dropped)) t (sm_cold_gc m2) \<rparr> else m2)"
  have eq: "compact_retained_prefix i r t m = sync_hot_index i (shrink_hot i (discard_before r) m3)"
    using s by (simp add: compact_retained_prefix_def dropped_def m2_def m3_def Let_def)
  have reg: "sm_registry m3 = sm_registry (modify_stream_slot i ?f m)" by (simp add: m3_def m2_def)
  have "machine_ok (modify_stream_slot i ?f m)" by (rule modify_ok_metadata[OF ok]) simp
  then have ok3: "machine_ok m3" using machine_ok_cong[OF reg] by simp
  have l3: "stream_slot_of m3 = (stream_slot_of m)(i \<mapsto> ?f s)"
    using lookup_modify[OF ok, of i ?f] lookup_cong[OF reg] s by simp
  have s3: "stream_slot_of m3 i = Some (?f s)" using l3 by simp
  have reg': "sm_registry (sync_hot_index i (shrink_hot i (discard_before r) m3)) = sm_registry (shrink_hot i (discard_before r) m3)"
    by simp
  show "machine_ok (compact_retained_prefix i r t m)"
    using shrink_effect(1)[OF ok3 s3] machine_ok_cong[OF reg'] by (simp add: eq)
  show "stream_slot_of (compact_retained_prefix i r t m) = (stream_slot_of m)(i \<mapsto>
      s\<lparr> slot_cold := fst (compact_before r (slot_cold s)), slot_hot_buffer := discard_before r (slot_hot_buffer s) \<rparr>)"
    using shrink_effect(2)[OF ok3 s3] lookup_cong[OF reg'] l3 by (simp add: eq)
  show "sm_buckets (compact_retained_prefix i r t m) = sm_buckets m"
    "sm_erased_buckets (compact_retained_prefix i r t m) = sm_erased_buckets m"
    "sm_last_created_at_ms (compact_retained_prefix i r t m) = sm_last_created_at_ms m"
    "sm_history (compact_retained_prefix i r t m) = sm_history m"
    "sm_usage (compact_retained_prefix i r t m) = sm_usage m"
    by (simp_all add: eq m3_def m2_def)
qed

lemma retain_effect_ok:
  assumes ok: "machine_ok m" and s: "stream_slot_of m i = Some s"
  shows "machine_ok (retain_effect i r t m)"
    and "\<exists>g. stream_slot_of (retain_effect i r t m) = (stream_slot_of m)(i \<mapsto>
      s\<lparr> slot_retained_offset := r, slot_usage := (slot_usage s)\<lparr> vu_seq := g \<rparr>,
         slot_cold := fst (compact_before r (slot_cold s)), slot_hot_buffer := discard_before r (slot_hot_buffer s) \<rparr>)"
    and "sm_buckets (retain_effect i r t m) = sm_buckets m"
    and "sm_erased_buckets (retain_effect i r t m) = sm_erased_buckets m"
    and "sm_last_created_at_ms (retain_effect i r t m) = sm_last_created_at_ms m"
    and "sm_history (retain_effect i r t m) = sm_history m"
proof -
  let ?f = "\<lambda>s. s\<lparr> slot_retained_offset := r \<rparr>"
  define m1 where "m1 = modify_stream_slot i ?f m"
  have ok1: "machine_ok m1" unfolding m1_def by (rule modify_ok_metadata[OF ok]) simp
  have l1: "stream_slot_of m1 = (stream_slot_of m)(i \<mapsto> ?f s)" using lookup_modify[OF ok] s by (simp add: m1_def)
  have s1: "stream_slot_of m1 i = Some (?f s)" using l1 by simp
  obtain g where ok2: "machine_ok (usage_on_size_change i m1)" and l2: "stream_slot_of (usage_on_size_change i m1) =
      (stream_slot_of m1)(i \<mapsto> (?f s)\<lparr> slot_usage := (slot_usage (?f s))\<lparr> vu_seq := g \<rparr> \<rparr>)"
    using size_change_effect[OF ok1 s1] by blast
  have s2: "stream_slot_of (usage_on_size_change i m1) i = Some ((?f s)\<lparr> slot_usage := (slot_usage (?f s))\<lparr> vu_seq := g \<rparr> \<rparr>)"
    using l2 by simp
  note c = compact_prefix_effect[OF ok2 s2, of r t]
  show "machine_ok (retain_effect i r t m)" using c(1) by (simp add: retain_effect_def m1_def)
  show "\<exists>g. stream_slot_of (retain_effect i r t m) = (stream_slot_of m)(i \<mapsto>
      s\<lparr> slot_retained_offset := r, slot_usage := (slot_usage s)\<lparr> vu_seq := g \<rparr>,
         slot_cold := fst (compact_before r (slot_cold s)), slot_hot_buffer := discard_before r (slot_hot_buffer s) \<rparr>)"
    using c(2) l2 l1 by (intro exI[of _ g]) (simp add: retain_effect_def m1_def)
  show "sm_buckets (retain_effect i r t m) = sm_buckets m"
    "sm_erased_buckets (retain_effect i r t m) = sm_erased_buckets m"
    "sm_last_created_at_ms (retain_effect i r t m) = sm_last_created_at_ms m"
    "sm_history (retain_effect i r t m) = sm_history m"
    using c(3-6) by (simp_all add: retain_effect_def m1_def)
qed

section \<open>Restored machines\<close>

lemma retain_many_frame [simp]:
  "sm_registry (fold retain_shared_cold_object ps m) = sm_registry m"
  "sm_buckets (fold retain_shared_cold_object ps m) = sm_buckets m"
  "sm_erased_buckets (fold retain_shared_cold_object ps m) = sm_erased_buckets m"
  "sm_last_created_at_ms (fold retain_shared_cold_object ps m) = sm_last_created_at_ms m"
  "sm_history (fold retain_shared_cold_object ps m) = sm_history m"
  "sm_usage (fold retain_shared_cold_object ps m) = sm_usage m"
  "sm_cold_gc (fold retain_shared_cold_object ps m) = sm_cold_gc m"
  "sm_hot_payload_bytes (fold retain_shared_cold_object ps m) = sm_hot_payload_bytes m"
  "sm_flush_planner (fold retain_shared_cold_object ps m) = sm_flush_planner m"
  by (induction ps arbitrary: m) simp_all

lemma insert_stream_slot_frame [simp]:
  "sm_buckets (fst (insert_stream_slot s m)) = sm_buckets m"
  "sm_erased_buckets (fst (insert_stream_slot s m)) = sm_erased_buckets m"
  "sm_last_created_at_ms (fst (insert_stream_slot s m)) = sm_last_created_at_ms m"
  "sm_history (fst (insert_stream_slot s m)) = sm_history m"
  "sm_cold_gc (fst (insert_stream_slot s m)) = sm_cold_gc m"
  "sm_shared_refs (fst (insert_stream_slot s m)) = sm_shared_refs m"
  by (auto simp: insert_stream_slot_def split: prod.splits option.splits)

text \<open>What \<open>check_entry\<close> knows of an entry alone.\<close>

definition entry_valid :: "stream_snapshot_entry \<Rightarrow> bool" where
  "entry_valid e \<longleftrightarrow> se_retained_offset e \<le> md_tail_offset (se_metadata e) \<and>
     (\<forall>v. se_visible_snapshot e = Some v \<longrightarrow> vs_offset v \<le> md_tail_offset (se_metadata e)) \<and>
     hot_segments_match_payload (se_hot_segments e) (length (se_payload e)) \<and>
     payload_sources_cover_retained_suffix (se_cold_chunks e) (se_external_segments e) (se_hot_segments e)
       (se_retained_offset e) (md_tail_offset (se_metadata e))"

lemma check_entry_None:
  assumes "check_entry e m = None"
  shows "sm_history m \<noteq> None" "bsi_bucket (entry_stream_id e) \<in> sm_buckets m" "entry_valid e"
    "\<not> reg_contains_key (sm_registry m) (entry_stream_id e)"
  using assms by (auto simp: check_entry_def entry_valid_def Let_def split: if_splits option.splits)

lemma restore_entry_effect:
  assumes ok: "machine_ok m" and r: "restore_entry since (e, v) m = Inr m'"
  shows "machine_ok m'" "check_entry e m = None"
    and "stream_slot_of m (entry_stream_id e) = None"
    and "\<exists>ps u. restore_producer_states (entry_stream_id e) (se_producer_states e) = Inr ps \<and>
      stream_slot_of m' = (stream_slot_of m)(entry_stream_id e \<mapsto> restored_slot e ps u)"
    and "sm_buckets m' = sm_buckets m" "sm_erased_buckets m' = sm_erased_buckets m"
      "sm_history m' = sm_history m" "sm_last_created_at_ms m' = sm_last_created_at_ms m"
proof -
  show chk: "check_entry e m = None" using r by (auto simp: restore_entry_def Let_def split: option.splits)
  then obtain ps where ps: "restore_producer_states (entry_stream_id e) (se_producer_states e) = Inr ps"
    using r by (auto simp: restore_entry_def Let_def split: sum.splits)
  define since' where "since' = (case since of None \<Rightarrow> history_id m | Some h \<Rightarrow> h)"
  obtain l u where lu: "restored_usage_of (bsi_bucket (entry_stream_id e)) v since' (sm_usage m) = (l, u)" by fastforce
  let ?m = "m\<lparr> sm_usage := l \<rparr>" and ?s = "restored_slot e ps u"
  have reg: "sm_registry ?m = sm_registry m" by simp
  have id: "slot_stream_id ?s = entry_stream_id e" by (simp add: restored_slot_def slot_stream_id_def entry_stream_id_def)
  have "map_of (reg_keys (sm_registry m)) (entry_stream_id e) = None"
    using check_entry_None(4)[OF chk] by (simp add: reg_contains_key_def)
  then show none: "stream_slot_of m (entry_stream_id e) = None" by (simp add: stream_slot_of_def reg_slot_def)
  have ok': "machine_ok ?m" using ok machine_ok_cong[OF reg] by simp
  have none': "stream_slot_of ?m (slot_stream_id ?s) = None" using none lookup_cong[OF reg] id by simp
  note ins = insert_slot_effect[OF ok' none']
  have eq: "m' = fold retain_shared_cold_object (map cc_s3_path (filter cc_shared_object (se_cold_chunks e)))
      (fst (insert_stream_slot ?s ?m))"
    using r chk ps lu ins(3)
    by (auto simp: restore_entry_def since'_def Let_def split: prod.splits option.splits)
  have reg': "sm_registry m' = sm_registry (fst (insert_stream_slot ?s ?m))" by (simp add: eq)
  show "machine_ok m'" using ins(1) machine_ok_cong[OF reg'] by simp
  show "\<exists>ps u. restore_producer_states (entry_stream_id e) (se_producer_states e) = Inr ps \<and>
      stream_slot_of m' = (stream_slot_of m)(entry_stream_id e \<mapsto> restored_slot e ps u)"
    using ins(2) lookup_cong[OF reg'] lookup_cong[OF reg] ps id by (intro exI[of _ ps] exI[of _ u]) simp
  show "sm_buckets m' = sm_buckets m" "sm_erased_buckets m' = sm_erased_buckets m"
      "sm_history m' = sm_history m" "sm_last_created_at_ms m' = sm_last_created_at_ms m"
    by (simp_all add: eq)
qed

text \<open>What a restore knows of every stream it holds.\<close>

definition restored_from :: "stream_snapshot_entry list \<Rightarrow> stream_state_machine \<Rightarrow> bool" where
  "restored_from es m \<longleftrightarrow> (\<forall>i s. stream_slot_of m i = Some s \<longrightarrow>
     sm_history m \<noteq> None \<and> bsi_bucket i \<in> sm_buckets m \<and>
     (\<exists>e \<in> set es. \<exists>ps u. s = restored_slot e ps u \<and> i = entry_stream_id e \<and>
        entry_valid e))"

lemma restore_entries_effect:
  assumes "machine_ok m" "restored_from es m" "restore_entries since evs m = Inr m'" "fst ` set evs \<subseteq> set es"
  shows "machine_ok m' \<and> restored_from es m' \<and> sm_buckets m' = sm_buckets m \<and>
    sm_erased_buckets m' = sm_erased_buckets m \<and> sm_history m' = sm_history m \<and>
    sm_last_created_at_ms m' = sm_last_created_at_ms m"
  using assms
proof (induction evs arbitrary: m)
  case Nil
  then show ?case by simp
next
  case (Cons ev evs)
  obtain e v where ev: "ev = (e, v)" by fastforce
  then obtain m1 where m1: "restore_entry since (e, v) m = Inr m1" "restore_entries since evs m1 = Inr m'"
    using Cons.prems(3) by (auto split: sum.splits)
  note eff = restore_entry_effect[OF Cons.prems(1) m1(1)]
  obtain ps u where l1: "stream_slot_of m1 = (stream_slot_of m)(entry_stream_id e \<mapsto> restored_slot e ps u)"
    using eff(4) by (elim exE conjE) (rule that)
  note chk = check_entry_None[OF eff(2)]
  have "restored_from es m1"
    unfolding restored_from_def
  proof (intro allI impI)
    fix i s
    assume a: "stream_slot_of m1 i = Some s"
    have "stream_slot_of m i = Some s \<or> i = entry_stream_id e \<and> s = restored_slot e ps u"
      using a unfolding l1 by (cases "i = entry_stream_id e") simp_all
    then consider "stream_slot_of m i = Some s" | "i = entry_stream_id e" "s = restored_slot e ps u" by blast
    then show "sm_history m1 \<noteq> None \<and> bsi_bucket i \<in> sm_buckets m1 \<and>
        (\<exists>e \<in> set es. \<exists>ps u. s = restored_slot e ps u \<and> i = entry_stream_id e \<and> entry_valid e)"
    proof cases
      case 1
      then show ?thesis using Cons.prems(2) eff(5,7) by (simp add: restored_from_def)
    next
      case 2
      have "e \<in> set es" using Cons.prems(4) ev by simp
      then show ?thesis using 2 chk(1-3) eff(5,7) by simp blast
    qed
  qed
  then show ?case using Cons.IH[OF eff(1) _ m1(2)] Cons.prems(4) eff(5-8) by simp
qed

lemma restore_buckets_effect:
  "restore_buckets bs m = Inr m' \<Longrightarrow> m' = m\<lparr> sm_buckets := sm_buckets m \<union> set bs \<rparr>"
proof (induction bs arbitrary: m)
  case (Cons b bs)
  then show ?case using Cons.IH[of "m\<lparr> sm_buckets := insert b (sm_buckets m) \<rparr>"] by (simp split: if_splits)
qed simp

lemma restore_erased_effect:
  "restore_erased bs m = Inr m' \<Longrightarrow> m' = m\<lparr> sm_erased_buckets := sm_erased_buckets m \<union> set bs \<rparr> \<and> sm_buckets m \<inter> set bs = {}"
proof (induction bs arbitrary: m)
  case (Cons b bs)
  then show ?case using Cons.IH[of "m\<lparr> sm_erased_buckets := insert b (sm_erased_buckets m) \<rparr>"] by (simp split: if_splits)
qed simp

lemma fold_max_bound: "x \<in> set xs \<or> x \<le> a \<Longrightarrow> x \<le> fold max xs (a :: nat)"
proof (induction xs arbitrary: a)
  case (Cons y ys)
  show ?case
  proof (cases "x \<in> set ys")
    case False
    then show ?thesis using Cons.IH[of "max y a"] Cons.prems by (auto simp: le_max_iff_disj)
  qed (use Cons.IH[of "max y a"] in simp)
qed simp

lemma normalize_bounds:
  assumes "machine_ok m"
  shows "sm_last_created_at_ms m \<le> sm_last_created_at_ms (normalize_last_created_at_ms m)"
    and "stream_slot_of m i = Some s \<Longrightarrow> md_created_at_ms (slot_metadata s) \<le> sm_last_created_at_ms (normalize_last_created_at_ms m)"
proof -
  show "sm_last_created_at_ms m \<le> sm_last_created_at_ms (normalize_last_created_at_ms m)"
    by (simp add: normalize_last_created_at_ms_def max_live_created_at_ms_def fold_max_bound)
  assume s: "stream_slot_of m i = Some s"
  then have "s \<in> set (reg_slot_values (sm_registry m))" using slot_values_lookup[OF assms, of s] lookup_id[OF assms s] by simp
  then show "md_created_at_ms (slot_metadata s) \<le> sm_last_created_at_ms (normalize_last_created_at_ms m)"
    by (auto simp: normalize_last_created_at_ms_def max_live_created_at_ms_def intro!: fold_max_bound)
qed

lemma normalize_frame [simp]:
  "sm_registry (normalize_last_created_at_ms m) = sm_registry m"
  "sm_buckets (normalize_last_created_at_ms m) = sm_buckets m"
  "sm_erased_buckets (normalize_last_created_at_ms m) = sm_erased_buckets m"
  "sm_history (normalize_last_created_at_ms m) = sm_history m"
  "sm_usage (normalize_last_created_at_ms m) = sm_usage m"
  by (simp_all add: normalize_last_created_at_ms_def)

lemma new_machine_ok: "inj ks \<Longrightarrow> machine_ok ((new_machine ks)\<lparr> sm_last_created_at_ms := a, sm_history := b, sm_usage := c \<rparr>)"
  by (simp add: machine_ok_def new_machine_def empty_registry_inv)

lemma new_machine_lookup: "stream_slot_of ((new_machine ks)\<lparr> sm_last_created_at_ms := a, sm_history := b, sm_usage := c \<rparr>) i = None"
  by (simp add: stream_slot_of_def new_machine_def empty_registry_def reg_slot_def)

lemma restore_effect:
  assumes inj: "inj ks" and r: "restore_with ks snapshot usage = Inr m"
  shows "machine_ok m" "restored_from (ss_streams snapshot) m"
    and "sm_buckets m = set (ss_buckets snapshot)" "sm_erased_buckets m = set (ss_erased_buckets snapshot)"
    and "sm_buckets m \<inter> sm_erased_buckets m = {}" "sm_history m = ss_history snapshot"
    and "stream_slot_of m i = Some s \<Longrightarrow> md_created_at_ms (slot_metadata s) \<le> sm_last_created_at_ms m"
proof -
  obtain ledger versions since totals where st: "restore_state ks snapshot (ledger, versions, since, totals) = Inr m"
    using r by (auto simp: restore_with_def split: option.splits sum.splits)
  let ?m0 = "(new_machine ks)\<lparr> sm_last_created_at_ms := ss_last_created_at_ms snapshot,
                                 sm_history := ss_history snapshot, sm_usage := ledger \<rparr>"
  let ?entries = "sort_key (\<lambda>(e, _). entry_stream_id e) (zip (ss_streams snapshot) versions)"
  obtain m1 where m1: "restore_buckets (ss_buckets snapshot) ?m0 = Inr m1" using st by (auto simp: restore_state_def split: sum.splits)
  obtain m2 where m2: "restore_erased (ss_erased_buckets snapshot) m1 = Inr m2"
    using st m1 by (auto simp: restore_state_def split: sum.splits)
  obtain m3 where m3: "restore_entries since ?entries m2 = Inr m3"
    using st m1 m2 by (auto simp: restore_state_def split: sum.splits)
  let ?m3 = "m3\<lparr> sm_cold_gc := from_parts (ss_pending_cold_gc snapshot) (ss_next_cold_gc_seq snapshot) \<rparr>"
  have m: "m = normalize_last_created_at_ms ?m3"
    using st m1 m2 m3 by (auto simp: restore_state_def Let_def split: option.splits)
  have e1: "m1 = ?m0\<lparr> sm_buckets := sm_buckets ?m0 \<union> set (ss_buckets snapshot) \<rparr>" by (rule restore_buckets_effect[OF m1])
  have e2: "m2 = m1\<lparr> sm_erased_buckets := sm_erased_buckets m1 \<union> set (ss_erased_buckets snapshot) \<rparr>"
    "sm_buckets m1 \<inter> set (ss_erased_buckets snapshot) = {}" using restore_erased_effect[OF m2] by auto
  have reg: "sm_registry m2 = sm_registry ?m0" by (subst e2(1), subst e1) simp
  have ok2: "machine_ok m2" using new_machine_ok[OF inj] machine_ok_cong[OF reg] by blast
  have from2: "restored_from (ss_streams snapshot) m2"
    using lookup_cong[OF reg] new_machine_lookup by (simp add: restored_from_def)
  have sub: "fst ` set ?entries \<subseteq> set (ss_streams snapshot)" by (auto dest: set_zip_leftD)
  note eff = restore_entries_effect[OF ok2 from2 m3 sub]
  have reg': "sm_registry m = sm_registry m3" by (simp add: m)
  show ok: "machine_ok m" using eff machine_ok_cong[OF reg'] by simp
  have f2: "sm_buckets m2 = set (ss_buckets snapshot)" "sm_erased_buckets m2 = set (ss_erased_buckets snapshot)"
    "sm_history m2 = ss_history snapshot"
    by (subst e2(1), subst e1, simp add: new_machine_def)+
  show b: "sm_buckets m = set (ss_buckets snapshot)" "sm_erased_buckets m = set (ss_erased_buckets snapshot)"
    "sm_history m = ss_history snapshot"
    using eff f2 by (simp_all add: m)
  have "sm_buckets m1 = set (ss_buckets snapshot)" by (subst e1) (simp add: new_machine_def)
  then show "sm_buckets m \<inter> sm_erased_buckets m = {}" using e2(2) b by auto
  show "restored_from (ss_streams snapshot) m"
  proof -
    have f3: "restored_from (ss_streams snapshot) m3" using eff by blast
    have eqs: "sm_buckets m = sm_buckets m3" "sm_history m = sm_history m3" by (simp_all add: m)
    show ?thesis using f3 unfolding restored_from_def lookup_cong[OF reg'] eqs .
  qed
  have regn: "sm_registry m = sm_registry ?m3" using reg' by simp
  have ok3: "machine_ok ?m3" using ok machine_ok_cong[OF regn] by simp
  show "stream_slot_of m i = Some s \<Longrightarrow> md_created_at_ms (slot_metadata s) \<le> sm_last_created_at_ms m"
    using normalize_bounds(2)[OF ok3, of i s] lookup_cong[OF regn] m by simp
qed

lemma imported_frame [simp]:
  "sm_registry (imported_machine index h digest now m restored) = sm_registry restored"
  "sm_buckets (imported_machine index h digest now m restored) = sm_buckets restored"
  "sm_erased_buckets (imported_machine index h digest now m restored) = sm_erased_buckets restored"
  by (simp_all add: imported_machine_def Let_def)

lemma machine_ok_inj: "machine_ok m \<Longrightarrow> inj (reg_key_seq (sm_registry m))"
  using reg_struct_parts(4)[OF machine_ok_struct] .

section \<open>The registry stays in order\<close>

lemma kstep_ok:
  assumes "kstep b3 imp m m'" "machine_ok m"
  shows "machine_ok m'"
  using assms(1)
proof cases
  case (producers f i)
  then show ?thesis using modify_ok_metadata[OF assms(2), of f i] slot_bodyD(1) by blast
next
  case (renew i now)
  have "machine_ok (modify_stream_slot i (\<lambda>s. s\<lparr> slot_metadata := renew_stream_ttl now (slot_metadata s) \<rparr>) m)"
    by (rule modify_ok[OF assms(2)]) (auto simp: slot_stream_id_def expiry_not_earlier_def dest: expiry_renewed)
  then show ?thesis using renew by (simp add: modify_stream_metadata_def)
next
  case (commit i s q close_after producer gate now off nxt ack)
  then show ?thesis using commit_write_effect(1)[OF assms(2) commit(1) refl] by blast
next
  case (append i s payload q close_after producer gate now m1 off nxt ack mc)
  note e = commit_write_effect[OF assms(2) append(2) refl append(5)]
  obtain s1 where "stream_slot_of m1 i = Some s1" using e(4) by (metis fun_upd_same)
  then show ?thesis using push_payload_effect(1)[OF e(1)] append(1) by blast
next
  case (append_external input s q close_after producer gate now m1 off nxt ack)
  note e = commit_write_effect[OF assms(2) append_external(2) refl append_external(6)]
  obtain s1 where "stream_slot_of m1 (ax_stream_id input) = Some s1" using e(4) by (metis fun_upd_same)
  then show ?thesis using push_external_effect(1)[OF e(1)] append_external(1) by blast
next
  case (import_step snapshot h restored index digest now)
  have "machine_ok restored"
    using restore_effect(1)[OF machine_ok_inj[OF assms(2)]] import_step(7) by (simp add: restore_counted_since_def)
  then show ?thesis using import_step(1) machine_ok_cong[of m' restored] by simp
next
  case (compact i s old t)
  have "machine_ok (drop_shared i old m)" unfolding drop_shared_def by (rule modify_ok_metadata[OF assms(2)]) simp
  then show ?thesis using compact(1) machine_ok_cong[of m' "drop_shared i old m"] by simp
next
  case (drop i old)
  show ?thesis unfolding drop drop_shared_def by (rule modify_ok_metadata[OF assms(2)]) simp
next
  case (offload i refs)
  show ?thesis unfolding offload by (rule modify_ok_metadata[OF assms(2)]) simp
next
  case (history previous index h kept leader now)
  then show ?thesis using assms(2) machine_ok_cong[of m' m] by (simp add: new_history_def)
qed (use assms(2) refresh_ok remove_ok pop_remove(1) pop_none(1) install_effect(1) publish_effect(1) retain_effect_ok(1)
       flush_effect_ok(1) machine_ok_cong[of m' m] in auto)

lemma ksteps_ok: "(kstep b3 imp)\<^sup>*\<^sup>* m m' \<Longrightarrow> machine_ok m \<Longrightarrow> machine_ok m'"
  by (induction rule: rtranclp_induct) (simp_all add: kstep_ok)

end
