(* ===== verification/Command_Steps.thy ===== *)
theory Command_Steps
  imports Kernel
begin

text \<open>
  Every command is a sequence of the steps of \<open>kstep\<close>: one lemma per command handler, and
  \<open>apply_checked_steps\<close> for the dispatch.
\<close>

lemma remove_frame [simp]:
  "sm_buckets (fst (remove_stream_state i e now m)) = sm_buckets m"
  "sm_erased_buckets (fst (remove_stream_state i e now m)) = sm_erased_buckets m"
  "sm_last_created_at_ms (fst (remove_stream_state i e now m)) = sm_last_created_at_ms m"
  "sm_history (fst (remove_stream_state i e now m)) = sm_history m"
  by (auto simp: remove_stream_state_def record_removed_def usage_on_end_def fold_early_def record_folded_def
      Let_def split: prod.splits option.splits)

lemma ksteps_trans [trans]: "(kstep b3 imp)\<^sup>*\<^sup>* m m1 \<Longrightarrow> (kstep b3 imp)\<^sup>*\<^sup>* m1 m2 \<Longrightarrow> (kstep b3 imp)\<^sup>*\<^sup>* m m2"
  by (rule rtranclp_trans)

lemma enqueue_step: "kstep b3 imp m (m\<lparr> sm_cold_gc := enqueue_after b t n (sm_cold_gc m) \<rparr>)"
  using kstep.gc[of b3 imp m "Gc_Enqueue b t n None"] by (simp add: enqueue_after_def)

lemma enqueue_path_step: "kstep b3 imp m (enqueue_path i p t m)"
  unfolding enqueue_path_def by (rule enqueue_step)

section \<open>The lifecycle of a stream\<close>

lemma expire_if_due_steps: "(kstep b3 imp)\<^sup>*\<^sup>* m (fst (expire_stream_if_due i now m))"
  by (auto simp: expire_stream_if_due_def stream_metadata_of_slot split: option.split intro: kstep.remove)

lemma expire_if_due_effect:
  assumes ok: "machine_ok m"
  shows "machine_ok (fst (expire_stream_if_due i now m))"
    and "stream_slot_of (fst (expire_stream_if_due i now m)) = (if snd (expire_stream_if_due i now m)
      then (stream_slot_of m)(i := None) else stream_slot_of m)"
    and "\<not> snd (expire_stream_if_due i now m) \<Longrightarrow> fst (expire_stream_if_due i now m) = m"
    and "snd (expire_stream_if_due i now m) \<longleftrightarrow> (\<exists>s. stream_slot_of m i = Some s \<and> stream_is_expired (slot_metadata s) now)"
  using remove_ok[OF ok] lookup_remove(1)[OF machine_ok_struct[OF ok]] ok
  by (auto simp: expire_stream_if_due_def stream_metadata_of_slot split: option.split)

lemma expire_frame [simp]:
  "sm_buckets (fst (expire_stream_if_due i now m)) = sm_buckets m"
  "sm_erased_buckets (fst (expire_stream_if_due i now m)) = sm_erased_buckets m"
  "sm_last_created_at_ms (fst (expire_stream_if_due i now m)) = sm_last_created_at_ms m"
  "sm_history (fst (expire_stream_if_due i now m)) = sm_history m"
  by (auto simp: expire_stream_if_due_def split: option.split)

lemma scope_bucket: "validate_stream_scope i m = None \<Longrightarrow> bsi_bucket i \<in> sm_buckets m"
  by (auto simp: validate_stream_scope_def split: if_splits)

lemma next_created_bounds:
  assumes "next_created_at_ms now m = Inr c"
  shows "sm_last_created_at_ms m < c" "c \<le> max_created_at_ms" "now \<le> c"
  using assms by (auto simp: next_created_at_ms_def max_created_at_ms_def incarnation_mask_def incarnation_tag_def sat_add_def u64_max_def
      Let_def split: if_splits)

lemma create_bucket_steps: "(kstep b3 imp)\<^sup>*\<^sup>* m (fst (create_bucket b m))"
  using kstep.bucket[of b m b3 imp] by (auto simp: create_bucket_def)

lemma fresh_inline:
  "md_tail_offset md = length payload \<Longrightarrow> c = md_created_at_ms md \<Longrightarrow> fresh_parts md (from_payload 0 payload) (with_generation c)"
  by (auto simp: fresh_parts_def)

lemma fresh_external:
  "valid_object_payload_ref obj \<Longrightarrow> op_start_offset obj = 0 \<Longrightarrow> op_end_offset obj = md_tail_offset md \<Longrightarrow> c = md_created_at_ms md \<Longrightarrow>
   fresh_parts md empty_hot_buffer (push_direct_external_segment obj (with_generation c))"
  unfolding fresh_parts_def by blast

text \<open>A staged payload that passed its checks makes a valid reference.\<close>

lemma external_ref_valid:
  assumes "validate_external_payload_ref p = None" "ep_payload_len p \<le> u64_max" "e = off + ep_payload_len p"
  shows "valid_object_payload_ref \<lparr> op_start_offset = off, op_end_offset = e, op_s3_path = ep_s3_path p,
    op_object_size = ep_object_size p, op_object_offset = 0 \<rparr>"
  using assms by (auto simp: validate_external_payload_ref_def valid_object_payload_ref_def checked_add_def split: if_splits)

lemma install_steps:
  assumes "sm_history m = Some h" "validate_stream_scope i m = None"
    "stream_slot_of (fst (expire_stream_if_due i now m)) i = None"
    "next_created_at_ms now (fst (expire_stream_if_due i now m)) = Inr (md_created_at_ms md)"
    "md_stream_id md = i" "fresh_parts md hot cold" "md_tail_offset md \<le> u64_max"
  shows "(kstep b3 imp)\<^sup>*\<^sup>* m (fst (install_created (he_id h) md hot cold mc t (fst (expire_stream_if_due i now m))))"
  by (rule rtranclp.rtrancl_into_rtrancl[OF expire_if_due_steps], rule kstep.create)
    (use assms next_created_bounds[OF assms(4)] scope_bucket[OF assms(2)] in auto)

lemma create_stream_steps:
  assumes "length (ci_initial_payload input) \<le> u64_max"
  shows "(kstep b3 imp)\<^sup>*\<^sup>* m (fst (create_stream input m))"
proof (cases "sm_history m")
  case None
  then show ?thesis by (simp add: create_stream_def counting_history_def)
next
  case (Some h)
  then show ?thesis
    using assms expire_if_due_steps[of b3 imp m "ci_stream_id input" "ci_now_ms input"]
    by (auto simp: create_stream_def counting_history_def initial_len_def Let_def
        split: option.split sum.split intro!: install_steps fresh_inline fresh_external)
qed

lemma create_external_steps:
  assumes "ep_payload_len (xi_initial_payload input) \<le> u64_max"
  shows "(kstep b3 imp)\<^sup>*\<^sup>* m (fst (create_external_stream input m))"
proof (cases "sm_history m")
  case None
  then show ?thesis by (simp add: create_external_stream_def counting_history_def)
next
  case (Some h)
  then show ?thesis
    using assms expire_if_due_steps[of b3 imp m "xi_stream_id input" "xi_now_ms input"]
    by (auto simp: create_external_stream_def counting_history_def external_ref_valid Let_def
        split: option.split sum.split intro!: install_steps fresh_inline fresh_external)
qed

lemma delete_stream_steps: "(kstep b3 imp)\<^sup>*\<^sup>* m (fst (delete_stream i now m))"
  by (auto simp: delete_stream_def stream_metadata_of_slot Let_def split: option.split intro: kstep.remove)

lemma touch_steps: "(kstep b3 imp)\<^sup>*\<^sup>* m (fst (touch_stream_access i now renew_ttl m))"
  using kstep.refresh[of b3 imp "modify_stream_metadata i (renew_stream_ttl now) m" i] kstep.renew[of b3 imp m i now]
  by (auto simp: touch_stream_access_def stream_metadata_of_slot Let_def split: option.split
      intro: kstep.remove converse_rtranclp_into_rtranclp)

lemma purge_streams_effect:
  assumes "machine_ok m" "purge_streams ids now n m = (m', k)"
  shows "(kstep b3 imp)\<^sup>*\<^sup>* m m' \<and> machine_ok m' \<and>
    stream_slot_of m' = (\<lambda>i. if i \<in> set ids then None else stream_slot_of m i) \<and>
    sm_buckets m' = sm_buckets m \<and> sm_erased_buckets m' = sm_erased_buckets m \<and> sm_history m' = sm_history m"
  using assms
proof (induction ids arbitrary: m n)
  case Nil
  then show ?case by simp
next
  case (Cons i ids)
  let ?m1 = "fst (remove_stream_state i Purged_End now m)"
  have step: "(kstep b3 imp)\<^sup>*\<^sup>* m ?m1"
  proof (cases "stream_slot_of m i")
    case None
    then have "map_of (reg_keys (sm_registry m)) i = None"
      using reg_slot_Some(3)[OF machine_ok_struct[OF Cons.prems(1)]] by (simp add: stream_slot_of_def)
    then have "?m1 = m" by (simp add: remove_stream_state_def reg_remove_def)
    then show ?thesis by simp
  qed (auto intro: kstep.remove)
  obtain n' where rest: "purge_streams ids now n' ?m1 = (m', k)" using Cons.prems(2) by (simp split: prod.splits)
  show ?case
    using Cons.IH[OF remove_ok[OF Cons.prems(1)] rest] lookup_remove(1)[OF machine_ok_struct[OF Cons.prems(1)], of i] step
    by (auto intro: rtranclp_trans)
qed

lemma bucket_ids_mem:
  assumes "machine_ok m"
  shows "i \<in> set (bucket_stream_ids b (sm_registry m)) \<longleftrightarrow> bsi_bucket i = b \<and> stream_slot_of m i \<noteq> None"
proof -
  have "i \<in> fst ` set (reg_keys (sm_registry m)) \<longleftrightarrow> stream_slot_of m i \<noteq> None"
    using reg_slot_Some(3)[OF machine_ok_struct[OF assms], of i]
    by (metis stream_slot_of_def dom_map_of_conv_image_fst domIff)
  then show ?thesis by (auto simp: bucket_stream_ids_def)
qed

lemma purge_bucket_steps:
  assumes ok: "machine_ok m"
  shows "(kstep b3 imp)\<^sup>*\<^sup>* m (fst (purge_bucket b now m))"
proof -
  obtain m1 k where p: "purge_streams (bucket_stream_ids b (sm_registry m)) now 0 m = (m1, k)" by fastforce
  note e = purge_streams_effect[OF ok p]
  have gone: "stream_slot_of m1 i = None" if "bsi_bucket i = b" for i
    using e bucket_ids_mem[OF ok, of i b] that by (cases "stream_slot_of m i") auto
  have "(kstep b3 imp)\<^sup>*\<^sup>* m (m1\<lparr> sm_buckets := sm_buckets m1 - {b}, sm_erased_buckets := insert b (sm_erased_buckets m1) \<rparr>)"
    using e kstep.erase[OF gone] by (meson rtranclp.rtrancl_into_rtrancl)
  then show ?thesis using p by (auto simp: purge_bucket_def Let_def split: option.split)
qed


section \<open>The sweep\<close>

text \<open>A turn of the loop finds an expired stream and removes it.\<close>

lemma sweep_turn:
  assumes ok: "machine_ok m" and pop: "pop_expired now (sm_registry m) = (reg, Some i)"
  shows "snd (remove_stream_state i e now (m\<lparr> sm_registry := reg \<rparr>))"
    and "stream_slot_of (fst (remove_stream_state i e now (m\<lparr> sm_registry := reg \<rparr>))) = (stream_slot_of m)(i := None)"
  using lookup_remove[of "m\<lparr> sm_registry := reg \<rparr>" i] pop_remove(2-4)[OF ok pop] by auto

definition swept :: "nat \<Rightarrow> u64 \<Rightarrow> stream_state_machine \<Rightarrow> bucket_stream_id list \<Rightarrow> stream_state_machine \<Rightarrow> bool" where
  "swept left now m ids m' \<longleftrightarrow>
     distinct ids \<and> length ids \<le> left \<and>
     (\<forall>i \<in> set ids. \<exists>s. stream_slot_of m i = Some s \<and> stream_is_expired (slot_metadata s) now) \<and>
     stream_slot_of m' = (\<lambda>i. if i \<in> set ids then None else stream_slot_of m i) \<and>
     (length ids < left \<longrightarrow> (\<forall>i s. stream_slot_of m' i = Some s \<longrightarrow> \<not> stream_is_expired (slot_metadata s) now))"

lemma swept_Cons:
  assumes "swept (left - 1) now m1 ids m'" "left \<noteq> 0" "stream_slot_of m1 = (stream_slot_of m)(i := None)"
    "stream_slot_of m i = Some s" "stream_is_expired (slot_metadata s) now"
  shows "swept left now m (i # ids) m'"
proof -
  have "i \<notin> set ids" using assms(1,3) by (auto simp: swept_def)
  then show ?thesis using assms by (auto simp: swept_def fun_eq_iff split: if_splits) 
qed

lemma sweep_loop_effect:
  assumes "machine_ok m" "n + left \<le> u64_max" "sweep_loop left now n m = (m', k)"
  shows "(kstep b3 imp)\<^sup>*\<^sup>* m m' \<and> (\<exists>ids. k = n + length ids \<and> swept left now m ids m')"
  using assms
proof (induction left now n m arbitrary: m' k rule: sweep_loop.induct)
  case (1 left now n m)
  note ok = "1.prems"(1)
  show ?case
  proof (cases "left = 0")
    case True
    then show ?thesis using "1.prems"(3) by (subst (asm) sweep_loop.simps) (simp add: swept_def)
  next
    case False
    obtain reg r where pop: "pop_expired now (sm_registry m) = (reg, r)" by fastforce
    show ?thesis
    proof (cases r)
      case None
      have "m' = m\<lparr> sm_registry := reg \<rparr>" "k = n"
        using "1.prems"(3) False pop None by (subst (asm) sweep_loop.simps, simp)+
      then show ?thesis
        using pop_none(2,3)[OF ok pop[unfolded None]] kstep.pop[OF pop[unfolded None], of b3 imp]
        by (auto simp: swept_def intro!: exI[of _ "[]"])
    next
      case (Some i)
      note turn = sweep_turn[OF ok pop[unfolded Some], of Expired_End]
      obtain m1 where rem: "remove_stream_state i Expired_End now (m\<lparr> sm_registry := reg \<rparr>) = (m1, True)"
        using turn(1) by (cases "remove_stream_state i Expired_End now (m\<lparr> sm_registry := reg \<rparr>)") simp
      have sat: "sat_add n 1 = n + 1" using "1.prems"(2) False by (simp add: sat_add_def)
      have rest: "sweep_loop (left - 1) now (n + 1) m1 = (m', k)"
        using "1.prems"(3) False pop Some rem sat by (subst (asm) sweep_loop.simps) simp
      have ok1: "machine_ok m1" using pop_remove(1)[OF ok pop[unfolded Some], of Expired_End now] rem by simp
      have "(kstep b3 imp)\<^sup>*\<^sup>* m1 m' \<and> (\<exists>ids. k = n + 1 + length ids \<and> swept (left - 1) now m1 ids m')"
        using "1.IH"(1)[OF False pop[symmetric] Some rem[symmetric] refl, unfolded sat, OF ok1 _ rest] "1.prems"(2) False
        by simp
      then obtain ids where ids: "(kstep b3 imp)\<^sup>*\<^sup>* m1 m'" "k = n + 1 + length ids" "swept (left - 1) now m1 ids m'" by blast
      obtain s where "stream_slot_of m i = Some s" "stream_is_expired (slot_metadata s) now"
        using pop_remove(3)[OF ok pop[unfolded Some]] by blast
      then have "swept left now m (i # ids) m'" using swept_Cons[OF ids(3) False] turn(2) rem by simp
      moreover have "kstep b3 imp m m1" using kstep.expire[OF pop[unfolded Some], of b3 imp Expired_End] rem by simp
      ultimately show ?thesis
        using ids(1,2) by (intro conjI exI[of _ "i # ids"]) (auto intro: converse_rtranclp_into_rtranclp)
    qed
  qed
qed

lemma retire_loop_steps: "(kstep b3 imp)\<^sup>*\<^sup>* m (fst (retire_loop left t n m))"
proof (induction left t n m rule: retire_loop.induct)
  case (2 left t n m)
  show ?case
    using "2.IH" kstep.fold_end[of m _ _ b3 imp]
    by (auto split: option.splits intro: converse_rtranclp_into_rtranclp)
qed simp

lemma sweep_steps:
  assumes "machine_ok m" "limit \<le> u64_max"
  shows "(kstep b3 imp)\<^sup>*\<^sup>* m (fst (sweep now limit t m))"
proof -
  obtain m1 k where l: "sweep_loop limit now 0 m = (m1, k)" by fastforce
  have "(kstep b3 imp)\<^sup>*\<^sup>* m m1" using sweep_loop_effect[OF assms(1) _ l] assms(2) by simp
  then show ?thesis
    using l retire_loop_steps[of b3 imp m1 limit "min t (usage_seq m)" 0]
    by (auto simp: sweep_def retire_end_records_def Let_def split: prod.split intro: rtranclp_trans)
qed

section \<open>Appends\<close>

lemma expire_idle_step: "kstep b3 imp m (expire_idle_producer i p now m)"
  unfolding expire_idle_producer_def by (rule kstep.producers) simp

lemma enforce_cap_step: "kstep b3 imp m (enforce_producer_cap i now m)"
  unfolding enforce_producer_cap_def by (rule kstep.producers) simp

lemma tidy_stream_steps: "(kstep b3 imp)\<^sup>*\<^sup>* m (fst (tidy_stream i now m))"
  using kstep.producers[of "slot_tidy now" b3 imp m i]
  by (auto simp: tidy_stream_def Let_def split: option.split)

text \<open>The machine on which a write is decided: the stream alive, its idle producer expired.\<close>

definition settled :: "bucket_stream_id \<Rightarrow> producer_request option \<Rightarrow> u64 \<Rightarrow> stream_state_machine \<Rightarrow> stream_state_machine" where
  "settled i producer now m =
     (case producer of None \<Rightarrow> m | Some p \<Rightarrow> expire_idle_producer i (pr_producer_id p) now m)"

lemma settled_steps: "(kstep b3 imp)\<^sup>*\<^sup>* m (settled i producer now m)"
  by (auto simp: settled_def expire_idle_step split: option.split)

lemma settled_effect:
  assumes ok: "machine_ok m"
  shows "machine_ok (settled i producer now m)"
    and "stream_slot_of m i = None \<Longrightarrow> stream_slot_of (settled i producer now m) i = None"
    and "stream_slot_of m i = Some s \<Longrightarrow> \<exists>s'. stream_slot_of (settled i producer now m) = (stream_slot_of m)(i \<mapsto> s') \<and> slot_body s' = slot_body s"
proof -
  show "machine_ok (settled i producer now m)" using ksteps_ok[OF settled_steps ok] .
  have up: "lookup = lookup(i \<mapsto> s)" if "lookup i = Some s" for lookup :: "bucket_stream_id \<Rightarrow> stream_slot option" and s
    using that by auto
  show "stream_slot_of m i = None \<Longrightarrow> stream_slot_of (settled i producer now m) i = None"
    using lookup_modify[OF ok] by (auto simp: settled_def expire_idle_producer_def split: option.split)
  show "stream_slot_of m i = Some s \<Longrightarrow> \<exists>s'. stream_slot_of (settled i producer now m) = (stream_slot_of m)(i \<mapsto> s') \<and> slot_body s' = slot_body s"
    using lookup_modify[OF ok, of i] up[of "stream_slot_of m" s]
    by (auto simp: settled_def expire_idle_producer_def split: option.split)
qed


lemma append_apply_steps:
  assumes s: "stream_slot_of m (ai_stream_id input) = Some s"
    and kind: "ai_kind input = CloseOnly \<Longrightarrow> ai_payload input = []"
    and fits: "ai_kind input \<noteq> CloseOnly \<Longrightarrow> md_tail_offset (slot_metadata s) + length (ai_payload input) \<le> u64_max"
  shows "(kstep b3 imp)\<^sup>*\<^sup>* m (fst (append_apply input gate fault (slot_metadata s) m))"
proof (cases "md_status (slot_metadata s) = Closed_Status")
  case True
  then show ?thesis by (simp add: append_apply_def)
next
  case False
  then have st: "md_status (slot_metadata s) = Open" by (cases "md_status (slot_metadata s)") simp_all
  show ?thesis
  proof (cases "check_append input fault (slot_metadata s)")
    case (Inl r)
    then show ?thesis using st by (simp add: append_apply_def)
  next
    case (Inr mc)
    obtain m1 off nxt ack where c: "commit_write (ai_stream_id input) (slot_metadata s) (length (ai_payload input))
        (ai_stream_seq input) (ai_close_after input) (ai_producer input) gate (ai_now_ms input) m = (m1, off, nxt, ack)"
      using prod_cases4 by blast
    show ?thesis
    proof (cases "ai_kind input = CloseOnly")
      case True
      have "kstep b3 imp m m1" using kstep.commit[OF s st] c kind[OF True] by simp
      then show ?thesis using st Inr c True by (simp add: append_apply_def)
    next
      case False
      then show ?thesis using kstep.append[OF s st fits[OF False] c] st Inr c by (auto simp: append_apply_def)
    qed
  qed
qed

text \<open>The gate refuses with an error, and repeats with the receipt of an earlier write.\<close>

lemma evaluate_repeats: "evaluate rec fl h key check = Repeat_Eval ack \<Longrightarrow> ack_is_repeat ack"
  by (auto simp: evaluate_defs ack_is_repeat_def Let_def split: option.splits if_splits)

lemma gate_outcomes:
  "producer_gate_of i producer check now m = Inl r \<Longrightarrow> is_error r"
  "producer_gate_of i producer check now m = Inr (Repeat_Gate ack) \<Longrightarrow> ack_is_repeat ack"
proof -
  have refusal: "is_error (refusal_response x)" for x by (cases x) simp_all
  show "producer_gate_of i producer check now m = Inl r \<Longrightarrow> is_error r"
    by (auto simp: producer_gate_of_def producer_write_key_def refusal split: option.splits sum.splits evaluation.splits if_splits)
  show "producer_gate_of i producer check now m = Inr (Repeat_Gate ack) \<Longrightarrow> ack_is_repeat ack"
    by (auto simp: producer_gate_of_def evaluate_write_def slot_evaluate_write_def
        split: option.splits sum.splits evaluation.splits if_splits dest: evaluate_repeats)
qed

lemma fault_outcome: "request_fault producer = Inl r \<Longrightarrow> is_error r"
  by (auto simp: request_fault_def producer_content_fault_def split: option.splits if_splits)

lemma repeat_is_repeat: "ack_is_repeat ack \<Longrightarrow> is_producer_repeat (repeat_response i ack close_only m)"
  by (simp add: repeat_response_def Let_def)

lemma scope_error: "validate_stream_scope i m = Some r \<Longrightarrow> is_error r"
  by (auto simp: validate_stream_scope_def split: if_splits)

lemma external_ref_error: "validate_external_payload_ref p = Some r \<Longrightarrow> is_error r"
  by (auto simp: validate_external_payload_ref_def split: if_splits)

lemmas outcome_intros = gate_outcomes fault_outcome repeat_is_repeat scope_error external_ref_error

lemma append_unenforced_cases:
  assumes "machine_ok m"
  obtains (refused) r where "is_error r" "append_unenforced input m = (m, r)"
  | (expired_stream) s where "stream_slot_of m (ai_stream_id input) = Some s" "stream_is_expired (slot_metadata s) (ai_now_ms input)"
      "append_unenforced input m =
        (fst (remove_stream_state (ai_stream_id input) Expired_End (ai_now_ms input) m), error StreamNotFound)"
  | (gated) r s where "stream_slot_of m (ai_stream_id input) = Some s" "is_error r \<or> is_producer_repeat r"
      "append_unenforced input m = (settled (ai_stream_id input) (ai_producer input) (ai_now_ms input) m, r)"
  | (applied) s s' gate fault where "stream_slot_of m (ai_stream_id input) = Some s"
      "\<not> stream_is_expired (slot_metadata s) (ai_now_ms input)"
      "stream_slot_of (settled (ai_stream_id input) (ai_producer input) (ai_now_ms input) m) = (stream_slot_of m)(ai_stream_id input \<mapsto> s')"
      "slot_body s' = slot_body s"
      "producer_gate_of (ai_stream_id input) (ai_producer input) (ai_check input) (ai_now_ms input)
         (settled (ai_stream_id input) (ai_producer input) (ai_now_ms input) m) = Inr gate"
      "\<And>ack. gate \<noteq> Repeat_Gate ack"
      "append_unenforced input m = append_apply input (gate_key gate) fault (slot_metadata s)
         (settled (ai_stream_id input) (ai_producer input) (ai_now_ms input) m)"
proof -
  let ?i = "ai_stream_id input" and ?now = "ai_now_ms input"
  let ?m2 = "settled ?i (ai_producer input) ?now m"
  show ?thesis
  proof (cases "validate_stream_scope ?i m = None \<and> stream_slot_of m ?i \<noteq> None")
    case False
    then have "\<exists>r. is_error r \<and> append_unenforced input m = (m, r)"
      by (cases "validate_stream_scope ?i m") (simp_all add: append_unenforced_def stream_metadata_of_slot outcome_intros Let_def)
    then show ?thesis using refused by blast
  next
    case True
    then obtain s where v: "validate_stream_scope ?i m = None" and s: "stream_slot_of m ?i = Some s" by auto
    show ?thesis
    proof (cases "stream_is_expired (slot_metadata s) ?now")
      case True
      show ?thesis by (rule expired_stream[OF s True])
          (use v s True in \<open>simp add: append_unenforced_def expire_stream_if_due_def stream_metadata_of_slot Let_def\<close>)
    next
      case False
      obtain s' where s': "stream_slot_of ?m2 = (stream_slot_of m)(?i \<mapsto> s')" "slot_body s' = slot_body s"
        using settled_effect(3)[OF assms s, of "ai_producer input" ?now] by (elim exE conjE) (rule that)
      have md: "stream_metadata_of ?m2 ?i = Some (slot_metadata s)"
        using s' slot_bodyD(1)[OF s'(2)] by (simp add: stream_metadata_of_slot)
      have md0: "stream_metadata_of m ?i = Some (slot_metadata s)" using s by (simp add: stream_metadata_of_slot)
      note live = False
      have exp: "expire_stream_if_due ?i ?now m = (m, False)" using md0 False by (simp add: expire_stream_if_due_def)
      have eq: "append_unenforced input m = (case producer_gate_of ?i (ai_producer input) (ai_check input) ?now ?m2 of
           Inl r \<Rightarrow> (?m2, r)
         | Inr (Repeat_Gate ack) \<Rightarrow> (?m2, repeat_response ?i ack (ai_kind input = CloseOnly) ?m2)
         | Inr gate \<Rightarrow> (case request_fault (ai_producer input) of Inl r \<Rightarrow> (?m2, r)
             | Inr fault \<Rightarrow> append_apply input (gate_key gate) fault (slot_metadata s) ?m2))"
        unfolding append_unenforced_def Let_def settled_def[symmetric]
        using v md md0 exp by (auto split: sum.split producer_gate.split)
      show ?thesis
      proof (cases "producer_gate_of ?i (ai_producer input) (ai_check input) ?now ?m2")
        case (Inl r)
        then show ?thesis using gated[OF s, of r] eq gate_outcomes(1)[OF Inl] by simp
      next
        case (Inr gate)
        show ?thesis
        proof (cases "\<exists>ack. gate = Repeat_Gate ack")
          case True
          then obtain ack where g: "gate = Repeat_Gate ack" by blast
          then have "is_producer_repeat (repeat_response ?i ack (ai_kind input = CloseOnly) ?m2)"
            using repeat_is_repeat[OF gate_outcomes(2)] Inr by blast
          then show ?thesis using gated[OF s] eq Inr g by auto
        next
          case False
          then show ?thesis using gated[OF s] applied[OF s live s' Inr] eq Inr fault_outcome
            by (cases "request_fault (ai_producer input)") (auto split: producer_gate.splits)
        qed
      qed
    qed
  qed
qed

lemma append_external_unenforced_cases:
  assumes "machine_ok m"
  obtains (refused) r where "is_error r" "append_external_unenforced input m = (m, r)"
  | (expired_stream) s where "stream_slot_of m (ax_stream_id input) = Some s" "stream_is_expired (slot_metadata s) (ax_now_ms input)"
      "append_external_unenforced input m =
        (fst (remove_stream_state (ax_stream_id input) Expired_End (ax_now_ms input) m), error StreamNotFound)"
  | (gated) r s where "stream_slot_of m (ax_stream_id input) = Some s" "is_error r \<or> is_producer_repeat r"
      "append_external_unenforced input m = (settled (ax_stream_id input) (ax_producer input) (ax_now_ms input) m, r)"
  | (applied) s s' gate fault where "validate_external_payload_ref (ax_payload input) = None" "stream_slot_of m (ax_stream_id input) = Some s"
      "\<not> stream_is_expired (slot_metadata s) (ax_now_ms input)"
      "stream_slot_of (settled (ax_stream_id input) (ax_producer input) (ax_now_ms input) m) = (stream_slot_of m)(ax_stream_id input \<mapsto> s')"
      "slot_body s' = slot_body s"
      "producer_gate_of (ax_stream_id input) (ax_producer input) (ax_check input) (ax_now_ms input)
         (settled (ax_stream_id input) (ax_producer input) (ax_now_ms input) m) = Inr gate"
      "\<And>ack. gate \<noteq> Repeat_Gate ack"
      "append_external_unenforced input m = append_external_apply input (gate_key gate) fault (slot_metadata s)
         (settled (ax_stream_id input) (ax_producer input) (ax_now_ms input) m)"
proof -
  let ?i = "ax_stream_id input" and ?now = "ax_now_ms input"
  let ?m2 = "settled ?i (ax_producer input) ?now m"
  show ?thesis
  proof (cases "validate_external_payload_ref (ax_payload input) = None \<and> validate_stream_scope ?i m = None \<and> stream_slot_of m ?i \<noteq> None")
    case False
    then have "\<exists>r. is_error r \<and> append_external_unenforced input m = (m, r)"
      by (cases "validate_external_payload_ref (ax_payload input)"; cases "validate_stream_scope ?i m") (simp_all add: append_external_unenforced_def stream_metadata_of_slot outcome_intros Let_def)
    then show ?thesis using refused by blast
  next
    case True
    then obtain s where p: "validate_external_payload_ref (ax_payload input) = None"
      and v: "validate_stream_scope ?i m = None" and s: "stream_slot_of m ?i = Some s" by auto
    show ?thesis
    proof (cases "stream_is_expired (slot_metadata s) ?now")
      case True
      show ?thesis by (rule expired_stream[OF s True])
          (use p v s True in \<open>simp add: append_external_unenforced_def expire_stream_if_due_def stream_metadata_of_slot Let_def\<close>)
    next
      case False
      obtain s' where s': "stream_slot_of ?m2 = (stream_slot_of m)(?i \<mapsto> s')" "slot_body s' = slot_body s"
        using settled_effect(3)[OF assms s, of "ax_producer input" ?now] by (elim exE conjE) (rule that)
      have md: "stream_metadata_of ?m2 ?i = Some (slot_metadata s)"
        using s' slot_bodyD(1)[OF s'(2)] by (simp add: stream_metadata_of_slot)
      have md0: "stream_metadata_of m ?i = Some (slot_metadata s)" using s by (simp add: stream_metadata_of_slot)
      note live = False
      have exp: "expire_stream_if_due ?i ?now m = (m, False)" using md0 False by (simp add: expire_stream_if_due_def)
      have eq: "append_external_unenforced input m = (case producer_gate_of ?i (ax_producer input) (ax_check input) ?now ?m2 of
           Inl r \<Rightarrow> (?m2, r)
         | Inr (Repeat_Gate ack) \<Rightarrow> (?m2, repeat_response ?i ack False ?m2)
         | Inr gate \<Rightarrow> (case request_fault (ax_producer input) of Inl r \<Rightarrow> (?m2, r)
             | Inr fault \<Rightarrow> append_external_apply input (gate_key gate) fault (slot_metadata s) ?m2))"
        unfolding append_external_unenforced_def Let_def settled_def[symmetric]
        using p v md md0 exp by (auto split: sum.split producer_gate.split)
      show ?thesis
      proof (cases "producer_gate_of ?i (ax_producer input) (ax_check input) ?now ?m2")
        case (Inl r)
        then show ?thesis using gated[OF s, of r] eq gate_outcomes(1)[OF Inl] by simp
      next
        case (Inr gate)
        show ?thesis
        proof (cases "\<exists>ack. gate = Repeat_Gate ack")
          case True
          then obtain ack where g: "gate = Repeat_Gate ack" by blast
          then have "is_producer_repeat (repeat_response ?i ack False ?m2)"
            using repeat_is_repeat[OF gate_outcomes(2)] Inr by blast
          then show ?thesis using gated[OF s] eq Inr g by auto
        next
          case False
          then show ?thesis using gated[OF s] applied[OF p s live s' Inr] eq Inr fault_outcome
            by (cases "request_fault (ax_producer input)") (auto split: producer_gate.splits)
        qed
      qed
    qed
  qed
qed

lemma append_unenforced_steps:
  assumes ok: "machine_ok m"
    and kind: "ai_kind input = CloseOnly \<Longrightarrow> ai_payload input = []"
    and fits: "\<And>s. ai_kind input \<noteq> CloseOnly \<Longrightarrow> stream_slot_of m (ai_stream_id input) = Some s \<Longrightarrow>
      md_tail_offset (slot_metadata s) + length (ai_payload input) \<le> u64_max"
  shows "(kstep b3 imp)\<^sup>*\<^sup>* m (fst (append_unenforced input m))"
proof (cases rule: append_unenforced_cases[OF ok, of input, case_names refused expired_stream gated applied])
  case (applied s s' gate fault)
  let ?m2 = "settled (ai_stream_id input) (ai_producer input) (ai_now_ms input) m"
  have "(kstep b3 imp)\<^sup>*\<^sup>* ?m2 (fst (append_apply input (gate_key gate) fault (slot_metadata s') ?m2))"
    by (rule append_apply_steps) (use applied kind fits slot_bodyD(1)[OF applied(4)] in simp_all)
  then show ?thesis
    using applied(7) slot_bodyD(1)[OF applied(4)] settled_steps[of b3 imp m "ai_stream_id input" "ai_producer input" "ai_now_ms input"]
    by (simp add: rtranclp_trans)
qed (auto intro: kstep.remove settled_steps)

lemma append_borrowed_steps:
  assumes "machine_ok m" "ai_kind input = CloseOnly \<Longrightarrow> ai_payload input = []"
    and "\<And>s. ai_kind input \<noteq> CloseOnly \<Longrightarrow> stream_slot_of m (ai_stream_id input) = Some s \<Longrightarrow>
      md_tail_offset (slot_metadata s) + length (ai_payload input) \<le> u64_max"
  shows "(kstep b3 imp)\<^sup>*\<^sup>* m (fst (append_borrowed input m))"
proof -
  have "(kstep b3 imp)\<^sup>*\<^sup>* m (fst (append_unenforced input m))" by (rule append_unenforced_steps) (fact assms)+
  then show ?thesis
    using enforce_cap_step[of b3 imp "fst (append_unenforced input m)" "ai_stream_id input" "ai_now_ms input"]
    by (auto simp: append_borrowed_def split: option.split prod.split intro: rtranclp.rtrancl_into_rtrancl)
qed

lemma check_append_external_open: "check_append_external input fault md = None \<Longrightarrow> md_status md = Open"
  by (cases "md_status md") (auto simp: check_append_external_def)

lemma append_external_apply_steps:
  assumes s: "stream_slot_of m (ax_stream_id input) = Some s" and pos: "validate_external_payload_ref (ax_payload input) = None"
    and fits: "md_tail_offset (slot_metadata s) + ep_payload_len (ax_payload input) \<le> u64_max"
  shows "(kstep b3 imp)\<^sup>*\<^sup>* m (fst (append_external_apply input gate fault (slot_metadata s) m))"
proof (cases "check_append_external input fault (slot_metadata s)")
  case None
  then have st: "md_status (slot_metadata s) = Open" by (rule check_append_external_open)
  obtain m1 off nxt ack where c: "commit_write (ax_stream_id input) (slot_metadata s) (ep_payload_len (ax_payload input))
      (ax_stream_seq input) (ax_close_after input) (ax_producer input) gate (ax_now_ms input) m = (m1, off, nxt, ack)"
    using prod_cases4 by blast
  show ?thesis using kstep.append_external[OF s st pos fits c] None c by (auto simp: append_external_apply_def)
qed (simp add: append_external_apply_def)

lemma append_external_steps:
  assumes ok: "machine_ok m"
    and fits: "\<And>s. stream_slot_of m (ax_stream_id input) = Some s \<Longrightarrow>
      md_tail_offset (slot_metadata s) + ep_payload_len (ax_payload input) \<le> u64_max"
  shows "(kstep b3 imp)\<^sup>*\<^sup>* m (fst (append_external input m))"
proof -
  have "(kstep b3 imp)\<^sup>*\<^sup>* m (fst (append_external_unenforced input m))"
  proof (cases rule: append_external_unenforced_cases[OF ok, of input, case_names refused expired_stream gated applied])
    case (applied s s' gate fault)
    let ?m2 = "settled (ax_stream_id input) (ax_producer input) (ax_now_ms input) m"
    have "(kstep b3 imp)\<^sup>*\<^sup>* ?m2 (fst (append_external_apply input (gate_key gate) fault (slot_metadata s') ?m2))"
      by (rule append_external_apply_steps) (use applied fits slot_bodyD(1)[OF applied(5)] in simp_all)
    then show ?thesis
      using applied(8) slot_bodyD(1)[OF applied(5)] settled_steps[of b3 imp m "ax_stream_id input" "ax_producer input" "ax_now_ms input"]
      by (simp add: rtranclp_trans)
  qed (auto intro: kstep.remove settled_steps)
  then show ?thesis
    using enforce_cap_step[of b3 imp "fst (append_external_unenforced input m)" "ax_stream_id input" "ax_now_ms input"]
    by (auto simp: append_external_def split: option.split prod.split intro: rtranclp.rtrancl_into_rtrancl)
qed

lemma close_stream_steps: "machine_ok m \<Longrightarrow> (kstep b3 imp)\<^sup>*\<^sup>* m (fst (close_stream i q producer now check m))"
  unfolding close_stream_def by (rule append_borrowed_steps) simp_all

section \<open>The cold tier\<close>

lemma publish_over_steps:
  "publish_over current i off obj digest tail now m = Some (m', r) \<Longrightarrow> (kstep b3 imp)\<^sup>*\<^sup>* m m'"
  by (auto simp: publish_over_def Let_def enqueue_path_step split: if_splits option.splits)

lemma publish_over_None:
  "publish_over current i off obj digest tail now m = None \<Longrightarrow> vs_offset current < off"
  by (auto simp: publish_over_def Let_def split: if_splits)

lemma publish_snapshot_steps: "(kstep b3 imp)\<^sup>*\<^sup>* m (fst (publish_snapshot b i off ct body now expected m))"
proof (cases "stream_slot_of m i")
  case None
  then show ?thesis by (auto simp: publish_snapshot_def split: option.split)
next
  case (Some s)
  obtain payload obj digest where b: "body_parts b ct body = (payload, obj, digest)" using prod_cases3 by blast
  let ?over = "Option.bind (slot_visible_snapshot s)
      (\<lambda>current. publish_over current i off obj digest (md_tail_offset (slot_metadata s)) now m)"
  let ?v = "\<lparr> vs_offset = off, vs_content_type = ct, vs_payload = payload, vs_digest = digest, vs_object = obj \<rparr>"
  have expired: "(kstep b3 imp)\<^sup>*\<^sup>* m (fst (remove_stream_state i Expired_End now m))" using Some kstep.remove by blast
  have over: "(kstep b3 imp)\<^sup>*\<^sup>* m (fst result)" if "?over = Some result" for result
    using that publish_over_steps by (cases result) (auto split: bind_splits)
  have publish: "(kstep b3 imp)\<^sup>*\<^sup>* m (publish_apply i s ?v now m)"
    if "?over = None" "slot_retained_offset s \<le> off" "off \<le> md_tail_offset (slot_metadata s)"
    using kstep.publish[OF Some, of ?v b3 imp now] that publish_over_None by (auto split: bind_splits)
  show ?thesis
    using Some b expired over publish
    by (auto simp: publish_snapshot_def earliest_retained_offset_def Let_def split: option.split)
qed

lemma advance_retention_steps: "(kstep b3 imp)\<^sup>*\<^sup>* m (fst (advance_retention b i r now expected m))"
proof (cases "stream_slot_of m i")
  case None
  then show ?thesis by (auto simp: advance_retention_def split: option.split)
next
  case (Some s)
  have expired: "(kstep b3 imp)\<^sup>*\<^sup>* m (fst (remove_stream_state i Expired_End now m))" using Some kstep.remove by blast
  show ?thesis
    using Some expired kstep.retain[OF Some, of r _ b3 imp "sat_add now retention_cold_gc_grace_ms"]
    by (auto simp: advance_retention_def earliest_retained_offset_def retain_effect_def Let_def split: option.split)
qed

lemma flush_cold_steps: "(kstep b3 imp)\<^sup>*\<^sup>* m (fst (flush_cold b3 i chunk planned m))"
proof (cases "check_cold_flush b3 i chunk m = None \<and> check_cold_flush_generation i planned m = None")
  case False
  then show ?thesis by (auto simp: flush_cold_def split: option.split)
next
  case True
  then obtain s where s: "stream_slot_of m i = Some s" by (auto simp: check_cold_flush_generation_def split: option.splits)
  have eff: "fst (flush_cold b3 i chunk planned m) = flush_effect i chunk m"
    using True by (simp add: flush_cold_def flush_effect_def Let_def)
  show ?thesis unfolding eff
    by (rule r_into_rtranclp, rule kstep.flush[OF s])
      (use True s in \<open>auto simp: check_cold_flush_def split: if_splits option.splits\<close>)
qed

lemma compact_cold_steps: "(kstep b3 imp)\<^sup>*\<^sup>* m (fst (compact_cold i old replacement t m))"
proof (cases "validate_stream_scope i m = None \<and> stream_slot_of m i \<noteq> None \<and> check_compaction old replacement \<noteq> None")
  case False
  then show ?thesis by (auto simp: compact_cold_def split: option.split)
next
  case True
  then obtain s c where s: "stream_slot_of m i = Some s" and c: "check_compaction old replacement = Some c"
    and v: "validate_stream_scope i m = None" by auto
  have same: "list_ex cc_shared_object old = list_all cc_shared_object old"
    using c by (auto simp: check_compaction_def split: if_splits)
  show ?thesis
  proof (cases "list_all cc_shared_object old")
    case True
    then have paths: "filter (\<lambda>c. \<not> cc_shared_object c) old = []" "filter cc_shared_object old = old"
      by (auto simp: list_all_iff filter_id_conv)
    show ?thesis
      using True paths v s c kstep.drop[of b3 imp m i old] kstep.compact[OF s _ True, of b3 imp t]
      by (auto simp: compact_cold_def drop_shared_def Let_def)
  next
    case False
    then have "filter cc_shared_object old = []" using same by (auto simp: list_ex_iff filter_empty_conv)
    then show ?thesis
      using False v s c enqueue_step[of b3 imp m] by (auto simp: compact_cold_def release_shared_cold_objects_def Let_def)
  qed
qed

lemma gc_steps:
  "(kstep b3 imp)\<^sup>*\<^sup>* m (fst (ack_cold_gc n m))" "(kstep b3 imp)\<^sup>*\<^sup>* m (fst (defer_cold_gc n t m))"
  using kstep.gc[of b3 imp m "Gc_Ack n"] kstep.gc[of b3 imp m "Gc_Defer n t"]
  by (auto simp: ack_cold_gc_def defer_cold_gc_def split: prod.split)

lemma offload_steps: "(kstep b3 imp)\<^sup>*\<^sup>* m (fst (offload_cold_refs i refs m))"
  using kstep.offload[of b3 imp m i refs] by (auto simp: offload_cold_refs_def split: option.split prod.split)

lemma import_steps: "list_all entry_ranged (ss_streams snapshot) \<Longrightarrow> list_all imp (ss_streams snapshot) \<Longrightarrow>
    (kstep b3 imp)\<^sup>*\<^sup>* m (fst (import_snapshot index snapshot h digest now m))"
  by (auto simp: import_snapshot_def Let_def split: sum.split intro: kstep.import_step)

lemma new_history_steps: "(kstep b3 imp)\<^sup>*\<^sup>* m (fst (new_history index h previous kept leader now m))"
  using kstep.history[of previous m b3 imp index h kept leader now]
  by (cases "previous = history_id m") (simp_all add: new_history_def)

section \<open>The dispatch\<close>

text \<open>The offsets a command makes or imports fit 64 bits, as every offset the code holds does.\<close>

fun fits :: "stream_command \<Rightarrow> stream_state_machine \<Rightarrow> bool" where
  "fits (CreateStream i ct payload close_after q ttl expires now) m \<longleftrightarrow> length payload \<le> u64_max"
| "fits (CreateExternal i ct payload mc close_after q ttl expires now) m \<longleftrightarrow> ep_payload_len payload \<le> u64_max"
| "fits (Append i ct payload close_after q producer now) m \<longleftrightarrow>
     (case stream_slot_of m i of None \<Rightarrow> True | Some s \<Rightarrow> md_tail_offset (slot_metadata s) + length payload \<le> u64_max)"
| "fits (AppendExternal i ct payload mc close_after q producer now) m \<longleftrightarrow>
     (case stream_slot_of m i of None \<Rightarrow> True | Some s \<Rightarrow> md_tail_offset (slot_metadata s) + ep_payload_len payload \<le> u64_max)"
| "fits (Sweep now limit t) m \<longleftrightarrow> limit \<le> u32_max"
| "fits (ImportSnapshot snapshot h digest now) m \<longleftrightarrow> list_all entry_ranged (ss_streams snapshot)"
| "fits (IfIncarnation incarnation command) m \<longleftrightarrow> fits command m"
| "fits _ m \<longleftrightarrow> True"

text \<open>What is known of the entries a command imports.\<close>

fun imported_by :: "(stream_snapshot_entry \<Rightarrow> bool) \<Rightarrow> stream_command \<Rightarrow> bool" where
  "imported_by imp (ImportSnapshot snapshot h digest now) \<longleftrightarrow> list_all imp (ss_streams snapshot)"
| "imported_by imp (IfIncarnation incarnation command) \<longleftrightarrow> imported_by imp command"
| "imported_by imp _ \<longleftrightarrow> True"

lemma imported_by_any [simp]: "imported_by (\<lambda>_. True) command"
  by (induction "\<lambda>_ :: stream_snapshot_entry. True" command rule: imported_by.induct) (simp_all add: list_all_iff)

lemma apply_checked_steps:
  "machine_ok m \<Longrightarrow> fits command m \<Longrightarrow> imported_by imp command \<Longrightarrow>
   (kstep b3 imp)\<^sup>*\<^sup>* m (fst (apply_checked b3 index command check m))"
proof (induction b3 index command check m rule: apply_checked.induct)
  case (2 b3 index i ct payload close_after q ttl expires now check m)
  then show ?case by (auto split: option.split intro!: create_stream_steps)
next
  case (20 b3 index now limit t check m)
  then show ?case using sweep_steps[of m limit b3 imp now t] by (simp add: u32_max_def u64_max_def)
qed (auto simp: create_bucket_steps publish_snapshot_steps advance_retention_steps touch_steps flush_cold_steps
      compact_cold_steps close_stream_steps delete_stream_steps purge_bucket_steps gc_steps import_steps new_history_steps
      tidy_stream_steps offload_steps split: option.split
      intro!: create_external_steps append_borrowed_steps append_external_steps)


section \<open>Logs\<close>

text \<open>A replica applies the entries of its log one after another.\<close>

fun replay :: "(byte list \<Rightarrow> byte list) \<Rightarrow> (u64 \<times> stream_command) list \<Rightarrow> stream_state_machine \<Rightarrow> stream_state_machine" where
  "replay b3 [] m = m"
| "replay b3 ((index, command) # es) m = replay b3 es (fst (apply_entry b3 index command m))"

fun log_fits :: "(byte list \<Rightarrow> byte list) \<Rightarrow> (u64 \<times> stream_command) list \<Rightarrow> stream_state_machine \<Rightarrow> bool" where
  "log_fits b3 [] m \<longleftrightarrow> True"
| "log_fits b3 ((index, command) # es) m \<longleftrightarrow> fits command m \<and> log_fits b3 es (fst (apply_entry b3 index command m))"

definition log_imports :: "(stream_snapshot_entry \<Rightarrow> bool) \<Rightarrow> (u64 \<times> stream_command) list \<Rightarrow> bool" where
  "log_imports imp es \<longleftrightarrow> list_all (\<lambda>(_, command). imported_by imp command) es"

lemma log_imports_any [simp]: "log_imports (\<lambda>_. True) es"
  by (simp add: log_imports_def list_all_iff case_prod_beta')

lemma fresh_ok: "inj ks \<Longrightarrow> machine_ok (new_machine ks)"
  by (simp add: machine_ok_def new_machine_def empty_registry_inv)

lemma apply_entry_steps:
  "machine_ok m \<Longrightarrow> fits command m \<Longrightarrow> imported_by imp command \<Longrightarrow> (kstep b3 imp)\<^sup>*\<^sup>* m (fst (apply_entry b3 index command m))"
  unfolding apply_entry_def by (rule apply_checked_steps)

lemma replay_steps: "machine_ok m \<Longrightarrow> log_fits b3 es m \<Longrightarrow> log_imports imp es \<Longrightarrow> (kstep b3 imp)\<^sup>*\<^sup>* m (replay b3 es m)"
proof (induction b3 es m rule: replay.induct)
  case (2 b3 index command es m)
  have s: "(kstep b3 imp)\<^sup>*\<^sup>* m (fst (apply_entry b3 index command m))" using "2.prems" by (simp add: apply_entry_steps log_imports_def)
  then show ?case using "2.IH" "2.prems" ksteps_ok[OF s] by (simp add: rtranclp_trans log_imports_def)
qed simp

lemma replay_ok: "machine_ok m \<Longrightarrow> log_fits b3 es m \<Longrightarrow> machine_ok (replay b3 es m)"
  using replay_steps[of m b3 es "\<lambda>_. True"] ksteps_ok by simp

lemma replay_append: "replay b3 (es @ es') m = replay b3 es' (replay b3 es m)"
  by (induction b3 es m rule: replay.induct) simp_all

end
