(* ===== verification/Slot_Steps.thy ===== *)
theory Slot_Steps
  imports Command_Steps
begin

text \<open>
  What a step of the machine does to one stream: it stays, it is removed, it changes in one of a few
  ways (\<open>slot_step\<close>), or it is new (\<open>slot_new\<close>). The invariant of a slot and the order of its versions
  are proved for those.
\<close>

inductive slot_step :: "(byte list \<Rightarrow> byte list) \<Rightarrow> stream_slot \<Rightarrow> stream_slot \<Rightarrow> bool" for b3 where
  producers: "slot_body s' = slot_body s \<Longrightarrow> slot_step b3 s s'"
| renew: "slot_step b3 s (s\<lparr> slot_metadata := renew_stream_ttl now (slot_metadata s) \<rparr>)"
| commit: "md_status (slot_metadata s) = Open \<Longrightarrow> committed s 0 q close_after now s' \<Longrightarrow> slot_step b3 s s'"
| append: "md_status (slot_metadata s) = Open \<Longrightarrow> md_tail_offset (slot_metadata s) + length payload \<le> u64_max \<Longrightarrow>
    committed s (length payload) q close_after now s1 \<Longrightarrow>
    slot_step b3 s (s1\<lparr> slot_hot_buffer := push_slice (md_tail_offset (slot_metadata s)) payload (slot_hot_buffer s1),
      slot_usage := (count_append (length payload) c now' (slot_usage s1))\<lparr> vu_seq := g \<rparr> \<rparr>)"
| append_external: "md_status (slot_metadata s) = Open \<Longrightarrow> md_tail_offset (slot_metadata s) + n \<le> u64_max \<Longrightarrow>
    committed s n q close_after now s1 \<Longrightarrow> valid_object_payload_ref obj \<Longrightarrow>
    op_start_offset obj = md_tail_offset (slot_metadata s) \<Longrightarrow> op_end_offset obj = md_tail_offset (slot_metadata s) + n \<Longrightarrow>
    slot_step b3 s (s1\<lparr> slot_cold := push_direct_external_segment obj (slot_cold s1),
      slot_usage := (count_append n c now' (slot_usage s1))\<lparr> vu_seq := g \<rparr> \<rparr>)"
| publish: "slot_retained_offset s \<le> vs_offset v \<Longrightarrow> vs_offset v \<le> md_tail_offset (slot_metadata s) \<Longrightarrow>
    (\<And>current. slot_visible_snapshot s = Some current \<Longrightarrow> vs_offset current < vs_offset v) \<Longrightarrow>
    slot_step b3 s (s\<lparr> slot_visible_snapshot := Some v, slot_usage := (slot_usage s)\<lparr> vu_seq := g \<rparr> \<rparr>)"
| retain: "slot_retained_offset s < r \<Longrightarrow> slot_visible_snapshot s = Some v \<Longrightarrow> r \<le> vs_offset v \<Longrightarrow>
    slot_step b3 s (s\<lparr> slot_retained_offset := r, slot_usage := (slot_usage s)\<lparr> vu_seq := g \<rparr>,
      slot_cold := fst (compact_before r (slot_cold s)), slot_hot_buffer := flush_prefix r (slot_hot_buffer s) \<rparr>)"
| flush: "check_chunk b3 chunk s = None \<Longrightarrow> trim (cc_s3_path chunk) \<noteq> [] \<Longrightarrow>
    slot_step b3 s (s\<lparr> slot_hot_buffer := flush_prefix (cc_end_offset chunk) (slot_hot_buffer s),
      slot_cold := push_cold_chunk chunk (slot_cold s) \<rparr>)"
| drop: "slot_step b3 s (s\<lparr> slot_cold := fst (remove_shared_chunks old (slot_cold s)) \<rparr>)"
| offload: "slot_step b3 s (s\<lparr> slot_cold := fst (remove_external_segments refs (slot_cold s)) \<rparr>)"

inductive_cases slot_step_cases: "slot_step b3 s s'"

text \<open>A stream the machine did not hold: created, or from an imported backup.\<close>

inductive slot_new :: "(stream_snapshot_entry \<Rightarrow> bool) \<Rightarrow> stream_state_machine \<Rightarrow> bucket_stream_id \<Rightarrow> stream_slot \<Rightarrow> bool"
  for imp where
  created: "stream_slot_of m (md_stream_id md) = None \<Longrightarrow> bsi_bucket (md_stream_id md) \<in> sm_buckets m \<Longrightarrow>
    sm_last_created_at_ms m < md_created_at_ms md \<Longrightarrow> fresh_parts md hot cold \<Longrightarrow> md_tail_offset md \<le> u64_max \<Longrightarrow>
    slot_new imp m (md_stream_id md) (created_slot md hot cold h u)"
| imported: "sm_buckets m = {} \<Longrightarrow> sm_erased_buckets m = {} \<Longrightarrow> entry_valid e \<Longrightarrow> entry_ranged e \<Longrightarrow> imp e \<Longrightarrow>
    slot_new imp m (entry_stream_id e) (restored_slot e ps u)"

lemma lookup_upd_cases:
  assumes "lookup' = lookup(i \<mapsto> x)" "lookup' j = Some s'"
  shows "lookup j = Some s' \<or> j = i \<and> s' = x"
  using assms by (cases "j = i") simp_all

text \<open>A slot that a step wrote at \<open>i\<close> is the slot at \<open>j\<close>, or \<open>j\<close> kept its own.\<close>

lemma changed_slot:
  assumes "stream_slot_of m' = (stream_slot_of m)(i \<mapsto> x)" "stream_slot_of m i = Some s" "slot_step b3 s x"
    "stream_slot_of m' j = Some s'"
  shows "\<exists>s. stream_slot_of m j = Some s \<and> (s' = s \<or> slot_step b3 s s')"
  using lookup_upd_cases[OF assms(1,4)] assms(2,3) by blast

lemma modified_slot:
  assumes "machine_ok m" "\<And>s. slot_step b3 s (f s)" "stream_slot_of (modify_stream_slot i f m) j = Some s'"
  shows "\<exists>s. stream_slot_of m j = Some s \<and> (s' = s \<or> slot_step b3 s s')"
  using assms lookup_modify[OF assms(1), of i f] by (cases "j = i") auto

lemma kept_slot:
  assumes "stream_slot_of m' = stream_slot_of m" "stream_slot_of m' j = Some s'"
  shows "\<exists>s. stream_slot_of m j = Some s \<and> (s' = s \<or> slot_step b3 s s')"
  using assms by auto

text \<open>Where a stream has its place: a live bucket, a creation time in the past, a history.\<close>

definition placed :: "stream_state_machine \<Rightarrow> bucket_stream_id \<Rightarrow> stream_slot \<Rightarrow> bool" where
  "placed m i s \<longleftrightarrow> bsi_bucket i \<in> sm_buckets m \<and>
     md_created_at_ms (slot_metadata s) \<le> sm_last_created_at_ms m \<and> sm_history m \<noteq> None"

lemma imported_effect:
  assumes ok: "machine_ok m"
    and restored: "restore_counted_since (reg_key_seq (sm_registry m)) snapshot h = Inr restored"
    and m': "m' = imported_machine index h digest now m restored"
  shows "stream_slot_of m' i = Some s \<Longrightarrow> placed m' i s" "restored_from (ss_streams snapshot) restored" "stream_slot_of m' = stream_slot_of restored"
    "sm_last_created_at_ms m \<le> sm_last_created_at_ms m'" "sm_buckets m' \<inter> sm_erased_buckets m' = {}"
    "sm_history m' \<noteq> None"
proof -
  note r = restore_effect[OF machine_ok_inj[OF ok] restored[unfolded restore_counted_since_def]]
  let ?r = "restored\<lparr> sm_last_created_at_ms := max (max (sm_last_created_at_ms restored) (sm_last_created_at_ms m)) now \<rparr>"
  have last: "sm_last_created_at_ms m' = sm_last_created_at_ms (normalize_last_created_at_ms ?r)"
    and hist: "sm_history m' \<noteq> None" by (simp_all add: m' imported_machine_def Let_def)
  have reg: "sm_registry ?r = sm_registry restored" by simp
  have okr: "machine_ok ?r" using r(1) machine_ok_cong[OF reg] by simp
  show same: "stream_slot_of m' = stream_slot_of restored" by (intro lookup_cong) (simp add: m')
  show "sm_history m' \<noteq> None" by (rule hist)
  show "stream_slot_of m' i = Some s \<Longrightarrow> placed m' i s"
    using r(2) hist normalize_bounds(2)[OF okr, of i s] lookup_cong[OF reg] unfolding same placed_def last restored_from_def
    by (simp add: m')
  show "restored_from (ss_streams snapshot) restored" by (rule r(2))
  show "sm_last_created_at_ms m \<le> sm_last_created_at_ms m'" using normalize_bounds(1)[OF okr] by (simp add: last)
  show "sm_buckets m' \<inter> sm_erased_buckets m' = {}" using r(5) by (simp add: m')
qed

lemma kstep_slots:
  assumes ok: "machine_ok m" and k: "kstep b3 imp m m'" and s': "stream_slot_of m' j = Some s'"
  shows "(\<exists>s. stream_slot_of m j = Some s \<and> (s' = s \<or> slot_step b3 s s')) \<or> slot_new imp m j s' \<and> placed m' j s'"
  using k
proof cases
  case (bucket b)
  then show ?thesis using kept_slot[OF lookup_cong s', of m] by simp
next
  case (gc op)
  then show ?thesis using kept_slot[OF lookup_cong s', of m] by simp
next
  case (producers f i)
  then show ?thesis using modified_slot[OF ok slot_step.producers, of f i j s'] s' by simp
next
  case (renew i now)
  then show ?thesis using modified_slot[OF ok slot_step.renew] s' by (simp add: modify_stream_metadata_def)
next
  case (refresh i)
  then show ?thesis using kept_slot[OF _ s', of m] by simp
next
  case (remove i s e now)
  then show ?thesis using lookup_remove(1)[OF machine_ok_struct[OF ok], of i e now] s' by (simp split: if_splits)
next
  case (expire now reg i e)
  then show ?thesis using sweep_turn(2)[OF ok expire(2)] s' by (simp split: if_splits)
next
  case (pop now reg)
  then show ?thesis using kept_slot[OF pop_none(2)[OF ok pop(2)]] s' by simp
next
  case (commit i s q close_after producer gate now off nxt ack)
  obtain s1 where l: "stream_slot_of m' = (stream_slot_of m)(i \<mapsto> s1)" "committed s 0 q close_after now s1"
    using commit_write_effect(4)[OF ok commit(1) refl commit(3)] by (elim exE conjE) (rule that)
  show ?thesis using changed_slot[OF l(1) commit(1) slot_step.commit[OF commit(2) l(2)] s'] by blast
next
  case (append i s payload q close_after producer gate now m1 off nxt ack mc)
  note e = commit_write_effect[OF ok append(2) refl append(5)]
  obtain s1 where l: "stream_slot_of m1 = (stream_slot_of m)(i \<mapsto> s1)" "committed s (length payload) q close_after now s1"
    using e(4) by (elim exE conjE) (rule that)
  have s1: "stream_slot_of m1 i = Some s1" using l(1) by simp
  obtain g where "stream_slot_of m' = (stream_slot_of m1)(i \<mapsto> s1\<lparr> slot_hot_buffer := push off nxt payload (slot_hot_buffer s1),
      slot_usage := (count_append (length payload) (appended_record_count mc (length payload)) now (slot_usage s1))\<lparr> vu_seq := g \<rparr> \<rparr>)"
    using push_payload_effect(2)[OF e(1) s1, of off nxt payload mc now] append(1) by (elim exE) (rule that, simp)
  then have "stream_slot_of m' = (stream_slot_of m)(i \<mapsto> s1\<lparr>
      slot_hot_buffer := push_slice (md_tail_offset (slot_metadata s)) payload (slot_hot_buffer s1),
      slot_usage := (count_append (length payload) (appended_record_count mc (length payload)) now (slot_usage s1))\<lparr> vu_seq := g \<rparr> \<rparr>)"
    using l(1) e(2) by (simp add: push_def)
  then show ?thesis using changed_slot[OF _ append(2) slot_step.append[OF append(3,4) l(2)] s'] by blast
next
  case (append_external input s q close_after producer gate now m1 off nxt ack)
  let ?i = "ax_stream_id input" and ?n = "ep_payload_len (ax_payload input)" and ?t = "md_tail_offset (slot_metadata s)"
  note e = commit_write_effect[OF ok append_external(2) refl append_external(6)]
  obtain s1 where l: "stream_slot_of m1 = (stream_slot_of m)(?i \<mapsto> s1)" "committed s ?n q close_after now s1"
    using e(4) by (elim exE conjE) (rule that)
  have s1: "stream_slot_of m1 ?i = Some s1" using l(1) by simp
  have nxt: "nxt = ?t + ?n" "off = ?t" using e(2,3) append_external(5) by (simp_all add: sat_add_exact)
  let ?obj = "\<lparr> op_start_offset = ?t, op_end_offset = ?t + ?n, op_s3_path = ep_s3_path (ax_payload input),
      op_object_size = ep_object_size (ax_payload input), op_object_offset = 0 \<rparr>"
  have m': "m' = push_external input ?t (?t + ?n) m1" using append_external(1) nxt by simp
  obtain g c where "stream_slot_of m' = (stream_slot_of m1)(?i \<mapsto> s1\<lparr> slot_cold := push_direct_external_segment ?obj (slot_cold s1),
      slot_usage := (count_append (?t + ?n - ?t) c (ax_now_ms input) (slot_usage s1))\<lparr> vu_seq := g \<rparr> \<rparr>)"
    using push_external_effect(2)[OF e(1) s1, of ?t "?t + ?n"] unfolding m'[symmetric] by (elim exE) (rule that)
  then have u: "stream_slot_of m' = (stream_slot_of m)(?i \<mapsto> s1\<lparr> slot_cold := push_direct_external_segment ?obj (slot_cold s1),
      slot_usage := (count_append ?n c (ax_now_ms input) (slot_usage s1))\<lparr> vu_seq := g \<rparr> \<rparr>)"
    using l(1) by simp
  have "?n \<le> u64_max" using append_external(5) by simp
  then have "slot_step b3 s (s1\<lparr> slot_cold := push_direct_external_segment ?obj (slot_cold s1),
      slot_usage := (count_append ?n c (ax_now_ms input) (slot_usage s1))\<lparr> vu_seq := g \<rparr> \<rparr>)"
    using slot_step.append_external[OF append_external(3,5) l(2) external_ref_valid[OF append_external(4) _ refl], of ?t] by simp
  then show ?thesis using changed_slot[OF u append_external(2) _ s'] by blast
next
  case (create h md hot cold mc now)
  obtain u where l: "stream_slot_of m' = (stream_slot_of m)(md_stream_id md \<mapsto> created_slot md hot cold (history_id m) u)"
    using install_effect(2)[OF ok create(3), of "he_id h" hot cold mc now] create(1) by (elim exE) (rule that, simp)
  have "slot_new imp m (md_stream_id md) (created_slot md hot cold (history_id m) u)"
    by (rule slot_new.created) (use create in simp_all)
  moreover have "placed m' (md_stream_id md) (created_slot md hot cold (history_id m) u)"
    using create install_effect(3-6)[OF ok create(3), of "he_id h" hot cold mc now] by (simp add: placed_def created_slot_def)
  ultimately show ?thesis using lookup_upd_cases[OF l s'] by blast
next
  case (publish i s v now)
  obtain g where l: "stream_slot_of m' = (stream_slot_of m)(i \<mapsto>
      s\<lparr> slot_visible_snapshot := Some v, slot_usage := (slot_usage s)\<lparr> vu_seq := g \<rparr> \<rparr>)"
    using publish_effect(2)[OF ok publish(2), of v now] publish(1) by (elim exE) (rule that, simp)
  show ?thesis using changed_slot[OF l publish(2) slot_step.publish[OF publish(3-5)] s'] by blast
next
  case (retain i s r v t)
  obtain g where l: "stream_slot_of m' = (stream_slot_of m)(i \<mapsto>
      s\<lparr> slot_retained_offset := r, slot_usage := (slot_usage s)\<lparr> vu_seq := g \<rparr>,
         slot_cold := fst (compact_before r (slot_cold s)), slot_hot_buffer := discard_before r (slot_hot_buffer s) \<rparr>)"
    using retain_effect_ok(2)[OF ok retain(2), of r t] retain(1) by (elim exE) (rule that, simp)
  show ?thesis using changed_slot[OF l[unfolded discard_before_def] retain(2) slot_step.retain[OF retain(3-5)] s'] by blast
next
  case (flush i s chunk)
  have l: "stream_slot_of m' = (stream_slot_of m)(i \<mapsto> s\<lparr> slot_hot_buffer := flush_prefix (cc_end_offset chunk) (slot_hot_buffer s),
         slot_cold := push_cold_chunk chunk (slot_cold s) \<rparr>)"
    using flush_effect_ok(2)[OF ok flush(2), of chunk] flush(1) by simp
  show ?thesis using changed_slot[OF l flush(2) slot_step.flush[OF flush(3,4)] s'] by blast
next
  case (drop i old)
  then show ?thesis using modified_slot[OF ok slot_step.drop] s' by (simp add: drop_shared_def)
next
  case (compact i s old t)
  have "sm_registry m' = sm_registry (drop_shared i old m)" using compact(1) by simp
  then have "stream_slot_of (drop_shared i old m) j = Some s'" using s' lookup_cong by metis
  then show ?thesis using modified_slot[OF ok slot_step.drop] by (simp add: drop_shared_def)
next
  case (offload i refs)
  then show ?thesis using modified_slot[OF ok slot_step.offload] s' by simp
next
  case (fold_end l r)
  then show ?thesis using kept_slot[OF lookup_cong s', of m] by simp
next
  case (erase b)
  then show ?thesis using kept_slot[OF lookup_cong s', of m] by simp
next
  case (history previous index h kept leader now)
  then show ?thesis using kept_slot[OF lookup_cong s', of m] by (simp add: new_history_def)
next
  case (import_step snapshot h restored index digest now)
  note p = imported_effect[OF ok import_step(7,1)]
  obtain e ps u where e: "e \<in> set (ss_streams snapshot)" "s' = restored_slot e ps u" "j = entry_stream_id e" "entry_valid e"
    using p(2) s' unfolding restored_from_def p(3) by blast
  have "entry_ranged e" "imp e" using e(1) import_step(5,6) by (simp_all add: list_all_iff)
  then show ?thesis using slot_new.imported[OF import_step(2,3) e(4)] e p(1)[OF s'] by blast
qed

section \<open>The invariant of a slot\<close>

definition slot_ok :: "stream_slot \<Rightarrow> bool" where
  "slot_ok s \<longleftrightarrow>
     (let tail = md_tail_offset (slot_metadata s)
      in tail \<le> u64_max \<and> hot_inv (slot_hot_buffer s) \<and> hot_below (slot_hot_buffer s) tail \<and>
         slot_retained_offset s \<le> tail \<and>
         (case slot_visible_snapshot s of None \<Rightarrow> True | Some v \<Rightarrow> vs_offset v \<le> tail) \<and>
         list_all valid_cold_chunk_ref (cold_chunks (slot_cold s)) \<and>
         list_all valid_object_payload_ref (external_segments (slot_cold s)))"

text \<open>What holds as well while every imported backup has sound references.\<close>

definition cold_ok :: "stream_slot \<Rightarrow> bool" where
  "cold_ok s \<longleftrightarrow> cold_sound (cold_chunks (slot_cold s)) (slot_hot_buffer s) (md_tail_offset (slot_metadata s))"

text \<open>An offset below every hot block is one below every hot byte.\<close>

lemma blocks_above:
  assumes "hot_inv h"
  shows "(\<forall>b \<in> set (hot_blocks h). x \<le> hb_start_offset b) \<longleftrightarrow> (\<forall>off \<in> dom (hot_map h). x \<le> off)"
proof -
  have "hb_start_offset b < hb_end b" if "b \<in> set (hot_blocks h)" for b
    using assms that hb_end_greater by (auto simp: hot_inv_def)
  then show ?thesis by (force simp: hot_map_def dom_blocks_map)
qed

lemma cold_sound_map:
  assumes "hot_inv h"
  shows "cold_sound refs h tail \<longleftrightarrow> distinct refs \<and>
    (\<forall>c \<in> set refs. cc_shared_object c \<and> valid_cold_chunk_ref c \<and> cc_end_offset c \<le> tail \<and>
       (\<forall>off \<in> dom (hot_map h). cc_end_offset c \<le> off))"
  by (simp add: cold_sound_def blocks_above[OF assms])

lemma cold_sound_mono:
  assumes "cold_sound refs h tail" "set refs' \<subseteq> set refs" "distinct refs'" "hot_inv h" "hot_inv h'"
    "dom (hot_map h') \<subseteq> dom (hot_map h) \<union> {tail..}" "tail \<le> tail'"
  shows "cold_sound refs' h' tail'"
proof -
  have "cc_end_offset c \<le> off" if "c \<in> set refs'" "off \<in> dom (hot_map h')" for c off
  proof -
    have c: "c \<in> set refs" and "off \<in> dom (hot_map h) \<or> tail \<le> off" using that assms(2,6) by auto
    then show ?thesis using assms(1) unfolding cold_sound_map[OF assms(4)] by (meson order.trans)
  qed
  then show ?thesis
    using assms(1-3,7) unfolding cold_sound_map[OF assms(4)] cold_sound_map[OF assms(5)] by (meson order.trans subsetD)
qed

lemma check_chunkD:
  assumes "check_chunk b3 chunk s = None" "hot_inv (slot_hot_buffer s)" "trim (cc_s3_path chunk) \<noteq> []"
  shows "valid_cold_chunk_ref chunk" "cc_end_offset chunk \<le> md_tail_offset (slot_metadata s)"
    "cc_start_offset chunk < cc_end_offset chunk"
    "cc_start_offset chunk \<in> dom (hot_map (slot_hot_buffer s))"
    "\<forall>off \<in> {cc_start_offset chunk..<cc_end_offset chunk}. hot_map (slot_hot_buffer s) off \<noteq> None"
proof -
  show lt: "cc_start_offset chunk < cc_end_offset chunk" and "cc_end_offset chunk \<le> md_tail_offset (slot_metadata s)"
    and "valid_cold_chunk_ref chunk"
    using assms(1,3) by (auto simp: check_chunk_def valid_cold_chunk_ref_def Let_def split: if_splits option.splits)
  have "covers_prefix (cc_start_offset chunk) (cc_end_offset chunk) (slot_hot_buffer s)"
    using assms(1) by (auto simp: check_chunk_def Let_def split: if_splits)
  then show "\<forall>off \<in> {cc_start_offset chunk..<cc_end_offset chunk}. hot_map (slot_hot_buffer s) off \<noteq> None"
    using covers_prefix_map[OF assms(2) lt] by simp
  then show "cc_start_offset chunk \<in> dom (hot_map (slot_hot_buffer s))" using lt by (auto simp: domIff)
qed

lemma cold_sound_push:
  assumes sound: "cold_sound (cold_chunks c) h tail" and inv: "hot_inv h"
    and chunk: "valid_cold_chunk_ref chunk" "cc_end_offset chunk \<le> tail" "cc_start_offset chunk \<in> dom (hot_map h)"
  shows "cold_sound (cold_chunks (push_cold_chunk chunk c)) (flush_prefix (cc_end_offset chunk) h) tail"
proof -
  have f: "hot_inv (flush_prefix (cc_end_offset chunk) h)"
    "hot_map (flush_prefix (cc_end_offset chunk) h) = hot_map h |` {cc_end_offset chunk..}"
    using flush_prefix_refines[OF inv] by auto
  have "cc_end_offset d \<le> cc_start_offset chunk \<and> cc_start_offset d < cc_end_offset d" if "d \<in> set (cold_chunks c)" for d
    using sound chunk(3) that by (auto simp: cold_sound_map[OF inv] valid_cold_chunk_ref_def)
  moreover have "cc_start_offset chunk < cc_end_offset chunk" using chunk(1) by (simp add: valid_cold_chunk_ref_def)
  ultimately have "chunk \<notin> set (cold_chunks c)" by fastforce
  then show ?thesis
    using sound chunk unfolding cold_sound_map[OF inv] cold_sound_map[OF f(1)] f(2) by (auto simp: push_cold_chunk_def)
qed

lemma slot_okD:
  assumes "slot_ok s"
  shows "md_tail_offset (slot_metadata s) \<le> u64_max" "hot_inv (slot_hot_buffer s)"
    "hot_below (slot_hot_buffer s) (md_tail_offset (slot_metadata s))"
    "slot_retained_offset s \<le> md_tail_offset (slot_metadata s)"
    "slot_visible_snapshot s = Some v \<Longrightarrow> vs_offset v \<le> md_tail_offset (slot_metadata s)"
    "list_all valid_cold_chunk_ref (cold_chunks (slot_cold s))"
    "list_all valid_object_payload_ref (external_segments (slot_cold s))"
  using assms by (auto simp: slot_ok_def Let_def)

lemma cold_parts [simp]:
  "cold_chunks (push_direct_external_segment obj c) = cold_chunks c"
  "external_segments (push_direct_external_segment obj c) = external_segments c @ [obj]"
  "external_segments (push_cold_chunk ch c) = external_segments c"
  "external_segments (fst (remove_shared_chunks old c)) = external_segments c"
  "cold_chunks (fst (remove_shared_chunks old c)) = filter (\<lambda>ch. ch \<notin> set old) (cold_chunks c)"
  "cold_chunks (fst (remove_external_segments refs c)) = cold_chunks c"
  "external_segments (fst (remove_external_segments refs c)) = filter (\<lambda>obj. obj \<notin> set refs) (external_segments c)"
  "cold_chunks (fst (compact_before r c)) = filter (\<lambda>ch. cc_end_offset ch > r) (cold_chunks c)"
  "external_segments (fst (compact_before r c)) = filter (\<lambda>obj. op_end_offset obj > r) (external_segments c)"
  by (simp_all add: push_direct_external_segment_def push_cold_chunk_def remove_shared_chunks_def
      remove_external_segments_def compact_before_def Let_def)

lemma hot_below_mono: "hot_below h t \<Longrightarrow> t \<le> t' \<Longrightarrow> hot_below h t'"
  by (auto simp: hot_below_def)

lemma slot_step_ok:
  assumes ok: "slot_ok s" and step: "slot_step b3 s s'"
  shows "slot_ok s'"
  using step
proof cases
  case producers
  then show ?thesis using ok slot_bodyD[OF producers] by (simp add: slot_ok_def)
next
  case (commit q close_after now)
  then show ?thesis using ok by (simp add: slot_ok_def committed_def Let_def)
next
  case (append payload q close_after now s1 c now' g)
  note D = slot_okD[OF ok]
  show ?thesis using append push_slice_refines[OF D(2,3) append(3)] D
    by (auto simp: slot_ok_def committed_def sat_add_exact Let_def split: option.splits)
next
  case (append_external n q close_after now s1 obj c now' g)
  note D = slot_okD[OF ok]
  show ?thesis using append_external D hot_below_mono[OF D(3)]
    by (auto simp: slot_ok_def committed_def sat_add_exact Let_def split: option.splits)
next
  case (retain r v g)
  note D = slot_okD[OF ok]
  have f: "hot_inv (flush_prefix r (slot_hot_buffer s))" "hot_below (flush_prefix r (slot_hot_buffer s)) (md_tail_offset (slot_metadata s))"
    using flush_prefix_refines[OF D(2)] D(3) by auto
  then show ?thesis using retain D D(5)[OF retain(3)] by (simp add: slot_ok_def list_all_iff)
next
  case (flush chunk)
  note D = slot_okD[OF ok]
  show ?thesis
    using check_chunkD(1)[OF flush(2) D(2) flush(3)] flush flush_prefix_refines[OF D(2)] D
    by (auto simp: slot_ok_def push_cold_chunk_def Let_def split: option.splits)
next
  case (drop old)
  then show ?thesis using ok by (auto simp: slot_ok_def list_all_iff Let_def split: option.splits)
qed (use ok in \<open>auto simp: slot_ok_def Let_def list_all_iff split: option.splits\<close>)

lemma slot_step_cold:
  assumes ok: "slot_ok s" and cold: "cold_ok s" and step: "slot_step b3 s s'"
  shows "cold_ok s'"
  using step
proof cases
  case producers
  then show ?thesis using cold slot_bodyD[OF producers] by (simp add: cold_ok_def)
next
  case (commit q close_after now)
  then show ?thesis using cold slot_okD(1)[OF ok] by (simp add: cold_ok_def committed_def sat_add_def Let_def)
next
  case (append payload q close_after now s1 c now' g)
  note D = slot_okD[OF ok] and C = cold[unfolded cold_ok_def]
  note r = push_slice_refines[OF D(2,3) append(3)]
  have "dom (hot_map (push_slice (md_tail_offset (slot_metadata s)) payload (slot_hot_buffer s))) \<subseteq>
      dom (hot_map (slot_hot_buffer s)) \<union> {md_tail_offset (slot_metadata s)..}"
    using r by (auto simp: dom_range_map)
  then have "cold_sound (cold_chunks (slot_cold s)) (push_slice (md_tail_offset (slot_metadata s)) payload (slot_hot_buffer s))
      (md_tail_offset (slot_metadata s) + length payload)"
    by (intro cold_sound_mono[OF C order_refl _ D(2)]) (use C r in \<open>simp_all add: cold_sound_def\<close>)
  then show ?thesis using append D by (auto simp: cold_ok_def committed_def sat_add_exact Let_def)
next
  case (append_external n q close_after now s1 obj c now' g)
  have "cold_sound (cold_chunks (slot_cold s)) (slot_hot_buffer s) (md_tail_offset (slot_metadata s) + n)"
    using cold by (auto simp: cold_ok_def cold_sound_def)
  then show ?thesis using append_external slot_okD(1)[OF ok] by (auto simp: cold_ok_def committed_def sat_add_exact Let_def)
next
  case (retain r v g)
  note D = slot_okD[OF ok] and C = cold[unfolded cold_ok_def]
  have f: "hot_inv (flush_prefix r (slot_hot_buffer s))"
    "dom (hot_map (flush_prefix r (slot_hot_buffer s))) \<subseteq> dom (hot_map (slot_hot_buffer s))"
    using flush_prefix_refines[OF D(2)] D(3) by auto
  have "cold_sound (filter (\<lambda>ch. cc_end_offset ch > r) (cold_chunks (slot_cold s))) (flush_prefix r (slot_hot_buffer s))
      (md_tail_offset (slot_metadata s))"
    by (rule cold_sound_mono[OF C _ _ D(2) f(1)]) (use C f(2) in \<open>auto simp: cold_sound_def\<close>)
  then show ?thesis using retain by (simp add: cold_ok_def)
next
  case (flush chunk)
  note D = slot_okD[OF ok]
  note C = check_chunkD[OF flush(2) D(2) flush(3)]
  show ?thesis using cold_sound_push[OF cold[unfolded cold_ok_def] D(2) C(1,2,4)] flush by (simp add: cold_ok_def)
next
  case (drop old)
  note D = slot_okD[OF ok] and C = cold[unfolded cold_ok_def]
  have "cold_sound (filter (\<lambda>ch. ch \<notin> set old) (cold_chunks (slot_cold s))) (slot_hot_buffer s) (md_tail_offset (slot_metadata s))"
    by (rule cold_sound_mono[OF C _ _ D(2,2)]) (use C in \<open>auto simp: cold_sound_def\<close>)
  then show ?thesis using drop by (simp add: cold_ok_def)
qed (use cold in \<open>simp_all add: cold_ok_def\<close>)

lemma restored_blocks:
  assumes "match_payload_loop (length payload) k segs" "sources_loop tail p segs" "tail \<le> u64_max"
  shows "blocks_ok (from_snapshot_blocks payload segs) \<and>
    (\<forall>b \<in> set (from_snapshot_blocks payload segs). p \<le> hb_start_offset b \<and> hb_end b \<le> tail)"
  using assms
proof (induction segs arbitrary: k p)
  case (Cons g segs)
  let ?bytes = "take (hs_payload_end g - hs_payload_start g) (drop (hs_payload_start g) payload)"
  have g: "hs_start_offset g < hs_end_offset g" "p \<le> hs_start_offset g" "hs_end_offset g \<le> tail"
    "hs_payload_end g \<le> length payload" "hs_end_offset g - hs_start_offset g = hs_payload_end g - hs_payload_start g"
    using Cons.prems by (auto split: if_splits)
  then have len: "length ?bytes = hs_end_offset g - hs_start_offset g" by simp
  have slice: "slice_get payload (hs_payload_start g) (hs_payload_end g) = Some ?bytes"
    using g by (simp add: slice_get_def)
  have "blocks_ok (from_snapshot_blocks payload segs) \<and>
      (\<forall>b \<in> set (from_snapshot_blocks payload segs). hs_end_offset g \<le> hb_start_offset b \<and> hb_end b \<le> tail)"
    using Cons.prems by (intro Cons.IH[of "hs_payload_end g"]) (auto split: if_splits)
  moreover have "?bytes \<noteq> []" using len g(1) by (metis less_numeral_extra(3) list.size(3) zero_less_diff)
  moreover have "hs_start_offset g + length ?bytes = hs_end_offset g" using len g(1) by simp
  ultimately show ?case using slice g Cons.prems(3)
    by (fastforce simp: hb_end_def blocks_ok_def simp del: length_take)
qed (simp add: blocks_ok_def)

lemma from_snapshot_refines:
  assumes "hot_segments_match_payload segs (length payload)" "sources_loop tail 0 segs" "tail \<le> u64_max"
  shows "hot_inv (from_snapshot payload segs)" "hot_below (from_snapshot payload segs) tail"
proof -
  let ?bs = "from_snapshot_blocks payload segs"
  have b: "blocks_ok ?bs" "\<forall>b \<in> set ?bs. hb_end b \<le> tail"
    using restored_blocks[of payload 0 segs tail 0] assms by (auto simp: hot_segments_match_payload_def)
  then show "hot_inv (from_snapshot payload segs)"
    using fold_sat_add[of 0 "\<lambda>b. length (hb_bytes b)" ?bs] sum_length_u64[OF b(1)]
    by (simp add: from_snapshot_def hot_inv_def Let_def u64_max_def)
  show "hot_below (from_snapshot payload segs) tail" using b(2) by (simp add: from_snapshot_def hot_below_def Let_def)
qed

lemma slot_new_ok:
  assumes "slot_new imp m i s"
  shows "slot_ok s"
  using assms
proof cases
  case (created md hot cold h u)
  show ?thesis
    using created(6,7) from_payload_refines[of 0] unfolding fresh_parts_def created(2)
    by (elim disjE exE conjE) (simp_all add: slot_ok_def created_slot_def with_generation_def Let_def)
next
  case (imported e ps u)
  have r: "hot_inv (from_snapshot (se_payload e) (se_hot_segments e))"
    "hot_below (from_snapshot (se_payload e) (se_hot_segments e)) (md_tail_offset (se_metadata e))"
    using from_snapshot_refines[of "se_hot_segments e" "se_payload e" "md_tail_offset (se_metadata e)"] imported(5,6)
    by (auto simp: entry_valid_def entry_ranged_def payload_sources_cover_retained_suffix_def split: if_splits)
  then show ?thesis
    using imported(5,6) unfolding imported(2)
    by (auto simp: slot_ok_def restored_slot_def restore_cold_state_def entry_valid_def entry_ranged_def
        payload_sources_cover_retained_suffix_def Let_def split: if_splits option.splits)
qed

lemma slot_new_cold:
  assumes "slot_new entry_sound m i s"
  shows "cold_ok s"
  using assms
proof cases
  case (created md hot cold h u)
  then show ?thesis
    by (auto simp: cold_ok_def fresh_parts_def created_slot_def cold_sound_def with_generation_def)
next
  case (imported e ps u)
  then show ?thesis by (simp add: cold_ok_def restored_slot_def restore_cold_state_def entry_sound_def)
qed

section \<open>The versions of one stream\<close>

text \<open>How a later version of a stream relates to an earlier one: its identity and terms are fixed,
  its offsets only grow, a closed stream keeps its tail, and a byte below the earlier tail is unchanged
  for as long as it is hot.\<close>

definition evolves :: "stream_slot \<Rightarrow> stream_slot \<Rightarrow> bool" where
  "evolves s s' \<longleftrightarrow>
     (let md = slot_metadata s; md' = slot_metadata s'
      in md_stream_id md' = md_stream_id md \<and> md_content_type md' = md_content_type md \<and>
         md_created_at_ms md' = md_created_at_ms md \<and> md_stream_ttl_seconds md' = md_stream_ttl_seconds md \<and>
         md_stream_expires_at_ms md' = md_stream_expires_at_ms md \<and>
         cold_generation (slot_cold s') = cold_generation (slot_cold s) \<and>
         md_tail_offset md \<le> md_tail_offset md' \<and> slot_retained_offset s \<le> slot_retained_offset s' \<and>
         (md_status md = Closed_Status \<longrightarrow> md_status md' = Closed_Status \<and> md_tail_offset md' = md_tail_offset md) \<and>
         (\<forall>v. slot_visible_snapshot s = Some v \<longrightarrow>
            (\<exists>v'. slot_visible_snapshot s' = Some v' \<and> vs_offset v \<le> vs_offset v')) \<and>
         (\<forall>off < md_tail_offset md. hot_map (slot_hot_buffer s') off \<noteq> None \<longrightarrow>
            hot_map (slot_hot_buffer s') off = hot_map (slot_hot_buffer s) off))"

lemma evolves_refl [simp]: "evolves s s"
  by (simp add: evolves_def Let_def)

lemma evolves_trans [trans]:
  assumes "evolves s s1" "evolves s1 s2"
  shows "evolves s s2"
proof -
  note d = assms[unfolded evolves_def Let_def]
  have "hot_map (slot_hot_buffer s2) off = hot_map (slot_hot_buffer s) off"
    if "off < md_tail_offset (slot_metadata s)" "hot_map (slot_hot_buffer s2) off \<noteq> None" for off
  proof -
    have "off < md_tail_offset (slot_metadata s1)" using that(1) d(1) by linarith
    then have "hot_map (slot_hot_buffer s2) off = hot_map (slot_hot_buffer s1) off" using d(2) that(2) by blast
    then show ?thesis using d(1) that by metis
  qed
  moreover have "\<exists>v'. slot_visible_snapshot s2 = Some v' \<and> vs_offset v \<le> vs_offset v'"
    if "slot_visible_snapshot s = Some v" for v
    using d that by (metis order.trans)
  ultimately show ?thesis using d unfolding evolves_def Let_def by auto
qed

lemma written_fixed [simp]:
  "md_stream_ttl_seconds (written_metadata len q close_after now md) = md_stream_ttl_seconds md"
  "md_stream_expires_at_ms (written_metadata len q close_after now md) = md_stream_expires_at_ms md"
  by (simp_all add: written_metadata_def renew_stream_ttl_def Let_def split: option.split)

lemma slot_step_evolves:
  assumes ok: "slot_ok s" and step: "slot_step b3 s s'"
  shows "evolves s s'"
  using step
proof cases
  case producers
  then show ?thesis using slot_bodyD[OF producers] by (simp add: evolves_def)
next
  case (commit q close_after now)
  then show ?thesis using slot_okD(1)[OF ok] by (simp add: evolves_def committed_def sat_add_def Let_def)
next
  case (append payload q close_after now s1 c now' g)
  note D = slot_okD[OF ok]
  have "hot_map (push_slice (md_tail_offset (slot_metadata s)) payload (slot_hot_buffer s)) off = hot_map (slot_hot_buffer s) off"
    if "off < md_tail_offset (slot_metadata s)" for off
    using hot.put_reads_back(2)[OF D(2,3) append(3) that] .
  then show ?thesis using append by (simp add: evolves_def committed_def sat_add_exact Let_def)
next
  case (append_external n q close_after now s1 obj c now' g)
  then show ?thesis by (simp add: evolves_def committed_def sat_add_exact Let_def)
next
  case (publish v g)
  then show ?thesis by (auto simp: evolves_def Let_def intro: less_imp_le)
next
  case (retain r v g)
  then show ?thesis using flush_prefix_refines[OF slot_okD(2)[OF ok], of r] by (auto simp: evolves_def restrict_map_def Let_def)
next
  case (flush chunk)
  then show ?thesis using flush_prefix_refines[OF slot_okD(2)[OF ok], of "cc_end_offset chunk"]
    by (auto simp: evolves_def restrict_map_def Let_def)
qed (simp_all add: evolves_def Let_def)

end
