(* ===== verification/Machine_Invariants.thy ===== *)
theory Machine_Invariants
  imports Slot_Steps
begin

text \<open>
  Invariants of the machines a log reaches. An invariant is proved once per kind of step; the locale
  carries it to every command and every log.
\<close>

locale machine_invariant =
  fixes b3 :: "byte list \<Rightarrow> byte list" and imp :: "stream_snapshot_entry \<Rightarrow> bool" and I :: "stream_state_machine \<Rightarrow> bool"
  assumes fresh_law: "inj ks \<Longrightarrow> I (new_machine ks)"
    and step_law: "machine_ok m \<Longrightarrow> I m \<Longrightarrow> kstep b3 imp m m' \<Longrightarrow> I m'"
begin

lemma steps_keep: "(kstep b3 imp)\<^sup>*\<^sup>* m m' \<Longrightarrow> machine_ok m \<Longrightarrow> I m \<Longrightarrow> I m'"
proof (induction rule: rtranclp_induct)
  case (step m1 m2)
  then show ?case using step_law ksteps_ok by blast
qed simp

lemma command_keeps:
  "machine_ok m \<Longrightarrow> I m \<Longrightarrow> fits command m \<Longrightarrow> imported_by imp command \<Longrightarrow> I (fst (apply_checked b3 index command check m))"
  using steps_keep[OF apply_checked_steps] by blast

lemma replay_keeps: "machine_ok m \<Longrightarrow> I m \<Longrightarrow> log_fits b3 es m \<Longrightarrow> log_imports imp es \<Longrightarrow> I (replay b3 es m)"
  using steps_keep[OF replay_steps] by blast

lemma reached: "inj ks \<Longrightarrow> log_fits b3 es (new_machine ks) \<Longrightarrow> log_imports imp es \<Longrightarrow> I (replay b3 es (new_machine ks))"
  using replay_keeps[OF fresh_ok fresh_law] by blast

end

section \<open>Streams\<close>

lemma new_machine_empty [simp]: "stream_slot_of (new_machine ks) i = None"
  by (simp add: stream_slot_of_def new_machine_def empty_registry_def reg_slot_def)

lemma new_machine_fields [simp]:
  "sm_buckets (new_machine ks) = {}" "sm_erased_buckets (new_machine ks) = {}" "sm_hot_payload_bytes (new_machine ks) = 0"
  "sm_shared_refs (new_machine ks) = []" "sm_usage (new_machine ks) = empty_ledger" "sm_cold_gc (new_machine ks) = empty_gc_queue"
  "fp_hot_streams (sm_flush_planner (new_machine ks)) = {}" "sm_history (new_machine ks) = None"
  by (simp_all add: new_machine_def)

definition slots_ok :: "stream_state_machine \<Rightarrow> bool" where
  "slots_ok m \<longleftrightarrow> (\<forall>i s. stream_slot_of m i = Some s \<longrightarrow> slot_ok s)"

lemma slots_ok_step: "machine_ok m \<Longrightarrow> slots_ok m \<Longrightarrow> kstep b3 imp m m' \<Longrightarrow> slots_ok m'"
  using kstep_slots slot_step_ok slot_new_ok unfolding slots_ok_def by metis

interpretation slots: machine_invariant b3 imp slots_ok for b3 imp
  by unfold_locales (simp add: slots_ok_def, rule slots_ok_step)

text \<open>References to shared packs, while every imported backup has sound ones.\<close>

definition colds_ok :: "stream_state_machine \<Rightarrow> bool" where
  "colds_ok m \<longleftrightarrow> slots_ok m \<and> (\<forall>i s. stream_slot_of m i = Some s \<longrightarrow> cold_ok s)"

lemma colds_ok_step: "machine_ok m \<Longrightarrow> colds_ok m \<Longrightarrow> kstep b3 entry_sound m m' \<Longrightarrow> colds_ok m'"
  using slots_ok_step kstep_slots slot_step_cold slot_new_cold unfolding colds_ok_def slots_ok_def by metis

interpretation colds: machine_invariant b3 entry_sound colds_ok for b3
  by unfold_locales (simp add: colds_ok_def slots_ok_def, rule colds_ok_step)

text \<open>A backup of such a group has sound references again.\<close>

lemma snapshot_sound:
  assumes ok: "machine_ok m" and cold: "colds_ok m"
  shows "list_all entry_sound (ss_streams (snapshot_of m))"
proof -
  have "entry_sound (snapshot_entry m s)" if "s \<in> set (reg_slot_values (sm_registry m))" for s
  proof -
    have s: "slot_ok s" "cold_ok s" using that cold by (auto simp: slot_values_lookup[OF ok] colds_ok_def slots_ok_def)
    show ?thesis
      using s(2) from_snapshot_hot_segments[OF slot_okD(2)[OF s(1)]] by (simp add: entry_sound_def snapshot_entry_def cold_ok_def)
  qed
  then show ?thesis by (auto simp: snapshot_of_def list_all_iff)
qed

section \<open>Buckets, creation times and the history\<close>

text \<open>Streams live in live buckets, are not younger than the last creation time, and need a history;
  an erased bucket is not live.\<close>

definition world_ok :: "stream_state_machine \<Rightarrow> bool" where
  "world_ok m \<longleftrightarrow> sm_buckets m \<inter> sm_erased_buckets m = {} \<and> (\<forall>i s. stream_slot_of m i = Some s \<longrightarrow> placed m i s)"

definition same_world :: "stream_state_machine \<Rightarrow> stream_state_machine \<Rightarrow> bool" where
  "same_world m m' \<longleftrightarrow> sm_buckets m' = sm_buckets m \<and> sm_erased_buckets m' = sm_erased_buckets m \<and>
     sm_last_created_at_ms m \<le> sm_last_created_at_ms m' \<and> (sm_history m \<noteq> None \<longrightarrow> sm_history m' \<noteq> None)"

lemma commit_world: "commit_write i md n q close_after producer gate now m = (m1, off, nxt, ack) \<Longrightarrow> same_world m m1"
  by (auto simp: commit_write_def record_producer_success_def same_world_def Let_def split: option.splits prod.splits)

lemma push_world: "same_world m (push_payload i off nxt payload mc now m)" "same_world m (push_external input off nxt m)"
  by (simp_all add: same_world_def push_payload_def push_external_def Let_def)

lemma same_world_trans: "same_world m m1 \<Longrightarrow> same_world m1 m2 \<Longrightarrow> same_world m m2"
  by (auto simp: same_world_def)

text \<open>What a step may do to the buckets, the clock of creations and the history.\<close>

inductive world_step :: "stream_state_machine \<Rightarrow> stream_state_machine \<Rightarrow> bool" where
  same: "same_world m m' \<Longrightarrow> world_step m m'"
| live: "b \<notin> sm_erased_buckets m \<Longrightarrow> world_step m (m\<lparr> sm_buckets := insert b (sm_buckets m) \<rparr>)"
| erased: "(\<And>i. bsi_bucket i = b \<Longrightarrow> stream_slot_of m i = None) \<Longrightarrow>
    world_step m (m\<lparr> sm_buckets := sm_buckets m - {b}, sm_erased_buckets := insert b (sm_erased_buckets m) \<rparr>)"
| imported: "sm_buckets m = {} \<Longrightarrow> sm_erased_buckets m = {} \<Longrightarrow> sm_buckets m' \<inter> sm_erased_buckets m' = {} \<Longrightarrow>
    sm_last_created_at_ms m \<le> sm_last_created_at_ms m' \<Longrightarrow> sm_history m' \<noteq> None \<Longrightarrow> world_step m m'"

lemma kstep_world:
  assumes ok: "machine_ok m" and k: "kstep b3 imp m m'"
  shows "world_step m m'"
  using k
proof cases
  case (commit i s q close_after producer gate now off nxt ack)
  show ?thesis by (rule world_step.same[OF commit_world[OF commit(3)]])
next
  case (append i s payload q close_after producer gate now m1 off nxt ack mc)
  show ?thesis unfolding append(1) by (rule world_step.same[OF same_world_trans[OF commit_world[OF append(5)] push_world(1)]])
next
  case (append_external input s q close_after producer gate now m1 off nxt ack)
  show ?thesis unfolding append_external(1)
    by (rule world_step.same[OF same_world_trans[OF commit_world[OF append_external(6)] push_world(2)]])
next
  case (create h md hot cold mc now)
  then show ?thesis using install_effect(3-6)[OF ok create(3), of "he_id h" hot cold mc now]
    by (intro world_step.same) (simp add: same_world_def)
next
  case (import_step snapshot h restored index digest now)
  show ?thesis using imported_effect(4-6)[OF ok import_step(7,1)] import_step(2,3) by (intro world_step.imported)
next
  case (bucket b)
  then show ?thesis using world_step.live by simp
next
  case (erase b)
  then show ?thesis using world_step.erased by simp
next
  case (retain i s r v t)
  then show ?thesis using retain_effect_ok(3-6)[OF ok retain(2), of r t] by (intro world_step.same) (simp add: same_world_def)
qed (auto intro!: world_step.same simp: same_world_def publish_apply_def flush_effect_def drop_shared_def record_folded_def
      modify_stream_metadata_def new_history_def Let_def split: option.split)


lemma slot_step_created:
  "slot_step b3 s s' \<Longrightarrow> md_created_at_ms (slot_metadata s') = md_created_at_ms (slot_metadata s)"
  by (cases rule: slot_step.cases) (auto simp: committed_def dest: slot_bodyD(1))

lemma world_step_placed:
  "world_step m m' \<Longrightarrow> placed m i s \<Longrightarrow> stream_slot_of m i = Some s \<Longrightarrow>
   md_created_at_ms (slot_metadata s') = md_created_at_ms (slot_metadata s) \<Longrightarrow> placed m' i s'"
  by (induction rule: world_step.induct) (auto simp: placed_def same_world_def)

lemma world_step_disjoint:
  "world_step m m' \<Longrightarrow> sm_buckets m \<inter> sm_erased_buckets m = {} \<Longrightarrow> sm_buckets m' \<inter> sm_erased_buckets m' = {}"
  by (induction rule: world_step.induct) (auto simp: same_world_def)

lemma world_ok_step:
  assumes ok: "machine_ok m" and w: "world_ok m" and k: "kstep b3 imp m m'"
  shows "world_ok m'"
proof -
  have "placed m' i s'" if "stream_slot_of m' i = Some s'" for i s'
    using kstep_slots[OF ok k that]
  proof
    assume "\<exists>s. stream_slot_of m i = Some s \<and> (s' = s \<or> slot_step b3 s s')"
    then obtain s where s: "stream_slot_of m i = Some s" "s' = s \<or> slot_step b3 s s'" by blast
    have "md_created_at_ms (slot_metadata s') = md_created_at_ms (slot_metadata s)" using s(2) slot_step_created by blast
    then show ?thesis using world_step_placed[OF kstep_world[OF ok k] _ s(1)] w s(1) by (simp add: world_ok_def)
  qed simp
  then show ?thesis using world_step_disjoint[OF kstep_world[OF ok k]] w by (simp add: world_ok_def)
qed

interpretation world: machine_invariant b3 imp world_ok for b3 imp
  by unfold_locales (simp add: world_ok_def, rule world_ok_step)


section \<open>Incarnations\<close>

text \<open>A stream seen once stays the same stream for as long as its creation time does: later streams of
  its id are younger.\<close>

definition seen :: "bucket_stream_id \<Rightarrow> stream_slot \<Rightarrow> stream_state_machine \<Rightarrow> bool" where
  "seen i s m \<longleftrightarrow> sm_buckets m \<union> sm_erased_buckets m \<noteq> {} \<and>
     md_created_at_ms (slot_metadata s) \<le> sm_last_created_at_ms m \<and>
     (\<forall>s'. stream_slot_of m i = Some s' \<longrightarrow>
        md_created_at_ms (slot_metadata s') = md_created_at_ms (slot_metadata s) \<and> evolves s s' \<or>
        md_created_at_ms (slot_metadata s) < md_created_at_ms (slot_metadata s'))"

lemma world_step_grows:
  "world_step m m' \<Longrightarrow> sm_last_created_at_ms m \<le> sm_last_created_at_ms m' \<and> sm_erased_buckets m \<subseteq> sm_erased_buckets m' \<and>
   sm_buckets m \<subseteq> sm_buckets m' \<union> sm_erased_buckets m'"
  by (induction rule: world_step.induct) (auto simp: same_world_def)

lemma slot_new_younger:
  "slot_new imp m i s \<Longrightarrow> sm_buckets m \<union> sm_erased_buckets m \<noteq> {} \<Longrightarrow>
   sm_last_created_at_ms m < md_created_at_ms (slot_metadata s)"
  by (induction rule: slot_new.induct) (simp_all add: created_slot_def)

lemma seen_step:
  assumes ok: "machine_ok m" and slots: "slots_ok m" and k: "kstep b3 imp m m'" and s: "seen i s m"
  shows "seen i s m'"
proof -
  have g: "sm_last_created_at_ms m \<le> sm_last_created_at_ms m'" "sm_erased_buckets m \<subseteq> sm_erased_buckets m'"
    "sm_buckets m \<subseteq> sm_buckets m' \<union> sm_erased_buckets m'" using world_step_grows[OF kstep_world[OF ok k]] by auto
  have "md_created_at_ms (slot_metadata s') = md_created_at_ms (slot_metadata s) \<and> evolves s s' \<or>
      md_created_at_ms (slot_metadata s) < md_created_at_ms (slot_metadata s')" if l: "stream_slot_of m' i = Some s'" for s'
    using kstep_slots[OF ok k l]
  proof
    assume "\<exists>s0. stream_slot_of m i = Some s0 \<and> (s' = s0 \<or> slot_step b3 s0 s')"
    then obtain s0 where s0: "stream_slot_of m i = Some s0" "s' = s0 \<or> slot_step b3 s0 s'" by blast
    have "slot_ok s0" using slots s0(1) by (simp add: slots_ok_def)
    then have e: "evolves s0 s'" using s0(2) slot_step_evolves evolves_refl by blast
    then have "md_created_at_ms (slot_metadata s') = md_created_at_ms (slot_metadata s0)" by (simp add: evolves_def Let_def)
    then show ?thesis using s s0(1) evolves_trans[OF _ e] unfolding seen_def by fastforce
  next
    assume "slot_new imp m i s' \<and> placed m' i s'"
    then show ?thesis using slot_new_younger s by (fastforce simp: seen_def)
  qed
  then show ?thesis using s g by (fastforce simp: seen_def)
qed

lemma seen_steps:
  assumes "(kstep b3 imp)\<^sup>*\<^sup>* m m'" "machine_ok m" "slots_ok m" "seen i s m"
  shows "seen i s m'"
  using assms
proof (induction rule: rtranclp_induct)
  case (step m1 m2)
  then show ?case using seen_step ksteps_ok slots.steps_keep by blast
qed simp

lemma seen_here:
  assumes "world_ok m" "stream_slot_of m i = Some s"
  shows "seen i s m"
  using assms by (auto simp: seen_def world_ok_def placed_def)

end
