(* ===== verification/Sample_Group.thy ===== *)
theory Sample_Group
  imports Machine_Invariants
begin

text \<open>
  A small group the witnesses evaluate: a history, one bucket and one stream of two hot bytes with a
  time to live of a minute.
\<close>

definition sample_id :: bucket_stream_id where
  "sample_id = BucketStreamId ''acme'' ''orders''"

definition sample_leader :: history_leader where
  "sample_leader = \<lparr> hl_term = 1, hl_node_id = 1 \<rparr>"

definition sample_log :: "(u64 \<times> stream_command) list" where
  "sample_log =
     [(1, NewHistory 7 100 0 0 sample_leader), (2, CreateBucket ''acme''),
      (3, CreateStream sample_id ''text/plain'' [104, 105] False None (Some 60) None 1000)]"

definition sample_stream :: stream_slot where
  "sample_stream =
     \<lparr> slot_metadata = \<lparr> md_stream_id = sample_id, md_content_type = ''text/plain'', md_status = Open,
         md_tail_offset = 2, md_last_stream_seq = None, md_stream_ttl_seconds = Some 60, md_stream_expires_at_ms = None,
         md_created_at_ms = 1000, md_last_ttl_touch_at_ms = 1000 \<rparr>,
       slot_hot_buffer = from_payload 0 [104, 105], slot_cold = with_generation 1000, slot_retained_offset = 0,
       slot_visible_snapshot = None, slot_producers = [], slot_retired_epoch_watermark = None, slot_history = 7,
       slot_inherited = None,
       slot_usage = \<lparr> vu_seq = 1, vu_counters = \<lparr> vc_committed = of_write 2 1, vc_appends = 0 \<rparr>,
         vu_history_baseline = zero_counters, vu_last_write = At 1000, vu_counted_since = 7 \<rparr> \<rparr>"

definition sample_group :: stream_state_machine where
  "sample_group =
     \<lparr> sm_buckets = {''acme''}, sm_erased_buckets = {},
       sm_registry = \<lparr> reg_keys = [(sample_id, 0)], reg_slots = [(0, sample_stream)],
         reg_ttl = [TtlEntry 61000 sample_id 0], reg_armed = [(0, 61000)], reg_key_seq = id, reg_allocated = 1 \<rparr>,
       sm_hot_payload_bytes = 2, sm_cold_gc = empty_gc_queue, sm_shared_refs = [],
       sm_usage = \<lparr> ul_genesis = 7, ul_retired = [(''acme'', zero_usage)], ul_usage_seq = 1, ul_retired_through = 0,
         ul_ends = [], ul_live_by_seq = [(1, 0)] \<rparr>,
       sm_flush_planner = \<lparr> fp_hot_streams = {sample_id}, fp_cursor = None, fp_hot_since = [] \<rparr>,
       sm_last_created_at_ms = 1000,
       sm_history = Some \<lparr> he_id = 7, he_event_index = 1, he_previous = 0, he_kept = 0, he_leader = sample_leader,
         he_imported = None \<rparr>,
       sm_removed = zero_removed \<rparr>"

lemma sample_valid: "validate_bucket_id ''acme'' = None" "validate_stream_id sample_id = None" "bsi_bucket sample_id = ''acme''"
  by (simp_all add: sample_id_def validate_bucket_id_def validate_stream_id_def validate_path_segment_def bucket_id_byte_def
      is_ascii_lowercase_def is_ascii_digit_def less_eq_char_def sublist_Cons_right sat_add_def u64_max_def)

lemma sample_text: "canonical_json_message_count ''text/plain'' payload = Some 0"
proof -
  have "\<not> is_json_record_content_type ''text/plain''" by code_simp
  then show ?thesis by (simp add: canonical_json_message_count_def)
qed

lemma sample_hot: "hot_inv (from_payload 0 [104, 105])" "hot_len (from_payload 0 [104, 105]) = 2"
  "hot_is_empty (from_payload 0 [104, 105]) = False" "hot_map (from_payload 0 [104, 105]) = range_map 0 [104, 105]"
proof -
  show inv: "hot_inv (from_payload 0 [104, 105])" and map: "hot_map (from_payload 0 [104, 105]) = range_map 0 [104, 105]"
    using from_payload_refines[of 0 "[104, 105]"] by (simp_all add: u64_max_def)
  show len: "hot_len (from_payload 0 [104, 105]) = 2" by (simp add: hot_len_card[OF inv] map dom_range_map)
  show "hot_is_empty (from_payload 0 [104, 105]) = False" by (simp add: hot_is_empty_map[OF inv] len)
qed

lemma sample_replay: "replay b3 sample_log (new_machine id) = sample_group"
proof -
  let ?history = "NewHistory 7 100 0 0 sample_leader"
  let ?create = "CreateStream sample_id ''text/plain'' [104, 105] False None (Some 60) None 1000"
  define m2 where "m2 = fst (apply_entry b3 2 (CreateBucket ''acme'') (fst (apply_entry b3 1 ?history (new_machine id))))"
  have m2: "m2 = (new_machine id)\<lparr> sm_buckets := {''acme''}, sm_usage := record_genesis 7 empty_ledger, sm_last_created_at_ms := 100,
      sm_history := sm_history sample_group \<rparr>"
    by (simp add: m2_def apply_entry_def new_history_def history_id_def new_machine_def create_bucket_def sample_valid sample_group_def)
  have "fst (apply_entry b3 3 ?create m2) = sample_group"
    unfolding m2
    by (simp add: apply_entry_def create_stream_def sample_text counting_history_def validate_stream_scope_def validate_retention_def
        sample_valid u64_max_def expire_stream_if_due_def stream_metadata_of_slot stream_slot_of_def new_machine_def empty_registry_def
        reg_slot_def initial_len_def next_created_at_ms_def sat_add_def sat_mul_def max_created_at_ms_def incarnation_mask_def
        incarnation_tag_def sample_group_def sample_stream_def install_created_def usage_on_create_def insert_bucket_def stamp_def
        insert_stream_slot_def created_slot_def reg_insert_def reg_contains_key_def arm_ttl_entry_def history_id_def
        record_created_at_ms_def index_live_def status_from_closed_def stream_expiry_at_ms_def sample_hot appended_record_count_def
        mark_hot_def record_genesis_def empty_ledger_def Let_def flip: numeral_2_eq_2)
  then show ?thesis by (simp add: sample_log_def m2_def)
qed

lemma sample_log_fits: "log_fits b3 sample_log (new_machine id)"
  by (simp add: sample_log_def u64_max_def)

lemma sample_lookup: "stream_slot_of sample_group = [sample_id \<mapsto> sample_stream]"
  by (simp add: fun_eq_iff stream_slot_of_def reg_slot_def sample_group_def)

lemma sample_slots: "reg_slot_values (sm_registry sample_group) = [sample_stream]"
  by (simp add: reg_slot_values_def sample_group_def)

lemma sample_ok: "machine_ok sample_group" "slots_ok sample_group" "world_ok sample_group"
proof -
  have "inj (id :: nat \<Rightarrow> nat)" by simp
  note reached = this sample_log_fits
  show "machine_ok sample_group" using replay_ok[OF fresh_ok, OF reached] by (simp add: sample_replay)
  show "slots_ok sample_group" using slots.reached[OF reached log_imports_any] by (simp add: sample_replay)
  show "world_ok sample_group" using world.reached[OF reached log_imports_any] by (simp add: sample_replay)
qed

end
