(* ===== verification/Append_Properties.thy ===== *)
theory Append_Properties
  imports Sample_Group
begin

text \<open>
  What an append does, on every branch: it applies, it repeats an earlier answer, it is refused, or the
  stream it names has expired.
\<close>

section \<open>Acknowledgements\<close>

lemma commit_write_ack:
  assumes ok: "machine_ok m" and s: "stream_slot_of m i = Some s"
    and c: "commit_write i md len q close_after producer gate now m = (m1, off, nxt, ack)"
  shows "producer = None \<Longrightarrow> ack = None"
    and "producer = Some p \<Longrightarrow> gate = Some (key, adv) \<Longrightarrow>
      (adv = Advance_Next \<Longrightarrow> map_of (slot_producers s) (pr_producer_id p) \<noteq> None) \<Longrightarrow>
      \<exists>a. ack = Some a \<and> \<not> ack_is_repeat a"
proof -
  show "producer = None \<Longrightarrow> ack = None" using c by (auto simp: commit_write_def Let_def)
  define m3 where "m3 = refresh_ttl_entry i (modify_stream_metadata i (written_metadata len q close_after now) (inherit_history i m))"
  have ok1: "machine_ok (inherit_history i m)"
    unfolding inherit_history_def by (rule modify_ok_metadata[OF ok]) (simp add: slot_inherit_history_def)
  have "\<exists>s3. stream_slot_of m3 i = Some s3 \<and> slot_producers s3 = slot_producers s"
    using lookup_modify[OF ok1] lookup_modify[OF ok] s
    by (simp add: m3_def modify_stream_metadata_def inherit_history_def slot_inherit_history_def)
  then obtain s3 where s3: "stream_slot_of m3 i = Some s3" "slot_producers s3 = slot_producers s" by blast
  assume p: "producer = Some p" "gate = Some (key, adv)"
    and rec: "adv = Advance_Next \<Longrightarrow> map_of (slot_producers s) (pr_producer_id p) \<noteq> None"
  let ?r = "\<lparr> wr_start_offset = off, wr_next_offset = nxt,
      wr_closed = (md_status (written_metadata len q close_after now md) = Closed_Status) \<rparr>"
  have "ack = snd (slot_record_success (history_id m3) (pr_producer_id p) key adv ?r now s3)"
    using c p s3 by (auto simp: commit_write_def record_producer_success_def m3_def Let_def)
  then show "\<exists>a. ack = Some a \<and> \<not> ack_is_repeat a"
    using rec s3(2) by (cases adv) (auto simp: slot_record_success_def applied_ack_def ack_is_repeat_def Let_def)
qed

lemma gate_shape:
  assumes "producer_gate_of i producer check now m = Inr gate" "\<And>ack. gate \<noteq> Repeat_Gate ack"
  shows "producer = None \<Longrightarrow> gate = Unkeyed" "producer = Some p \<Longrightarrow> \<exists>key adv. gate = Apply_Gate key adv"
  using assms by (auto simp: producer_gate_of_def split: option.splits sum.splits evaluation.splits if_splits)

lemma gate_next:
  assumes "producer_gate_of i (Some p) check now m = Inr (Apply_Gate key Advance_Next)" "stream_slot_of m i = Some s"
  shows "map_of (slot_producers s) (pr_producer_id p) \<noteq> None"
proof -
  have "evaluate None fl h key check \<noteq> Next" for fl h key by (simp add: evaluate_def evaluate_absent_def expired_def)
  then show ?thesis
    using assms by (auto simp: producer_gate_of_def evaluate_write_def slot_evaluate_write_def
        split: option.splits sum.splits evaluation.splits if_splits)
qed

section \<open>Outcomes\<close>

text \<open>Machines that differ in producer records only, for one of the streams at most.\<close>

definition same_bodies :: "stream_state_machine \<Rightarrow> stream_state_machine \<Rightarrow> bool" where
  "same_bodies m m' \<longleftrightarrow> (\<forall>i. map_option slot_body (stream_slot_of m' i) = map_option slot_body (stream_slot_of m i))"

lemma same_bodies_refl [simp]: "same_bodies m m"
  by (simp add: same_bodies_def)

lemma same_bodies_trans: "same_bodies m m1 \<Longrightarrow> same_bodies m1 m2 \<Longrightarrow> same_bodies m m2"
  by (simp add: same_bodies_def)

lemma same_bodies_modify:
  assumes "machine_ok m" "\<And>s. slot_body (f s) = slot_body s"
  shows "same_bodies m (modify_stream_slot i f m)"
  using assms lookup_modify[OF assms(1), of i f] by (simp add: same_bodies_def option.map_comp comp_def)

lemma settled_bodies: "machine_ok m \<Longrightarrow> same_bodies m (settled i producer now m)"
  by (auto simp: settled_def expire_idle_producer_def split: option.split intro!: same_bodies_modify)

lemma cap_bodies: "machine_ok m \<Longrightarrow> same_bodies m (enforce_producer_cap i now m)"
  unfolding enforce_producer_cap_def by (rule same_bodies_modify) simp_all

text \<open>The effect of an append of \<open>payload\<close> with \<open>n\<close> records on the slot of its stream: the bytes are
  there, at the old tail, and everything else of the stream is as it was.\<close>

definition appended_slot :: "byte list \<Rightarrow> u64 \<Rightarrow> bool \<Rightarrow> stream_slot \<Rightarrow> stream_slot \<Rightarrow> bool" where
  "appended_slot payload n close_after s s' \<longleftrightarrow>
     (let tail = md_tail_offset (slot_metadata s)
      in md_status (slot_metadata s) = Open \<and>
         md_status (slot_metadata s') = (if close_after then Closed_Status else Open) \<and>
         md_tail_offset (slot_metadata s') = tail + length payload \<and>
         hot_map (slot_hot_buffer s') = hot_map (slot_hot_buffer s) ++ range_map tail payload \<and>
         slot_cold s' = slot_cold s \<and> slot_retained_offset s' = slot_retained_offset s \<and>
         slot_visible_snapshot s' = slot_visible_snapshot s \<and>
         vc_committed (vu_counters (slot_usage s')) =
           usage_add (vc_committed (vu_counters (slot_usage s))) (of_write (length payload) n) \<and>
         vc_appends (vu_counters (slot_usage s')) = sat_add (vc_appends (vu_counters (slot_usage s))) 1)"

text \<open>What an append of \<open>payload\<close> to the stream \<open>i\<close> may do.\<close>

inductive append_result ::
  "bucket_stream_id \<Rightarrow> byte list \<Rightarrow> u64 \<Rightarrow> bool \<Rightarrow> producer_request option \<Rightarrow> u64 \<Rightarrow> stream_state_machine \<Rightarrow>
   stream_state_machine \<Rightarrow> stream_response \<Rightarrow> bool"
  for i payload n close_after producer now m where
  kept: "is_error r \<or> is_producer_repeat r \<Longrightarrow> same_bodies m m' \<Longrightarrow>
    append_result i payload n close_after producer now m m' r"
| expired: "stream_slot_of m i = Some s \<Longrightarrow> stream_is_expired (slot_metadata s) now \<Longrightarrow>
    stream_slot_of m' = (stream_slot_of m)(i := None) \<Longrightarrow>
    append_result i payload n close_after producer now m m' (error StreamNotFound)"
| applied: "stream_slot_of m i = Some s \<Longrightarrow> \<not> stream_is_expired (slot_metadata s) now \<Longrightarrow>
    stream_slot_of m' = (stream_slot_of m)(i \<mapsto> s') \<Longrightarrow> appended_slot payload n close_after s s' \<Longrightarrow>
    tail = md_tail_offset (slot_metadata s) \<Longrightarrow> ack = None \<longleftrightarrow> producer = None \<Longrightarrow>
    \<not> is_producer_repeat (Appended tail (tail + length payload) close_after ack) \<Longrightarrow>
    append_result i payload n close_after producer now m m' (Appended tail (tail + length payload) close_after ack)"

lemma appended_slot_body:
  assumes "slot_body s1 = slot_body s" "slot_body s2 = slot_body s3"
  shows "appended_slot payload n close_after s1 s2 = appended_slot payload n close_after s s3"
  using slot_bodyD[OF assms(1)] slot_bodyD[OF assms(2)] by (simp add: appended_slot_def)

text \<open>Changes of producer records after the append leave the result as it is.\<close>

lemma append_result_cap:
  assumes "append_result i payload n close_after producer now m m1 r" "machine_ok m1"
  shows "append_result i payload n close_after producer now m (enforce_producer_cap i t m1) r"
  using assms(1)
proof cases
  case kept
  show ?thesis using append_result.kept[OF kept(1) same_bodies_trans[OF kept(2) cap_bodies[OF assms(2)]]] .
next
  case (expired s)
  have "stream_slot_of (enforce_producer_cap i t m1) = (stream_slot_of m)(i := None)"
    using lookup_modify[OF assms(2), of i] expired(4) by (simp add: enforce_producer_cap_def)
  then show ?thesis using append_result.expired[OF expired(2,3)] expired(1) by simp
next
  case (applied s s' tail ack)
  let ?s' = "evict_producers_over_cap t producer_cap_evict_budget s'"
  have l: "stream_slot_of (enforce_producer_cap i t m1) = (stream_slot_of m)(i \<mapsto> ?s')"
    using lookup_modify[OF assms(2), of i] applied(4) by (simp add: enforce_producer_cap_def)
  have "appended_slot payload n close_after s ?s'"
    using applied(5) appended_slot_body[of s s ?s' s'] by simp
  then show ?thesis using append_result.applied[OF applied(2,3) l _ applied(6-8)] applied(1) by simp
qed

text \<open>Changes of producer records before it do as well.\<close>

lemma append_result_settled:
  assumes "append_result i payload n close_after producer now m1 m' r" "same_bodies m m1"
    "stream_slot_of m i = Some s" "stream_slot_of m1 = (stream_slot_of m)(i \<mapsto> s1)" "slot_body s1 = slot_body s"
  shows "append_result i payload n close_after producer now m m' r"
  using assms(1)
proof cases
  case kept
  show ?thesis using append_result.kept[OF kept(1) same_bodies_trans[OF assms(2) kept(2)]] .
next
  case (expired s0)
  have "slot_metadata s0 = slot_metadata s" using expired(2) assms(4) slot_bodyD(1)[OF assms(5)] by simp
  then show ?thesis using append_result.expired[OF assms(3), of now m'] expired assms(4) by simp
next
  case (applied s0 s' tail ack)
  have s0: "s0 = s1" using applied(2) assms(4) by simp
  have "stream_slot_of m' = (stream_slot_of m)(i \<mapsto> s')" using applied(4) assms(4) by simp
  moreover have "appended_slot payload n close_after s s'" using applied(5) appended_slot_body[OF assms(5) refl] s0 by simp
  ultimately show ?thesis
    using append_result.applied[OF assms(3), of now m' s'] applied slot_bodyD(1)[OF assms(5)] s0 by simp
qed

lemma check_append_error: "check_append input fault md = Inl r \<Longrightarrow> is_error r"
proof -
  have "is_error (content_fault_response f)" for f by (cases f) simp_all
  then show "check_append input fault md = Inl r \<Longrightarrow> is_error r"
    by (auto simp: check_append_def check_stream_seq_def split: option.splits if_splits)
qed

text \<open>The records an append adds: the lines of canonical JSON text, or one message.\<close>

definition append_records :: "string option \<Rightarrow> byte list \<Rightarrow> u64" where
  "append_records ct payload = appended_record_count
     (case ct of None \<Rightarrow> 0 | Some c \<Rightarrow> (case canonical_json_message_count c payload of None \<Rightarrow> 0 | Some k \<Rightarrow> k)) (length payload)"

lemma check_append_count:
  "check_append input fault md = Inr mc \<Longrightarrow>
   append_records (ai_content_type input) (ai_payload input) = appended_record_count mc (length (ai_payload input))"
  by (auto simp: check_append_def append_records_def split: option.splits if_splits)

lemma written_status [simp]:
  "md_status (written_metadata len q close_after now md) = (if close_after then Closed_Status else md_status md)"
  by (simp add: written_metadata_def Let_def split: option.split)

lemma append_apply_outcome:
  assumes ok: "machine_ok m" and s: "stream_slot_of m (ai_stream_id input) = Some s" and inv: "slot_ok s"
    and live: "\<not> stream_is_expired (slot_metadata s) (ai_now_ms input)"
    and kind: "ai_kind input = Append_Kind"
    and fits: "md_tail_offset (slot_metadata s) + length (ai_payload input) \<le> u64_max"
    and gate: "producer_gate_of (ai_stream_id input) (ai_producer input) (ai_check input) (ai_now_ms input) m = Inr gate"
      "\<And>ack. gate \<noteq> Repeat_Gate ack"
    and a: "append_apply input (gate_key gate) fault (slot_metadata s) m = (m', r)"
  shows "append_result (ai_stream_id input) (ai_payload input) (append_records (ai_content_type input) (ai_payload input))
      (ai_close_after input) (ai_producer input) (ai_now_ms input) m m' r"
proof (cases "md_status (slot_metadata s) = Open \<and> (\<exists>mc. check_append input fault (slot_metadata s) = Inr mc)")
  case False
  then have "is_error r \<and> m' = m"
    using a kind check_append_error by (cases "md_status (slot_metadata s)") (auto simp: append_apply_def split: sum.splits)
  then show ?thesis by (auto intro: append_result.kept)
next
  case True
  then obtain mc where st: "md_status (slot_metadata s) = Open" and mc: "check_append input fault (slot_metadata s) = Inr mc" by blast
  let ?i = "ai_stream_id input" and ?p = "ai_payload input" and ?t = "md_tail_offset (slot_metadata s)"
  obtain m1 off nxt ack where c: "commit_write ?i (slot_metadata s) (length ?p) (ai_stream_seq input) (ai_close_after input)
      (ai_producer input) (gate_key gate) (ai_now_ms input) m = (m1, off, nxt, ack)" using prod_cases4 by blast
  note e = commit_write_effect[OF ok s refl c]
  have nxt: "nxt = ?t + length ?p" "off = ?t" using e(2,3) fits by (simp_all add: sat_add_exact)
  obtain s1 where l1: "stream_slot_of m1 = (stream_slot_of m)(?i \<mapsto> s1)"
    and com: "committed s (length ?p) (ai_stream_seq input) (ai_close_after input) (ai_now_ms input) s1"
    using e(4) by (elim exE conjE) (rule that)
  have s1: "stream_slot_of m1 ?i = Some s1" using l1 by simp
  have m': "m' = push_payload ?i ?t (?t + length ?p) ?p mc (ai_now_ms input) m1"
    and r: "r = Appended ?t (?t + length ?p) (ai_close_after input) ack"
    using a st mc c kind nxt by (simp_all add: append_apply_def)
  let ?s' = "\<lambda>g. s1\<lparr> slot_hot_buffer := push ?t (?t + length ?p) ?p (slot_hot_buffer s1),
      slot_usage := (count_append (length ?p) (appended_record_count mc (length ?p)) (ai_now_ms input) (slot_usage s1))\<lparr> vu_seq := g \<rparr> \<rparr>"
  obtain g where l2: "stream_slot_of m' = (stream_slot_of m1)(?i \<mapsto> ?s' g)"
    using push_payload_effect(2)[OF e(1) s1, of ?t "?t + length ?p" ?p mc "ai_now_ms input"] unfolding m'[symmetric]
    by (elim exE) (rule that)
  have l: "stream_slot_of m' = (stream_slot_of m)(?i \<mapsto> ?s' g)" using l1 l2 by simp
  have ok': "machine_ok m'" unfolding m' by (rule push_payload_effect(1)[OF e(1) s1])
  have "appended_slot ?p (append_records (ai_content_type input) ?p) (ai_close_after input) s (?s' g)"
    using com st push_slice_refines[OF slot_okD(2,3)[OF inv] fits] fits check_append_count[OF mc]
    by (simp add: appended_slot_def committed_def push_def count_append_def sat_add_exact written_status Let_def)
  moreover have "ack = None \<longleftrightarrow> ai_producer input = None" "\<not> is_producer_repeat r"
  proof -
    have "ack = None \<and> ai_producer input = None \<or> (\<exists>a. ack = Some a \<and> \<not> ack_is_repeat a) \<and> ai_producer input \<noteq> None"
    proof (cases "ai_producer input")
      case None
      then show ?thesis using commit_write_ack(1)[OF ok s c] by simp
    next
      case (Some p)
      then obtain key adv where g: "gate = Apply_Gate key adv" using gate_shape(2)[OF gate Some] by blast
      have "adv = Advance_Next \<Longrightarrow> map_of (slot_producers s) (pr_producer_id p) \<noteq> None"
        using gate_next[of ?i p] gate(1) Some g s by simp
      then show ?thesis using commit_write_ack(2)[OF ok s c Some] g Some by simp
    qed
    then show "ack = None \<longleftrightarrow> ai_producer input = None" "\<not> is_producer_repeat r" using r by auto
  qed
  ultimately show ?thesis unfolding r by (intro append_result.applied[OF s live l]) simp_all
qed


lemma append_unenforced_outcome:
  assumes ok: "machine_ok m" and slots: "slots_ok m" and kind: "ai_kind input = Append_Kind"
    and fits: "\<And>s. stream_slot_of m (ai_stream_id input) = Some s \<Longrightarrow>
      md_tail_offset (slot_metadata s) + length (ai_payload input) \<le> u64_max"
    and a: "append_unenforced input m = (m', r)"
  shows "append_result (ai_stream_id input) (ai_payload input) (append_records (ai_content_type input) (ai_payload input))
      (ai_close_after input) (ai_producer input) (ai_now_ms input) m m' r"
proof (cases rule: append_unenforced_cases[OF ok, of input, case_names refused expired_stream gated applied])
  case (refused r')
  then show ?thesis using a by (simp add: append_result.kept)
next
  case (expired_stream s)
  then show ?thesis using a lookup_remove(1)[OF machine_ok_struct[OF ok]] append_result.expired[OF expired_stream(1,2)] by simp
next
  case (gated r' s)
  then show ?thesis using a settled_bodies[OF ok] by (simp add: append_result.kept)
next
  case (applied s s' gate fault)
  let ?i = "ai_stream_id input"
  let ?m2 = "settled ?i (ai_producer input) (ai_now_ms input) m"
  have ok2: "machine_ok ?m2" by (rule settled_effect(1)[OF ok])
  have l2: "stream_slot_of ?m2 ?i = Some s'" using applied(3) by simp
  have "slot_ok s" using slots applied(1) by (simp add: slots_ok_def)
  then have inv: "slot_ok s'" using slot_bodyD[OF applied(4)] by (simp add: slot_ok_def)
  have md: "slot_metadata s' = slot_metadata s" by (rule slot_bodyD(1)[OF applied(4)])
  have "append_apply input (gate_key gate) fault (slot_metadata s') ?m2 = (m', r)" using a applied(7) md by simp
  then show ?thesis
    using append_result_settled[OF append_apply_outcome[OF ok2 l2 inv _ kind _ applied(5,6)] settled_bodies[OF ok] applied(1,3,4)]
      fits[OF applied(1)] applied(2) md by simp
qed

text \<open>C1. An append is one of three things. It applies: the stream was open and had not expired, the
  answer carries its old tail and the new one, the payload is readable at the old tail, the usage of
  the stream counts it, no other stream changes, and a keyed write is always acknowledged as applied.
  Or it is refused or repeats an earlier answer, and no stream changes but for producer records. Or the
  stream had expired, and it is removed and reported missing.\<close>

theorem append_outcome:
  assumes "machine_ok m" "slots_ok m" "fits (Append i ct payload close_after q producer now) m"
    and "apply_checked b3 index (Append i ct payload close_after q producer now) check m = (m', r)"
  shows "append_result i payload (append_records ct payload) close_after producer now m m' r"
proof -
  define input where "input = \<lparr> ai_stream_id = i, ai_content_type = ct, ai_payload = payload, ai_close_after = close_after,
      ai_stream_seq = q, ai_producer = producer, ai_now_ms = now, ai_kind = Append_Kind, ai_check = check \<rparr>"
  have sel: "ai_stream_id input = i" "ai_content_type input = ct" "ai_payload input = payload" "ai_close_after input = close_after"
    "ai_producer input = producer" "ai_now_ms input = now" "ai_kind input = Append_Kind" by (simp_all add: input_def)
  obtain m1 where u: "append_unenforced input m = (m1, r)"
    and m': "m' = m1 \<or> m' = enforce_producer_cap i now m1"
    using assms(4) by (cases producer) (auto simp: append_borrowed_def input_def split: prod.splits)
  have fits: "md_tail_offset (slot_metadata s) + length payload \<le> u64_max" if "stream_slot_of m i = Some s" for s
    using assms(3) that by simp
  have "machine_ok m1"
    using ksteps_ok[OF append_unenforced_steps[OF assms(1), of input b3] assms(1)] u fits sel by simp
  moreover have "append_result i payload (append_records ct payload) close_after producer now m m1 r"
    using append_unenforced_outcome[OF assms(1,2) sel(7) _ u] fits sel by simp
  ultimately show ?thesis using m' append_result_cap by blast
qed


lemma sample_append_response:
  "snd (apply_checked b3 4 (Append sample_id (Some ''text/plain'') [33] True None None 2000) Absent sample_group) = Appended 2 3 True None"
proof -
  have md: "stream_metadata_of sample_group sample_id = Some (slot_metadata sample_stream)"
    by (simp add: stream_metadata_of_slot sample_lookup)
  have scope: "validate_stream_scope sample_id sample_group = None"
    by (simp add: validate_stream_scope_def sample_valid sample_group_def)
  have live: "expire_stream_if_due sample_id 2000 sample_group = (sample_group, False)"
    unfolding expire_stream_if_due_def md
    by (simp add: sample_stream_def stream_is_expired_def stream_expiry_at_ms_def sat_add_def sat_mul_def u64_max_def)
  have chk: "check_append \<lparr> ai_stream_id = sample_id, ai_content_type = Some ''text/plain'', ai_payload = [33], ai_close_after = True,
       ai_stream_seq = None, ai_producer = None, ai_now_ms = 2000, ai_kind = Append_Kind, ai_check = Absent \<rparr> None
       (slot_metadata sample_stream) = Inr 0"
    by (simp add: check_append_def check_stream_seq_def sample_text sample_stream_def)
  show ?thesis
    by (simp add: append_borrowed_def append_unenforced_def scope md live producer_gate_of_def request_fault_def append_apply_def
        chk commit_write_def Let_def)
      (simp add: sample_stream_def sat_add_def u64_max_def)
qed

theorem append_outcome_witness:
  "let a = apply_checked id 4 (Append sample_id (Some ''text/plain'') [33] True None None 2000) Absent sample_group
   in append_result sample_id [33] 1 True None 2000 sample_group (fst a) (snd a) \<and> snd a = Appended 2 3 True None"
proof -
  have f: "fits (Append sample_id (Some ''text/plain'') [33] True None None 2000) sample_group"
    by (simp add: sample_lookup sample_stream_def u64_max_def)
  have n: "append_records (Some ''text/plain'') [33] = 1" by (simp add: append_records_def sample_text appended_record_count_def)
  show ?thesis
    using append_outcome[OF sample_ok(1,2) f prod.collapse[symmetric], unfolded n] sample_append_response
    unfolding Let_def by blast
qed

end
