(* ===== verification/Log_Properties.thy ===== *)
theory Log_Properties
  imports Sample_Group
begin

text \<open>
  What holds after any log, and between two points of one: the invariants of the machine, the order of
  a stream's incarnations, the permanence of a purge and the progress of the sweep.
\<close>

section \<open>Properties of logs\<close>

lemmas fresh_log_ok = replay_ok[OF fresh_ok]

lemmas log_slots = slots.reached[OF _ _ log_imports_any]
lemmas log_world = world.reached[OF _ _ log_imports_any]

text \<open>C4. Whatever log of 64-bit offsets a replica applies, imports of any backup the code accepts
  included, its registry and time-to-live index stay in order, every stream keeps its own invariant (a
  well-formed hot buffer below the tail, a retained offset and a snapshot within the stream, valid
  references to packs and staged objects), every stream lives in a live bucket under a history, and no
  live bucket is erased.  If, further, the backups the log imports have references as a group writes
  them (shared, distinct and below the hot bytes), which the code does not check, then so have its
  streams and the backup it writes.\<close>

theorem log_keeps_invariants:
  assumes "inj ks" "log_fits b3 es (new_machine ks)" "m = replay b3 es (new_machine ks)"
  shows "reg_inv (sm_registry m) \<and> slots_ok m \<and> world_ok m \<and>
    (log_imports entry_sound es \<longrightarrow>
       (\<forall>i s. stream_slot_of m i = Some s \<longrightarrow> cold_ok s) \<and> list_all entry_sound (ss_streams (snapshot_of m)))"
proof -
  have ok: "machine_ok m" using fresh_log_ok[OF assms(1,2)] assms(3) by simp
  have "colds_ok m" if "log_imports entry_sound es" using colds.reached[OF assms(1,2) that] assms(3) by simp
  then show ?thesis
    using ok snapshot_sound[OF ok] log_slots[OF assms(1,2)] log_world[OF assms(1,2)] assms(3)
    by (auto simp: machine_ok_def colds_ok_def)
qed

theorem log_keeps_invariants_witness:
  "reg_inv (sm_registry sample_group) \<and> slots_ok sample_group \<and> world_ok sample_group \<and>
   (\<exists>s. stream_slot_of sample_group sample_id = Some s \<and> cold_ok s) \<and> list_all entry_sound (ss_streams (snapshot_of sample_group))"
proof -
  have "log_imports entry_sound sample_log" by (simp add: log_imports_def sample_log_def)
  then show ?thesis
    using log_keeps_invariants[OF inj_on_id sample_log_fits sample_replay[symmetric]] by (simp add: sample_lookup)
qed

text \<open>C2. A stream seen at one point of a log and a stream of the same id seen later are the same
  incarnation, whose identity, content type and terms are fixed, whose tail, retained offset and
  snapshot only advance, which stays closed with its tail once closed, and whose committed bytes do not
  change while they are hot; or the later one was created later and has a greater creation time.\<close>

theorem incarnations_ordered:
  assumes "inj ks" "log_fits b3 es (new_machine ks)" "m = replay b3 es (new_machine ks)"
    and "log_fits b3 es' m" "stream_slot_of m i = Some s" "stream_slot_of (replay b3 es' m) i = Some s'"
  shows "md_created_at_ms (slot_metadata s') = md_created_at_ms (slot_metadata s) \<and> evolves s s' \<or>
    md_created_at_ms (slot_metadata s) < md_created_at_ms (slot_metadata s')"
proof -
  have ok: "machine_ok m" "slots_ok m" "world_ok m"
    using fresh_log_ok log_slots log_world assms(1-3) by auto
  have "seen i s (replay b3 es' m)"
    using seen_steps[OF replay_steps[OF ok(1) assms(4) log_imports_any] ok(1,2) seen_here[OF ok(3) assms(5)]] .
  then show ?thesis using assms(6) by (simp add: seen_def)
qed

text \<open>The stream of the sample group, deleted and created again.\<close>

definition sample_again :: "(u64 \<times> stream_command) list" where
  "sample_again = [(4, DeleteStream sample_id 2000), (5, CreateStream sample_id ''text/plain'' [] False None None None 2000)]"

lemma sample_again_lookup:
  "\<exists>s'. stream_slot_of (replay b3 sample_again sample_group) sample_id = Some s' \<and> md_created_at_ms (slot_metadata s') = 2000"
proof -
  let ?m = "fst (remove_stream_state sample_id Deleted_End 2000 sample_group)"
  have scope: "validate_stream_scope sample_id sample_group = None" "validate_stream_scope sample_id ?m = None"
    by (simp_all add: validate_stream_scope_def sample_valid) (simp_all add: sample_group_def)
  have del: "fst (apply_entry b3 4 (DeleteStream sample_id 2000) sample_group) = ?m"
    using scope by (simp add: apply_entry_def delete_stream_def stream_metadata_of_slot sample_lookup Let_def)
      (simp add: sample_stream_def stream_is_expired_def stream_expiry_at_ms_def sat_add_def sat_mul_def u64_max_def)
  have ok: "machine_ok ?m" by (rule remove_ok[OF sample_ok(1)])
  have gone: "stream_slot_of ?m sample_id = None" using lookup_remove(1)[OF machine_ok_struct[OF sample_ok(1)]] by simp
  have exp: "expire_stream_if_due sample_id 2000 ?m = (?m, False)"
    using gone by (simp add: expire_stream_if_due_def stream_metadata_of_slot)
  have clock: "next_created_at_ms 2000 ?m = Inr 2000"
    by (simp add: next_created_at_ms_def)
      (simp add: sample_group_def sat_add_def u64_max_def max_created_at_ms_def incarnation_mask_def incarnation_tag_def)
  have hist: "counting_history ?m = Inr 7" by (simp add: counting_history_def) (simp add: sample_group_def)
  let ?md = "\<lparr> md_stream_id = sample_id, md_content_type = ''text/plain'', md_status = Open, md_tail_offset = 0,
      md_last_stream_seq = None, md_stream_ttl_seconds = None, md_stream_expires_at_ms = None, md_created_at_ms = 2000,
      md_last_ttl_touch_at_ms = 2000 \<rparr>"
  have "replay b3 sample_again sample_group = fst (install_created 7 ?md (from_payload 0 []) (with_generation 2000) 0 2000 ?m)"
    using scope del exp clock hist gone
    by (simp add: sample_again_def apply_entry_def create_stream_def sample_text validate_retention_def initial_len_def
        status_from_closed_def)
  then show ?thesis
    using install_effect(2)[OF ok, of ?md 7 "from_payload 0 []" "with_generation 2000" 0 2000] gone
    by (auto simp: created_slot_def)
qed

theorem incarnations_ordered_witness:
  "\<exists>s'. stream_slot_of (replay id sample_again (replay id sample_log (new_machine id))) sample_id = Some s' \<and>
     md_created_at_ms (slot_metadata sample_stream) < md_created_at_ms (slot_metadata s')"
proof -
  obtain s' where s': "stream_slot_of (replay id sample_again sample_group) sample_id = Some s'"
    "md_created_at_ms (slot_metadata s') = 2000" using sample_again_lookup by blast
  have "log_fits id sample_again sample_group" by (simp add: sample_again_def u64_max_def)
  then have "md_created_at_ms (slot_metadata s') = md_created_at_ms (slot_metadata sample_stream) \<and> evolves sample_stream s' \<or>
      md_created_at_ms (slot_metadata sample_stream) < md_created_at_ms (slot_metadata s')"
    using incarnations_ordered[OF inj_on_id sample_log_fits refl, of id sample_again sample_id sample_stream s'] s'(1)
    by (simp add: sample_replay sample_lookup)
  then show ?thesis using s' by (auto simp: sample_replay sample_stream_def)
qed

text \<open>C13. A purged bucket stays purged: whatever log follows, it is erased and not live, holds no
  stream, and a request to create it again is refused.\<close>

theorem erased_bucket_permanent:
  assumes "inj ks" "log_fits b3 es (new_machine ks)" "m = replay b3 es (new_machine ks)"
    and "b \<in> sm_erased_buckets m" "log_fits b3 es' m" "validate_bucket_id b = None"
  shows "b \<in> sm_erased_buckets (replay b3 es' m) \<and> b \<notin> sm_buckets (replay b3 es' m) \<and>
    (\<forall>i. bsi_bucket i = b \<longrightarrow> stream_slot_of (replay b3 es' m) i = None) \<and>
    create_bucket b (replay b3 es' m) = (replay b3 es' m, error BucketErased)"
proof -
  have ok: "machine_ok m" "world_ok m" using fresh_log_ok log_world assms(1-3) by auto
  have erased: "b \<in> sm_erased_buckets m'" if "(kstep b3 imp)\<^sup>*\<^sup>* m m'" for m' imp
    using that
  proof (induction rule: rtranclp_induct)
    case (step m1 m2)
    then show ?case using world_step_grows[OF kstep_world] ksteps_ok[OF step(1) ok(1)] by blast
  qed (rule assms(4))
  have e: "b \<in> sm_erased_buckets (replay b3 es' m)" by (rule erased[OF replay_steps[OF ok(1) assms(5) log_imports_any]])
  moreover have "world_ok (replay b3 es' m)" by (rule world.replay_keeps[OF ok assms(5) log_imports_any])
  ultimately show ?thesis using assms(6) by (fastforce simp: world_ok_def placed_def create_bucket_def)
qed

theorem erased_bucket_permanent_witness:
  "let m = replay id (sample_log @ [(4, PurgeBucket ''acme'' 2000)]) (new_machine id); es = [(5, CreateBucket ''acme'')]
   in ''acme'' \<in> sm_erased_buckets m \<and> ''acme'' \<notin> sm_buckets (replay id es m) \<and>
      (\<forall>i. bsi_bucket i = ''acme'' \<longrightarrow> stream_slot_of (replay id es m) i = None)"
proof -
  let ?es = "sample_log @ [(4, PurgeBucket ''acme'' 2000)]"
  have m: "replay id ?es (new_machine id) = fst (purge_bucket ''acme'' 2000 sample_group)"
    by (simp add: replay_append sample_replay apply_entry_def)
  have fits: "log_fits id ?es (new_machine id)" by (simp add: sample_log_def u64_max_def)
  have "sm_history sample_group \<noteq> None" by (simp add: sample_group_def)
  then have erased: "''acme'' \<in> sm_erased_buckets (replay id ?es (new_machine id))"
    by (auto simp: m purge_bucket_def sample_valid Let_def split: prod.split)
  then show ?thesis
    using erased_bucket_permanent[OF inj_on_id fits refl erased, of "[(5, CreateBucket ''acme'')]"] sample_valid
    by (simp add: Let_def)
qed


section \<open>The sweep makes progress\<close>

definition expired_ids :: "u64 \<Rightarrow> stream_state_machine \<Rightarrow> bucket_stream_id set" where
  "expired_ids now m = {i. \<exists>s. stream_slot_of m i = Some s \<and> stream_is_expired (slot_metadata s) now}"

lemma finite_expired: "finite (expired_ids now m)"
proof -
  have "expired_ids now m \<subseteq> fst ` set (reg_keys (sm_registry m))"
    by (auto simp: expired_ids_def stream_slot_of_def reg_slot_def split: option.splits dest!: map_of_SomeD) force
  then show ?thesis by (rule finite_subset) simp
qed

lemma retire_loop_registry: "sm_registry (fst (retire_loop left t n m)) = sm_registry m"
  by (induction left t n m rule: retire_loop.induct) (auto split: option.split)

lemma sweep_effect:
  assumes "machine_ok m" "limit \<le> u32_max"
  shows "\<exists>ids k. snd (sweep now limit t m) = Swept (length ids) k \<and> swept limit now m ids (fst (sweep now limit t m))"
proof -
  obtain m1 k where l: "sweep_loop limit now 0 m = (m1, k)" by fastforce
  then obtain ids where ids: "k = length ids" "swept limit now m ids m1"
    using sweep_loop_effect[OF assms(1) _ l] assms(2) by (auto simp: u32_max_def u64_max_def)
  let ?m2 = "fst (retire_loop limit (min t (usage_seq m)) 0 m1)"
  have "stream_slot_of ?m2 = stream_slot_of m1" by (rule lookup_cong[OF retire_loop_registry])
  then have "swept limit now m ids ?m2" using ids(2) by (simp add: swept_def)
  then show ?thesis
    using l ids(1) by (auto simp: sweep_def retire_end_records_def Let_def split: prod.split)
qed

lemma swept_expired:
  assumes "swept limit now m ids m'"
  shows "expired_ids now m' = expired_ids now m - set ids" "set ids \<subseteq> expired_ids now m" "card (set ids) = length ids"
    "length ids < limit \<Longrightarrow> expired_ids now m' = {}" "i \<notin> expired_ids now m \<Longrightarrow> stream_slot_of m' i = stream_slot_of m i"
  using assms by (auto simp: swept_def expired_ids_def distinct_card)

lemma sweep_ok: "machine_ok m \<Longrightarrow> limit \<le> u32_max \<Longrightarrow> machine_ok (fst (sweep now limit t m))"
  using ksteps_ok[OF sweep_steps[of m limit id "\<lambda>_. True" now t]] by (simp add: u32_max_def u64_max_def)

text \<open>C14. The sweep drains: when at most \<open>k\<close> times its limit streams have expired, \<open>k\<close> sweeps
  remove all of them, and no sweep touches a stream that has not expired.\<close>

theorem sweeps_drain_expired:
  assumes "machine_ok m" "limit \<le> u32_max" "card (expired_ids now m) \<le> k * limit"
  shows "expired_ids now (((\<lambda>m. fst (sweep now limit t m)) ^^ k) m) = {} \<and>
    (\<forall>i. i \<notin> expired_ids now m \<longrightarrow>
       stream_slot_of (((\<lambda>m. fst (sweep now limit t m)) ^^ k) m) i = stream_slot_of m i)"
  using assms
proof (induction k arbitrary: m)
  case 0
  then show ?case using finite_expired[of now m] by simp
next
  case (Suc k)
  let ?m1 = "fst (sweep now limit t m)"
  obtain ids where ids: "swept limit now m ids ?m1" using sweep_effect[OF Suc.prems(1,2), of now t] by blast
  note e = swept_expired[OF ids]
  have "card (expired_ids now ?m1) \<le> k * limit"
  proof (cases "length ids < limit")
    case True
    then show ?thesis using e(4) by simp
  next
    case False
    then have "limit = length ids" using ids by (simp add: swept_def)
    then show ?thesis using Suc.prems(3) e(1-3) card_Diff_subset[OF _ e(2)] by simp
  qed
  then show ?case
    using Suc.IH[OF sweep_ok[OF Suc.prems(1,2)] Suc.prems(2), of now t] e(1,5)
    by (simp add: funpow_Suc_right del: funpow.simps)
qed

theorem sweeps_drain_expired_witness:
  "expired_ids 61000 sample_group = {sample_id} \<and> expired_ids 61000 (fst (sweep 61000 8 0 sample_group)) = {}"
proof -
  have x: "expired_ids 61000 sample_group = {sample_id}"
    by (auto simp: expired_ids_def sample_lookup split: if_splits)
      (simp add: sample_stream_def stream_is_expired_def stream_expiry_at_ms_def sat_add_def sat_mul_def u64_max_def)
  then show ?thesis
    using sweeps_drain_expired[OF sample_ok(1), of 8 61000 1 0] by (simp add: u32_max_def)
qed

end
