(* ===== verification/Cold_Compaction.thy ===== *)
theory Cold_Compaction
  imports Sample_Group
begin

text \<open>
  A refused compaction of shared chunks is not without effect: \<^verbatim>\<open>compact_cold\<close> of \<^verbatim>\<open>state_machine/cold.rs\<close> calls
  \<^verbatim>\<open>remove_shared_chunks\<close>, which drops the references it finds before it answers that some were missing.
\<close>

text \<open>C40.  A refused compaction loses references: when only some of its shared inputs are still held, the
  command answers \<^verbatim>\<open>InvalidColdFlush\<close>, yet the stream no longer holds the inputs it held, while the counts of
  the shared objects and the reclamation queue are as before, so nothing releases what was dropped.\<close>

theorem refused_compaction_drops_refs:
  assumes "machine_ok m" "validate_stream_scope i m = None" "stream_slot_of m i = Some s"
    and "check_compaction old replacement = Some n" "list_all cc_shared_object old"
    and "\<not> snd (remove_shared_chunks old (slot_cold s))" "ch \<in> set old" "ch \<in> set (cold_chunks (slot_cold s))"
  shows "snd (compact_cold i old replacement t m) = error InvalidColdFlush \<and>
    (\<exists>s'. stream_slot_of (fst (compact_cold i old replacement t m)) i = Some s' \<and> ch \<notin> set (cold_chunks (slot_cold s'))) \<and>
    sm_shared_refs (fst (compact_cold i old replacement t m)) = sm_shared_refs m \<and>
    sm_cold_gc (fst (compact_cold i old replacement t m)) = sm_cold_gc m"
proof -
  define m1 where "m1 = modify_stream_slot i (\<lambda>s. s\<lparr> slot_cold := fst (remove_shared_chunks old (slot_cold s)) \<rparr>) m"
  have "compact_cold i old replacement t m = (m1, error InvalidColdFlush)"
    using assms(2-6) by (simp add: compact_cold_def m1_def)
  moreover have "stream_slot_of m1 i = Some (s\<lparr> slot_cold := fst (remove_shared_chunks old (slot_cold s)) \<rparr>)"
    unfolding m1_def using assms(1,3) by (subst lookup_modify) simp_all
  moreover have "ch \<notin> set (cold_chunks (fst (remove_shared_chunks old (slot_cold s))))"
    using assms(7) by (simp add: remove_shared_chunks_def Let_def)
  ultimately show ?thesis by (simp add: m1_def)
qed

definition shared_slice :: "u64 \<Rightarrow> cold_chunk_ref" where
  "shared_slice n = \<lparr> cc_start_offset = n, cc_end_offset = n + 1, cc_s3_path = ''pack'', cc_object_size = 8, cc_object_offset = n,
     cc_shared_object = True, cc_payload_digest = [] \<rparr>"

text \<open>The sample stream with the first of two slices of a pack.\<close>

definition packed_group :: stream_state_machine where
  "packed_group = modify_stream_slot sample_id (\<lambda>s. s\<lparr> slot_cold := push_cold_chunk (shared_slice 0) (slot_cold s) \<rparr>) sample_group"

definition merged_slice :: cold_chunk_ref where
  "merged_slice = \<lparr> cc_start_offset = 0, cc_end_offset = 2, cc_s3_path = ''merged'', cc_object_size = 2, cc_object_offset = 0,
     cc_shared_object = False, cc_payload_digest = [] \<rparr>"

lemma packed_ok: "machine_ok packed_group" "validate_stream_scope sample_id packed_group = None"
  "stream_slot_of packed_group sample_id = Some (sample_stream\<lparr> slot_cold := push_cold_chunk (shared_slice 0) (with_generation 1000) \<rparr>)"
proof -
  show "machine_ok packed_group" unfolding packed_group_def by (rule modify_ok_metadata[OF sample_ok(1)]) simp
  show "validate_stream_scope sample_id packed_group = None"
    by (simp add: validate_stream_scope_def packed_group_def sample_valid) (simp add: sample_group_def)
  show "stream_slot_of packed_group sample_id = Some (sample_stream\<lparr> slot_cold := push_cold_chunk (shared_slice 0) (with_generation 1000) \<rparr>)"
    by (simp add: packed_group_def lookup_modify[OF sample_ok(1)] sample_lookup) (simp add: sample_stream_def)
qed

lemma merged_checks: "check_compaction [shared_slice 0, shared_slice 1] merged_slice = Some 2"
proof -
  have "trim ''merged'' \<noteq> []" by code_simp
  then show ?thesis by (simp add: check_compaction_def shared_slice_def merged_slice_def sat_add_def u64_max_def)
qed

theorem refused_compaction_drops_refs_witness:
  "snd (compact_cold sample_id [shared_slice 0, shared_slice 1] merged_slice 0 packed_group) = error InvalidColdFlush \<and>
   (\<exists>s'. stream_slot_of (fst (compact_cold sample_id [shared_slice 0, shared_slice 1] merged_slice 0 packed_group)) sample_id = Some s' \<and>
     shared_slice 0 \<notin> set (cold_chunks (slot_cold s')))"
proof -
  have "list_all cc_shared_object [shared_slice 0, shared_slice 1]" by (simp add: shared_slice_def)
  moreover have "\<not> snd (remove_shared_chunks [shared_slice 0, shared_slice 1] (push_cold_chunk (shared_slice 0) (with_generation 1000)))"
      "shared_slice 0 \<in> set (cold_chunks (push_cold_chunk (shared_slice 0) (with_generation 1000)))"
    by (simp_all add: remove_shared_chunks_def push_cold_chunk_def with_generation_def shared_slice_def)
  ultimately show ?thesis
    using refused_compaction_drops_refs[OF packed_ok merged_checks, of "shared_slice 0" 0] by simp
qed

end
