(* ===== verification/Flush_Planner.thy ===== *)
theory Flush_Planner
  imports Cold_Commands
begin

text \<open>
  The cold flush planner of a leader (\<^verbatim>\<open>state_machine/flush_planner.rs\<close>): one pass over the streams
  that hold hot bytes, aged tails first, then largest first, within the budgets of the request. The
  loop over a stream pushes one candidate a turn, so it is total by the candidate bound; the hot index
  is iterated in stream order, which the pass's total sort makes immaterial.
\<close>

record cold_flush_hot_age =
  ha_now_ms :: u64
  ha_max_age_ms :: u64

record cold_flush_pressure =
  pr_node_hot_bytes :: u64
  pr_node_target_bytes :: u64

definition group_drain_bytes :: "cold_flush_pressure \<Rightarrow> u64 \<Rightarrow> u64" where
  "group_drain_bytes p group_hot_bytes =
     (let excess = pr_node_hot_bytes p - pr_node_target_bytes p
      in if excess = 0 \<or> pr_node_hot_bytes p = 0 then 0
         else min (min (div_ceil (group_hot_bytes * excess) (pr_node_hot_bytes p)) u64_max) group_hot_bytes)"

record cold_flush_pass_request =
  pq_min_hot_bytes :: usize
  pq_max_flush_bytes :: usize
  pq_max_batch_bytes :: usize
  pq_max_candidates :: usize
  pq_pressure :: "cold_flush_pressure option"
  pq_max_hot_age :: "cold_flush_hot_age option"

record cold_flush_plan_stats =
  st_streams_visited :: usize
  st_sorts :: usize
  st_bytes_copied :: usize

record cold_flush_pass =
  pass_candidates :: "cold_flush_candidate list"
  pass_stats :: cold_flush_plan_stats

datatype pass_mode = GroupDrain | Pressure u64 | AgedOnly

text \<open>The key of \<^verbatim>\<open>rotated_order\<close>: streams after the cursor first, then stream order.\<close>

definition rotated_order :: "bucket_stream_id option \<Rightarrow> bucket_stream_id \<Rightarrow> bool \<times> bucket_stream_id" where
  "rotated_order cursor i = ((case cursor of None \<Rightarrow> False | Some c \<Rightarrow> \<not> i > c), i)"

definition observe_hot_age :: "u64 \<Rightarrow> bucket_stream_id \<times> u64 \<Rightarrow> (bucket_stream_id, u64 \<times> u64) hashmap \<Rightarrow>
  (bucket_stream_id, u64 \<times> u64) hashmap" where
  "observe_hot_age now_ms seen hot_since =
     (case map_of hot_since (fst seen) of
        None \<Rightarrow> AList.update (fst seen) (snd seen, now_ms) hot_since
      | Some e \<Rightarrow> if fst e \<noteq> snd seen then AList.update (fst seen) (snd seen, now_ms) hot_since else hot_since)"

definition observe_hot_ages :: "u64 \<Rightarrow> stream_state_machine \<Rightarrow> stream_state_machine" where
  "observe_hot_ages now_ms m =
     (let planner = sm_flush_planner m;
          observed = List.map_filter
            (\<lambda>i. Option.bind (stream_slot_of m i) (\<lambda>s. map_option (Pair i) (first_start_offset (slot_hot_buffer s))))
            (sorted_list_of_set (fp_hot_streams planner))
      in m\<lparr> sm_flush_planner := planner\<lparr> fp_hot_since := fold (observe_hot_age now_ms) observed (fp_hot_since planner) \<rparr> \<rparr>)"

definition hot_tail_aged :: "stream_state_machine \<Rightarrow> bucket_stream_id \<Rightarrow> cold_flush_hot_age option \<Rightarrow> bool" where
  "hot_tail_aged m stream_id age =
     (case age of
        None \<Rightarrow> False
      | Some a \<Rightarrow> (case map_of (fp_hot_since (sm_flush_planner m)) stream_id of
                     None \<Rightarrow> False | Some e \<Rightarrow> ha_now_ms a - snd e \<ge> ha_max_age_ms a))"

text \<open>The mutable locals of a pass.\<close>

record pass_state =
  ps_candidates :: "cold_flush_candidate list"
  ps_bytes_copied :: usize
  ps_budget :: usize
  ps_planned_total :: u64
  ps_last_stream :: "bucket_stream_id option"

definition pass_mode_of :: "stream_state_machine \<Rightarrow> cold_flush_pass_request \<Rightarrow> pass_mode option" where
  "pass_mode_of m req =
     (case pq_pressure req of
        Some p \<Rightarrow> Some (Pressure (group_drain_bytes p (sm_hot_payload_bytes m)))
      | None \<Rightarrow> if sm_hot_payload_bytes m \<ge> pq_min_hot_bytes req then Some GroupDrain
                else if pq_max_hot_age req \<noteq> None then Some AgedOnly
                else None)"

definition drained :: "stream_state_machine \<Rightarrow> cold_flush_pass_request \<Rightarrow> pass_mode \<Rightarrow> u64 \<Rightarrow> bool" where
  "drained m req mode planned_total =
     (case mode of
        GroupDrain \<Rightarrow> sat_mul (sm_hot_payload_bytes m - planned_total) 2 < pq_min_hot_bytes req
      | Pressure target \<Rightarrow> planned_total \<ge> target
      | AgedOnly \<Rightarrow> True)"

text \<open>The streams the pass visits with their hot size and whether their tail is aged, in pass order.\<close>

definition hot_list :: "stream_state_machine \<Rightarrow> cold_flush_pass_request \<Rightarrow> (bucket_stream_id \<times> usize \<times> bool) list" where
  "hot_list m req =
     List.map_filter
       (\<lambda>i. Option.bind (stream_slot_of m i)
              (\<lambda>s. if hot_len (slot_hot_buffer s) > 0
                   then Some (i, hot_len (slot_hot_buffer s), hot_tail_aged m i (pq_max_hot_age req)) else None))
       (sorted_list_of_set (fp_hot_streams (sm_flush_planner m)))"

definition pass_order :: "bucket_stream_id option \<Rightarrow> (bucket_stream_id \<times> usize \<times> bool) list \<Rightarrow>
  (bucket_stream_id \<times> usize \<times> bool) list" where
  "pass_order cursor = sort_key (\<lambda>(i, len, aged). (\<not> aged, - int len, rotated_order cursor i))"

definition take_candidate :: "cold_flush_candidate \<Rightarrow> pass_state \<Rightarrow> pass_state" where
  "take_candidate c st =
     (let len = length (cf_payload c)
      in st\<lparr> ps_candidates := ps_candidates st @ [c], ps_bytes_copied := sat_add (ps_bytes_copied st) len,
             ps_budget := ps_budget st - len, ps_planned_total := sat_add (ps_planned_total st) len,
             ps_last_stream := Some (cf_stream_id c) \<rparr>)"

lemma length_take_candidate [simp]:
  "length (ps_candidates (take_candidate c st)) = Suc (length (ps_candidates st))"
  by (simp add: take_candidate_def Let_def)

text \<open>The loop over one stream. \<^term>\<open>Inr (True, st)\<close> is \<^verbatim>\<open>break 'streams\<close>, \<^term>\<open>Inr (False, st)\<close> the
  inner \<^verbatim>\<open>break\<close>.\<close>

function plan_stream ::
  "(byte list \<Rightarrow> byte list) \<Rightarrow> stream_state_machine \<Rightarrow> cold_flush_pass_request \<Rightarrow> pass_mode \<Rightarrow>
   bucket_stream_id \<Rightarrow> usize \<Rightarrow> bool \<Rightarrow> u64 \<Rightarrow> usize \<Rightarrow> pass_state \<Rightarrow> stream_response + bool \<times> pass_state" where
  "plan_stream b3 m req mode i hot_bytes aged start planned st =
     (if length (ps_candidates st) \<ge> pq_max_candidates req \<or> ps_budget st = 0 then Inr (True, st)
      else if \<not> aged \<and> drained m req mode (ps_planned_total st) then Inr (True, st)
      else if hot_bytes - planned = 0 then Inr (False, st)
      else (case plan_cold_flush_with_start b3 i start 1 (min (pq_max_flush_bytes req) (ps_budget st)) m of
              Inr (Some c) \<Rightarrow>
                plan_stream b3 m req mode i hot_bytes aged (cf_end_offset c)
                  (sat_add planned (length (cf_payload c))) (take_candidate c st)
            | Inr None \<Rightarrow> Inr (False, st)
            | Inl r \<Rightarrow> (case r of
                          Error code _ _ \<Rightarrow> if code = StreamGone \<or> code = StreamNotFound then Inr (False, st) else Inl r
                        | _ \<Rightarrow> Inl r)))"
  by pat_completeness auto
termination
  by (relation "measure (\<lambda>(b3, m, req, mode, i, hot_bytes, aged, start, planned, st).
                  pq_max_candidates req - length (ps_candidates st))") auto

declare plan_stream.simps [simp del]

fun plan_streams ::
  "(byte list \<Rightarrow> byte list) \<Rightarrow> stream_state_machine \<Rightarrow> cold_flush_pass_request \<Rightarrow> pass_mode \<Rightarrow>
   (bucket_stream_id \<times> usize \<times> bool) list \<Rightarrow> pass_state \<Rightarrow> stream_response + pass_state" where
  "plan_streams b3 m req mode [] st = Inr st"
| "plan_streams b3 m req mode ((i, hot_bytes, aged) # hot) st =
     (case plan_stream b3 m req mode i hot_bytes aged (machine_hot_start_offset m i) 0 st of
        Inl r \<Rightarrow> Inl r
      | Inr (stop, st') \<Rightarrow> if stop then Inr st' else plan_streams b3 m req mode hot st')"

definition empty_pass :: cold_flush_pass where
  "empty_pass = \<lparr> pass_candidates = [], pass_stats = \<lparr> st_streams_visited = 0, st_sorts = 0, st_bytes_copied = 0 \<rparr> \<rparr>"

definition plan_cold_flush_pass_from ::
  "(byte list \<Rightarrow> byte list) \<Rightarrow> cold_flush_pass_request \<Rightarrow> bucket_stream_id option \<Rightarrow> stream_state_machine \<Rightarrow>
   stream_response + cold_flush_pass \<times> bucket_stream_id option" where
  "plan_cold_flush_pass_from b3 req cursor m =
     (if pq_max_candidates req = 0 \<or> pq_max_flush_bytes req = 0 \<or> pq_max_batch_bytes req = 0
      then Inr (empty_pass, None)
      else (case pass_mode_of m req of
              None \<Rightarrow> Inr (empty_pass, None)
            | Some mode \<Rightarrow>
                (let hot = hot_list m req;
                     visited = card (fp_hot_streams (sm_flush_planner m))
                 in if mode = AgedOnly \<and> \<not> list_ex (\<lambda>(_, _, aged). aged) hot
                    then Inr (\<lparr> pass_candidates = [],
                                pass_stats = \<lparr> st_streams_visited = visited, st_sorts = 0, st_bytes_copied = 0 \<rparr> \<rparr>, None)
                    else map_sum id
                           (\<lambda>st. (\<lparr> pass_candidates = ps_candidates st,
                                    pass_stats = \<lparr> st_streams_visited = visited, st_sorts = 1,
                                                   st_bytes_copied = ps_bytes_copied st \<rparr> \<rparr>, ps_last_stream st))
                           (plan_streams b3 m req mode (pass_order cursor hot)
                              \<lparr> ps_candidates = [], ps_bytes_copied = 0, ps_budget = pq_max_batch_bytes req,
                                ps_planned_total = 0, ps_last_stream = None \<rparr>))))"

definition plan_cold_flush_pass ::
  "(byte list \<Rightarrow> byte list) \<Rightarrow> cold_flush_pass_request \<Rightarrow> stream_state_machine \<Rightarrow>
   stream_state_machine \<times> (stream_response + cold_flush_pass)" where
  "plan_cold_flush_pass b3 req m =
     (let m1 = (case pq_max_hot_age req of None \<Rightarrow> m | Some a \<Rightarrow> observe_hot_ages (ha_now_ms a) m);
          cursor = fp_cursor (sm_flush_planner m1)
      in (case plan_cold_flush_pass_from b3 req cursor m1 of
            Inl r \<Rightarrow> (m1, Inl r)
          | Inr (pass, next_cursor) \<Rightarrow>
              (if next_cursor \<noteq> None
               then m1\<lparr> sm_flush_planner := (sm_flush_planner m1)\<lparr> fp_cursor := next_cursor \<rparr> \<rparr> else m1, Inr pass)))"

definition plan_next_cold_flush_batch ::
  "(byte list \<Rightarrow> byte list) \<Rightarrow> usize \<Rightarrow> usize \<Rightarrow> usize \<Rightarrow> usize \<Rightarrow> stream_state_machine \<Rightarrow>
   stream_response + cold_flush_candidate list" where
  "plan_next_cold_flush_batch b3 min_hot_bytes max_flush_bytes max_batch_bytes max_candidates m =
     map_sum id (\<lambda>(pass, _). pass_candidates pass)
       (plan_cold_flush_pass_from b3
          \<lparr> pq_min_hot_bytes = min_hot_bytes, pq_max_flush_bytes = max_flush_bytes,
            pq_max_batch_bytes = max_batch_bytes, pq_max_candidates = max_candidates,
            pq_pressure = None, pq_max_hot_age = None \<rparr> None m)"

end
