(* ===== verification/Usage_Export.thy ===== *)
theory Usage_Export
  imports State_Machine
begin

text \<open>
  The per-stream usage export (\<^verbatim>\<open>state_machine/usage_export.rs\<close>, the page types of \<^verbatim>\<open>usage.rs\<close>): the
  rule that decides from a cursor whether a page continues a listing, relists the group or is behind,
  and the pages of bucket rows and entries. Then the bounded-state gauges
  (\<^verbatim>\<open>state_machine/gauges.rs\<close>); the in-memory sizes of two structs are arguments.
\<close>

section \<open>Cursors and pages\<close>

record usage_log_id =
  li_term :: u64
  li_index :: u64

text \<open>The derived order of a log id: by term, then by index.\<close>

definition log_id_less :: "usage_log_id \<Rightarrow> usage_log_id \<Rightarrow> bool" where
  "log_id_less a b \<longleftrightarrow> li_term a < li_term b \<or> (li_term a = li_term b \<and> li_index a < li_index b)"

datatype usage_position = Rows "string option" | Entries u64

datatype usage_cursor = Start_Cursor | After u64 u64 usage_log_id u64 usage_position

record stream_usage_read =
  ur_cursor :: usage_cursor
  ur_limit :: usize

datatype relist_reason = Start_Relist | Requested | Retired | History_Relist

record bucket_usage_row =
  bw_bucket_id :: string
  bw_retired :: committed_usage
  bw_totals :: bucket_usage
  bw_snapshot_bytes :: u64

datatype usage_page = Complete | More usage_position

datatype lifecycle = Live u64 u64 | Ended stream_end u64

record usage_entry =
  ue_seq :: u64
  ue_stream_id :: bucket_stream_id
  ue_created_at_ms :: u64
  ue_counted_since :: u64
  ue_incarnation :: u64
  ue_counters :: version_counters
  ue_history_baseline :: version_counters
  ue_last_write :: last_write
  ue_lifecycle :: lifecycle

record usage_listing =
  lg_genesis :: u64
  lg_history :: history_event
  lg_applied :: usage_log_id
  lg_usage_seq :: u64
  lg_retired_through :: u64
  lg_live_versions :: u64
  lg_end_records :: u64
  lg_relist :: "relist_reason option"
  lg_rows :: "bucket_usage_row list"
  lg_entries :: "usage_entry list"
  lg_page :: usage_page

datatype group_usage_view = Listed usage_listing | Behind u64 u64 usage_log_id | NoHistory

datatype page_start = Relist relist_reason | RowsAfter string | EntriesAfter u64

section \<open>Pages\<close>

definition slot_by_key :: "stream_registry \<Rightarrow> stream_key \<Rightarrow> stream_slot option" where
  "slot_by_key reg k = map_of (reg_slots reg) k"

definition usage_row :: "stream_state_machine \<Rightarrow> string \<times> committed_usage \<Rightarrow> bucket_usage_row" where
  "usage_row m r =
     \<lparr> bw_bucket_id = fst r, bw_retired = snd r,
       bw_totals = (case map_of (map (\<lambda>t. (bus_bucket_id t, bus_usage t)) (bucket_usage_report m)) (fst r) of
                      None \<Rightarrow> zero_bucket_usage | Some t \<Rightarrow> t),
       bw_snapshot_bytes = (case map_of (snapshot_bytes_by_bucket m) (fst r) of None \<Rightarrow> 0 | Some b \<Rightarrow> b) \<rparr>"

definition usage_rows ::
  "stream_state_machine \<Rightarrow> string option \<Rightarrow> usize \<Rightarrow> bucket_usage_row list \<times> usage_position option" where
  "usage_rows m after_bucket limit =
     (let retired = retired_after after_bucket (sm_usage m);
          rows = map (usage_row m) (take limit retired)
      in (rows, if length retired > limit \<and> rows \<noteq> [] then Some (Rows (Some (bw_bucket_id (last rows)))) else None))"

definition live_entry :: "(byte list \<Rightarrow> byte list) \<Rightarrow> stream_state_machine \<Rightarrow> u64 \<Rightarrow> stream_slot \<Rightarrow> usage_entry" where
  "live_entry b3 m seq s =
     \<lparr> ue_seq = seq, ue_stream_id = slot_stream_id s, ue_created_at_ms = md_created_at_ms (slot_metadata s),
       ue_counted_since = vu_counted_since (slot_usage s), ue_incarnation = token_of b3 m (slot_metadata s),
       ue_counters = vu_counters (slot_usage s), ue_history_baseline = history_baseline_in s (history_id m),
       ue_last_write = vu_last_write (slot_usage s),
       ue_lifecycle = Live (retained_bytes s) (case visible_snapshot_bytes s of None \<Rightarrow> 0 | Some b \<Rightarrow> b) \<rparr>"

definition ended_entry :: "(byte list \<Rightarrow> byte list) \<Rightarrow> stream_state_machine \<Rightarrow> end_record \<Rightarrow> usage_entry" where
  "ended_entry b3 m r =
     \<lparr> ue_seq = er_seq r, ue_stream_id = er_stream_id r, ue_created_at_ms = er_created_at_ms r,
       ue_counted_since = er_counted_since r, ue_incarnation = incarnation_token b3 (er_created_at_ms r) (er_ended_in r),
       ue_counters = er_counters r,
       ue_history_baseline = (if er_ended_in r = history_id m then er_history_baseline r else er_counters r),
       ue_last_write = er_last_write r, ue_lifecycle = Ended (er_end r) (er_ended_at_ms r) \<rparr>"

text \<open>The merge of the live index and the end records in seq order.\<close>

fun usage_entries_loop ::
  "(byte list \<Rightarrow> byte list) \<Rightarrow> stream_state_machine \<Rightarrow> usize \<Rightarrow> usize \<Rightarrow> u64 \<Rightarrow>
   (u64 \<times> stream_key) list \<Rightarrow> end_record list \<Rightarrow> usage_entry list \<times> usage_page" where
  "usage_entries_loop b3 m limit listed last_seq [] [] = ([], Complete)"
| "usage_entries_loop b3 m limit listed last_seq ((seq, k) # live) ends =
     (if ends \<noteq> [] \<and> \<not> seq < er_seq (hd ends)
      then (if listed \<ge> limit then ([], More (Entries last_seq))
            else (case usage_entries_loop b3 m limit (sat_add listed 1) (er_seq (hd ends)) ((seq, k) # live) (tl ends) of
                    (es, page) \<Rightarrow> (ended_entry b3 m (hd ends) # es, page)))
      else if listed \<ge> limit then ([], More (Entries last_seq))
      else (case slot_by_key (sm_registry m) k of
              None \<Rightarrow> usage_entries_loop b3 m limit listed last_seq live ends
            | Some s \<Rightarrow>
                (case usage_entries_loop b3 m limit (sat_add listed 1) seq live ends of
                   (es, page) \<Rightarrow> (live_entry b3 m seq s # es, page))))"
| "usage_entries_loop b3 m limit listed last_seq [] (r # ends) =
     (if listed \<ge> limit then ([], More (Entries last_seq))
      else (case usage_entries_loop b3 m limit (sat_add listed 1) (er_seq r) [] ends of
              (es, page) \<Rightarrow> (ended_entry b3 m r # es, page)))"

definition usage_entries ::
  "(byte list \<Rightarrow> byte list) \<Rightarrow> stream_state_machine \<Rightarrow> u64 \<Rightarrow> usize \<Rightarrow> usage_entry list \<times> usage_page" where
  "usage_entries b3 m after_seq limit =
     usage_entries_loop b3 m limit 0 after_seq (live_after after_seq (sm_usage m)) (ends_after after_seq (sm_usage m))"

section \<open>The cursor rule\<close>

text \<open>\<^term>\<open>None\<close> is the answer \<^verbatim>\<open>Behind\<close>.\<close>

definition page_start_of ::
  "stream_state_machine \<Rightarrow> history_event \<Rightarrow> usage_log_id \<Rightarrow> usage_cursor \<Rightarrow> page_start option" where
  "page_start_of m history applied cursor =
     (case cursor of
        Start_Cursor \<Rightarrow> Some (Relist Start_Relist)
      | After cursor_genesis cursor_history cursor_applied cursor_retired_through position \<Rightarrow>
          (let after_seq = (case position of Rows _ \<Rightarrow> 0 | Entries a \<Rightarrow> a)
           in if cursor_genesis \<noteq> usage_genesis m then Some (Relist History_Relist)
              else if log_id_less applied cursor_applied then None
              else if cursor_history \<noteq> he_id history then Some (Relist History_Relist)
              else if usage_retired_through m > max after_seq cursor_retired_through then Some (Relist Retired)
              else (case position of
                      Rows None \<Rightarrow> Some (Relist Requested)
                    | Rows (Some bucket_id) \<Rightarrow> Some (RowsAfter bucket_id)
                    | Entries a \<Rightarrow> Some (EntriesAfter a))))"

definition page_of ::
  "(byte list \<Rightarrow> byte list) \<Rightarrow> stream_state_machine \<Rightarrow> usize \<Rightarrow> string option option \<Rightarrow> u64 \<Rightarrow>
   bucket_usage_row list \<times> usage_entry list \<times> usage_page" where
  "page_of b3 m limit rows_after entries_after =
     (let (rows, cut) = (case rows_after of None \<Rightarrow> ([], None) | Some after_bucket \<Rightarrow> usage_rows m after_bucket limit)
      in case cut of
           Some next \<Rightarrow> (rows, [], More next)
         | None \<Rightarrow> (let (es, page) = usage_entries b3 m entries_after (limit - length rows) in (rows, es, page)))"

definition stream_usage ::
  "(byte list \<Rightarrow> byte list) \<Rightarrow> stream_usage_read \<Rightarrow> usage_log_id \<Rightarrow> stream_state_machine \<Rightarrow> group_usage_view" where
  "stream_usage b3 read_req applied m =
     (case sm_history m of
        None \<Rightarrow> NoHistory
      | Some history \<Rightarrow>
          if usage_genesis m = 0 then NoHistory
          else (case page_start_of m history applied (ur_cursor read_req) of
                  None \<Rightarrow> Behind (usage_genesis m) (he_id history) applied
                | Some start \<Rightarrow>
                    (let relist = (case start of Relist reason \<Rightarrow> Some reason | _ \<Rightarrow> None);
                         rows_after = (case start of Relist _ \<Rightarrow> Some None | RowsAfter b \<Rightarrow> Some (Some b) | EntriesAfter _ \<Rightarrow> None);
                         entries_after = (case start of EntriesAfter a \<Rightarrow> a | _ \<Rightarrow> 0);
                         (rows, es, page) = page_of b3 m (ur_limit read_req) rows_after entries_after
                     in Listed \<lparr> lg_genesis = usage_genesis m, lg_history = history, lg_applied = applied,
                                 lg_usage_seq = usage_seq m, lg_retired_through = usage_retired_through m,
                                 lg_live_versions = len_u64 (reg_len (sm_registry m)),
                                 lg_end_records = len_u64 (length (end_records m)), lg_relist = relist,
                                 lg_rows = rows, lg_entries = es, lg_page = page \<rparr>)))"

section \<open>Gauges\<close>

record group_state_gauges =
  gg_streams :: u64
  gg_shared_refs :: u64
  gg_max_shared_refs_per_stream :: u64
  gg_live_packs :: u64
  gg_staged_external_refs :: u64
  gg_producers :: u64
  gg_max_producers_per_stream :: u64
  gg_floored_streams :: u64
  gg_producer_bytes :: u64
  gg_max_producer_bytes_per_stream :: u64
  gg_ttl_streams :: u64
  gg_ttl_heap_entries :: u64
  gg_hot_payload_bytes :: u64
  gg_hot_chunks :: u64
  gg_hot_overhead_bytes :: u64
  gg_pending_cold_gc :: u64
  gg_bucket_usage_rows :: u64
  gg_erased_buckets :: u64
  gg_end_records :: u64
  gg_end_record_bytes :: u64
  gg_oldest_end_record_at_ms :: u64

definition producer_state_bytes :: "usize \<Rightarrow> string \<Rightarrow> u64" where
  "producer_state_bytes state_size producer_id = len_u64 (sat_add (length producer_id) state_size)"

definition chunk_overhead_bytes :: "usize \<Rightarrow> hot_buffer \<Rightarrow> usize" where
  "chunk_overhead_bytes block_size h = sat_mul (length (hot_blocks h)) block_size"

definition gauge_slot :: "usize \<Rightarrow> usize \<Rightarrow> stream_slot \<Rightarrow> group_state_gauges \<Rightarrow> group_state_gauges" where
  "gauge_slot state_size block_size s g =
     (let shared = len_u64 (length (filter cc_shared_object (cold_chunks (slot_cold s))));
          producers = len_u64 (length (slot_producers s));
          stream_producer_bytes = foldl sat_add 0 (map (producer_state_bytes state_size \<circ> fst) (slot_producers s))
      in g\<lparr> gg_streams := sat_add (gg_streams g) 1,
            gg_ttl_streams := (if stream_expiry_at_ms (slot_metadata s) \<noteq> None then sat_add (gg_ttl_streams g) 1
                               else gg_ttl_streams g),
            gg_shared_refs := sat_add (gg_shared_refs g) shared,
            gg_max_shared_refs_per_stream := max (gg_max_shared_refs_per_stream g) shared,
            gg_staged_external_refs := sat_add (gg_staged_external_refs g)
               (len_u64 (length (external_segments (slot_cold s)))),
            gg_producers := sat_add (gg_producers g) producers,
            gg_max_producers_per_stream := max (gg_max_producers_per_stream g) producers,
            gg_floored_streams := (if slot_retired_epoch_watermark s \<noteq> None then sat_add (gg_floored_streams g) 1
                                   else gg_floored_streams g),
            gg_producer_bytes := sat_add (gg_producer_bytes g) stream_producer_bytes,
            gg_max_producer_bytes_per_stream := max (gg_max_producer_bytes_per_stream g) stream_producer_bytes,
            gg_hot_chunks := sat_add (gg_hot_chunks g) (len_u64 (chunk_count (slot_hot_buffer s))),
            gg_hot_overhead_bytes := sat_add (gg_hot_overhead_bytes g)
               (len_u64 (chunk_overhead_bytes block_size (slot_hot_buffer s))) \<rparr>)"

definition gauge_end :: "end_record \<Rightarrow> group_state_gauges \<Rightarrow> group_state_gauges" where
  "gauge_end r g =
     g\<lparr> gg_end_records := sat_add (gg_end_records g) 1,
        gg_end_record_bytes := sat_add (gg_end_record_bytes g) (end_record_bytes r) \<rparr>"

definition oldest_end :: "end_record list \<Rightarrow> u64 option" where
  "oldest_end rs = foldl (\<lambda>oldest r. Some (case oldest of None \<Rightarrow> er_ended_at_ms r | Some a \<Rightarrow> min a (er_ended_at_ms r)))
                     None rs"

definition state_gauges :: "usize \<Rightarrow> usize \<Rightarrow> stream_state_machine \<Rightarrow> group_state_gauges" where
  "state_gauges state_size block_size m =
     (let g0 = \<lparr> gg_streams = 0, gg_shared_refs = 0, gg_max_shared_refs_per_stream = 0,
                 gg_live_packs = len_u64 (length (sm_shared_refs m)), gg_staged_external_refs = 0, gg_producers = 0,
                 gg_max_producers_per_stream = 0, gg_floored_streams = 0, gg_producer_bytes = 0,
                 gg_max_producer_bytes_per_stream = 0, gg_ttl_streams = 0,
                 gg_ttl_heap_entries = len_u64 (ttl_heap_len (sm_registry m)),
                 gg_hot_payload_bytes = sm_hot_payload_bytes m, gg_hot_chunks = 0, gg_hot_overhead_bytes = 0,
                 gg_pending_cold_gc = len_u64 (gc_len (sm_cold_gc m)),
                 gg_bucket_usage_rows = len_u64 (bucket_usage_rows m),
                 gg_erased_buckets = len_u64 (card (sm_erased_buckets m)), gg_end_records = 0,
                 gg_end_record_bytes = 0, gg_oldest_end_record_at_ms = 0 \<rparr>;
          g1 = (fold gauge_end (end_records m) g0)\<lparr> gg_oldest_end_record_at_ms :=
                  (case oldest_end (end_records m) of None \<Rightarrow> 0 | Some a \<Rightarrow> a) \<rparr>
      in fold (gauge_slot state_size block_size) (reg_slot_values (sm_registry m)) g1)"

end
