(* ===== verification/Shard_Map.thy ===== *)
theory Shard_Map
  imports Model
begin

unbundle bit_operations_syntax

text \<open>
  Placement of streams on Raft groups and cores, \<^verbatim>\<open>crates/ursula-shard/src/lib.rs\<close>: the static
  shard map and the FNV-1a routing hash, at its machine width.
\<close>

record shard_placement =
  sp_core_id :: nat
  sp_shard_id :: nat
  sp_raft_group_id :: nat

datatype shard_map_error = ZeroCores | ZeroRaftGroups | TooManyCores usize | TooManyRaftGroups usize

record static_shard_map =
  shm_core_count :: nat
  shm_raft_group_count :: nat

definition new_shard_map :: "usize \<Rightarrow> usize \<Rightarrow> shard_map_error + static_shard_map" where
  "new_shard_map core_count raft_group_count =
     (if core_count = 0 then Inl ZeroCores
      else if raft_group_count = 0 then Inl ZeroRaftGroups
      else if core_count \<ge> 2 ^ 16 then Inl (TooManyCores core_count)
      else if raft_group_count \<ge> 2 ^ 32 then Inl (TooManyRaftGroups raft_group_count)
      else Inr \<lparr> shm_core_count = core_count, shm_raft_group_count = raft_group_count \<rparr>)"

definition placement :: "static_shard_map \<Rightarrow> nat \<Rightarrow> shard_placement option" where
  "placement m raft_group_id =
     (if raft_group_id \<ge> shm_raft_group_count m then None
      else let core = raft_group_id mod shm_core_count m
           in if core \<ge> 2 ^ 16 then None
              else Some \<lparr> sp_core_id = core, sp_shard_id = raft_group_id, sp_raft_group_id = raft_group_id \<rparr>)"

definition fnv_prime :: "64 word" where
  "fnv_prime = 0x00000100000001b3"

definition fnv_offset :: "64 word" where
  "fnv_offset = 0xcbf29ce484222325"

definition fnv_byte :: "char \<Rightarrow> 64 word \<Rightarrow> 64 word" where
  "fnv_byte c hash = (hash XOR word_of_nat (of_char c)) * fnv_prime"

definition fnv1a64_routing_key :: "bucket_stream_id \<Rightarrow> 64 word" where
  "fnv1a64_routing_key stream_id =
     fold fnv_byte (bsi_stream stream_id)
       (fnv_byte (CHR ''/'') (fold fnv_byte (bsi_bucket stream_id) fnv_offset))"

definition locate :: "static_shard_map \<Rightarrow> bucket_stream_id \<Rightarrow> shard_placement" where
  "locate m stream_id =
     (let raft_group = unat (fnv1a64_routing_key stream_id) mod shm_raft_group_count m mod 2 ^ 32;
          core = raft_group mod shm_core_count m mod 2 ^ 16
      in \<lparr> sp_core_id = core, sp_shard_id = raft_group, sp_raft_group_id = raft_group \<rparr>)"

text \<open>The hash of the joined path, as a reference.\<close>

definition fnv1a64 :: "string \<Rightarrow> 64 word" where
  "fnv1a64 s = fold fnv_byte s fnv_offset"

lemma new_shard_map_Inr:
  "new_shard_map c g = Inr m \<longleftrightarrow>
     0 < c \<and> c < 2 ^ 16 \<and> 0 < g \<and> g < 2 ^ 32 \<and> m = \<lparr> shm_core_count = c, shm_raft_group_count = g \<rparr>"
  by (auto simp: new_shard_map_def)

text \<open>C35. Every shard map places every stream on a group and a core of the map, by the FNV-1a hash of
  its path \<open>bucket/stream\<close>: the casts lose nothing, and the placement of the group a stream
  hashes to is the placement of the stream.\<close>

theorem locate_total:
  assumes "new_shard_map cores groups = Inr m"
  shows "sp_raft_group_id (locate m i) = unat (fnv1a64 (bsi_bucket i @ ''/'' @ bsi_stream i)) mod groups \<and>
    sp_core_id (locate m i) = sp_raft_group_id (locate m i) mod cores \<and>
    placement m (sp_raft_group_id (locate m i)) = Some (locate m i)"
proof -
  have m: "0 < cores" "cores < 2 ^ 16" "0 < groups" "groups < 2 ^ 32" "m = \<lparr> shm_core_count = cores, shm_raft_group_count = groups \<rparr>"
    using assms by (simp_all add: new_shard_map_Inr)
  let ?h = "unat (fnv1a64_routing_key i)"
  have small: "?h mod groups < 2 ^ 32" "?h mod groups < groups" "\<And>g. g mod cores < 2 ^ 16"
    using less_trans[OF mod_less_divisor[OF m(3)] m(4)] mod_less_divisor[OF m(3)]
      less_trans[OF mod_less_divisor[OF m(1)] m(2)] by blast+
  have core: "g mod cores mod 2 ^ 16 = g mod cores" for g using small(3)[of g] by (rule mod_less)
  have group: "?h mod groups mod 2 ^ 32 = ?h mod groups" using small(1) by (rule mod_less)
  have hash: "fnv1a64_routing_key i = fnv1a64 (bsi_bucket i @ ''/'' @ bsi_stream i)"
    by (simp add: fnv1a64_routing_key_def fnv1a64_def)
  have loc: "locate m i = \<lparr> sp_core_id = ?h mod groups mod cores, sp_shard_id = ?h mod groups, sp_raft_group_id = ?h mod groups \<rparr>"
    unfolding locate_def Let_def m(5) static_shard_map.simps group core ..
  have "\<not> ?h mod groups mod cores \<ge> 2 ^ 16" "\<not> ?h mod groups \<ge> groups" using small(2) small(3)[of "?h mod groups"] by auto
  then have "placement m (?h mod groups) = Some (locate m i)"
    using loc[symmetric] unfolding placement_def Let_def m(5) static_shard_map.simps by simp
  then show ?thesis unfolding loc by (simp add: hash)
qed

theorem locate_total_witness:
  "case new_shard_map 4 64 of
     Inl _ \<Rightarrow> False
   | Inr m \<Rightarrow> placement m (sp_raft_group_id (locate m (BucketStreamId ''agents'' ''session-42''))) =
       Some (locate m (BucketStreamId ''agents'' ''session-42''))"
proof -
  have m: "new_shard_map 4 64 = Inr \<lparr> shm_core_count = 4, shm_raft_group_count = 64 \<rparr>" by (simp add: new_shard_map_def)
  show ?thesis unfolding m sum.case using locate_total[OF m] by blast
qed

end
