(* ===== verification/Placement_Types.thy ===== *)
theory Placement_Types
  imports Btree_Map
begin

text \<open>
  The placement vocabulary of \<^verbatim>\<open>ursula-proto/src/placement.rs\<close>: node ids, Raft log ids and their
  order, lifecycles, root slots, node records and the node sets that are never empty.  Newtypes of
  integers are the integers; a \<^verbatim>\<open>BTreeSet\<close> is a set, iterated in ascending order.
\<close>

type_synonym node_id = u64
type_synonym raft_group_id = u32
type_synonym root_id = u64
type_synonym group_count = u32
type_synonym replication_factor = nat
type_synonym move_limit = u32

section \<open>Log ids\<close>

datatype raft_log_id = RaftLogId (rl_term: u64) (rl_leader: node_id) (rl_index: u64)

text \<open>The order written by hand in the source: the term, then the leader, then the index.\<close>

instantiation raft_log_id :: linorder
begin

definition less_eq_raft_log_id :: "raft_log_id \<Rightarrow> raft_log_id \<Rightarrow> bool" where
  "less_eq_raft_log_id a b =
     (rl_term a < rl_term b \<or>
      rl_term a = rl_term b \<and>
        (rl_leader a < rl_leader b \<or> rl_leader a = rl_leader b \<and> rl_index a \<le> rl_index b))"

definition less_raft_log_id :: "raft_log_id \<Rightarrow> raft_log_id \<Rightarrow> bool" where
  "less_raft_log_id a b =
     (rl_term a < rl_term b \<or>
      rl_term a = rl_term b \<and>
        (rl_leader a < rl_leader b \<or> rl_leader a = rl_leader b \<and> rl_index a < rl_index b))"

instance
  by standard (auto simp: less_eq_raft_log_id_def less_raft_log_id_def intro: raft_log_id.expand)

end

datatype meta_log_id = MetaLogId (meta_get: raft_log_id)

instantiation meta_log_id :: linorder
begin

definition less_eq_meta_log_id :: "meta_log_id \<Rightarrow> meta_log_id \<Rightarrow> bool" where
  "less_eq_meta_log_id a b = (meta_get a \<le> meta_get b)"

definition less_meta_log_id :: "meta_log_id \<Rightarrow> meta_log_id \<Rightarrow> bool" where
  "less_meta_log_id a b = (meta_get a < meta_get b)"

instance
  by standard (auto simp: less_eq_meta_log_id_def less_meta_log_id_def intro: meta_log_id.expand)

end

datatype membership_log_id = MembershipLogId (membership_get: raft_log_id)

text \<open>A group's placement key: the meta entry that set its placement or the last history event.\<close>

datatype placement_epoch = PlacementEpoch (epoch_log_id: meta_log_id)

section \<open>Nodes\<close>

datatype node_lifecycle = Active | Cordoned | Decommissioning | Removed | Vacant

fun has_life :: "node_lifecycle \<Rightarrow> bool" where
  "has_life Active = True"
| "has_life Cordoned = True"
| "has_life Decommissioning = True"
| "has_life Removed = False"
| "has_life Vacant = False"

datatype root_slot = Bound root_id | Released root_id

fun slot_root :: "root_slot \<Rightarrow> root_id" where
  "slot_root (Bound r) = r"
| "slot_root (Released r) = r"

record node_record =
  nr_lifecycle :: node_lifecycle
  nr_since_ms :: u64
  nr_root :: root_slot

datatype registered = Forming_Node | Referenced node_record | Unreferenced node_record

section \<open>Roles and answers\<close>

datatype replica_role = Voter | Incoming | Outgoing | Abandoned

fun takes_leadership :: "replica_role \<Rightarrow> bool" where
  "takes_leadership Voter = True"
| "takes_leadership Incoming = True"
| "takes_leadership Outgoing = False"
| "takes_leadership Abandoned = False"

datatype membership_answer = Voter_Answer | Learner_Answer | NotMember_Answer

datatype view_stage = Empty_View | Applied_View (vs_applied: meta_log_id) (vs_history: meta_log_id)

section \<open>Node sets that are never empty\<close>

text \<open>\<^verbatim>\<open>VoterSet\<close> and \<^verbatim>\<open>NodeSet\<close>, which one macro of the source declares: the smallest id is held apart
  from the rest.\<close>

record node_set =
  ns_min :: node_id
  ns_rest :: "node_id set"

type_synonym voter_set = node_set

definition ns_new :: "node_id set \<Rightarrow> node_set option" where
  "ns_new ids = (if ids = {} then None else Some \<lparr> ns_min = Min ids, ns_rest = ids - {Min ids} \<rparr>)"

definition ns_single :: "node_id \<Rightarrow> node_set" where
  "ns_single i = \<lparr> ns_min = i, ns_rest = {} \<rparr>"

definition ns_from_first :: "node_id \<Rightarrow> node_id list \<Rightarrow> node_set" where
  "ns_from_first first others =
     (let rest = insert first (set others) in \<lparr> ns_min = Min rest, ns_rest = rest - {Min rest} \<rparr>)"

definition ns_contains :: "node_set \<Rightarrow> node_id \<Rightarrow> bool" where
  "ns_contains s i = (i = ns_min s \<or> i \<in> ns_rest s)"

definition ns_len :: "node_set \<Rightarrow> usize" where
  "ns_len s = sat_add (card (ns_rest s)) 1"

definition ns_iter :: "node_set \<Rightarrow> node_id list" where
  "ns_iter s = ns_min s # sorted_list_of_set (ns_rest s)"

definition ns_to_set :: "node_set \<Rightarrow> node_id set" where
  "ns_to_set s = insert (ns_min s) (ns_rest s)"

definition max_group_count :: u32 where
  "max_group_count = 4096"

definition group_count_within_bound :: "u64 \<Rightarrow> bool" where
  "group_count_within_bound n = (n \<le> max_group_count)"

record genesis_claim =
  gc_meta_voters :: voter_set
  gc_peers :: node_set
  gc_group_count :: group_count
  gc_replication_factor :: replication_factor

definition is_genesis_node :: "genesis_claim \<Rightarrow> node_id \<Rightarrow> bool" where
  "is_genesis_node claim node = (ns_min (gc_meta_voters claim) = node)"

section \<open>Node sets are canonical\<close>

text \<open>The representation invariant: finite, and the minimum strictly below the rest.\<close>

definition ns_ok :: "node_set \<Rightarrow> bool" where
  "ns_ok s = (finite (ns_rest s) \<and> (\<forall>i \<in> ns_rest s. ns_min s < i))"

lemma ns_contains_iff [simp]: "ns_contains s i \<longleftrightarrow> i \<in> ns_to_set s"
  by (simp add: ns_contains_def ns_to_set_def)

lemma ns_to_set_nonempty [simp]: "ns_to_set s \<noteq> {}"
  by (simp add: ns_to_set_def)

lemma ns_min_in [simp]: "ns_min s \<in> ns_to_set s"
  by (simp add: ns_to_set_def)

lemma ns_ok_finite [simp]: "ns_ok s \<Longrightarrow> finite (ns_to_set s)"
  by (simp add: ns_ok_def ns_to_set_def)

lemma ns_okD: "ns_ok s \<Longrightarrow> ns_min s = Min (ns_to_set s)" "ns_ok s \<Longrightarrow> ns_rest s = ns_to_set s - {ns_min s}"
  by (force simp: ns_ok_def ns_to_set_def intro!: Min_eqI [symmetric] intro: less_imp_le)+

lemma ns_eq_iff: "ns_ok a \<Longrightarrow> ns_ok b \<Longrightarrow> a = b \<longleftrightarrow> ns_to_set a = ns_to_set b"
  using ns_okD[of a] ns_okD[of b] by (metis (full_types) node_set.equality old.unit.exhaust)

lemma remove_Min:
  fixes ids :: "node_id set"
  assumes "finite ids" "ids \<noteq> {}"
  shows "ns_ok \<lparr> ns_min = Min ids, ns_rest = ids - {Min ids} \<rparr>"
    and "ns_to_set \<lparr> ns_min = Min ids, ns_rest = ids - {Min ids} \<rparr> = ids"
  using assms by (auto simp: ns_ok_def ns_to_set_def order.strict_iff_order intro!: Min_in)

lemma ns_from_first_ok [simp]: "ns_ok (ns_from_first i is)"
  by (simp add: ns_from_first_def Let_def remove_Min)

lemma ns_from_first_set [simp]: "ns_to_set (ns_from_first i is) = insert i (set is)"
  by (simp add: ns_from_first_def Let_def remove_Min)

lemma ns_single_ok [simp]: "ns_ok (ns_single i)"
  by (simp add: ns_ok_def ns_single_def)

lemma ns_single_set [simp]: "ns_to_set (ns_single i) = {i}"
  by (simp add: ns_to_set_def ns_single_def)

lemma ns_new_Some: "finite ids \<Longrightarrow> ns_new ids = Some s \<Longrightarrow> ns_ok s \<and> ns_to_set s = ids"
  using remove_Min[of ids] by (auto simp: ns_new_def split: if_splits)

lemma ns_iter_set [simp]: "ns_ok s \<Longrightarrow> set (ns_iter s) = ns_to_set s"
  by (simp add: ns_iter_def ns_ok_def ns_to_set_def)

lemma ns_iter_sorted: "ns_ok s \<Longrightarrow> sorted_wrt (<) (ns_iter s)"
  by (auto simp: ns_iter_def ns_ok_def strict_sorted_list_of_set)

lemma ns_iter_distinct: "ns_ok s \<Longrightarrow> distinct (ns_iter s)"
  by (auto simp: ns_iter_def ns_ok_def)

lemma ns_card: "ns_ok s \<Longrightarrow> card (ns_to_set s) = Suc (card (ns_rest s))"
  unfolding ns_ok_def ns_to_set_def by (metis card_insert_disjoint less_irrefl)

lemma ns_len_card: "ns_ok s \<Longrightarrow> ns_len s = min (card (ns_to_set s)) u64_max"
  by (simp add: ns_card ns_len_def sat_add_def)

lemma ns_len_exact: "ns_ok s \<Longrightarrow> ns_len s < u64_max \<Longrightarrow> ns_len s = card (ns_to_set s)"
  by (simp add: ns_len_card min_def split: if_splits)

lemma ns_iter_length: "ns_ok s \<Longrightarrow> length (ns_iter s) = card (ns_to_set s)"
  by (simp add: ns_card) (simp add: ns_iter_def)

end
