(* ===== verification/Control_State.thy ===== *)
theory Control_State
  imports Placement_Types
begin

text \<open>
  The meta group's replicated control-plane state (\<^verbatim>\<open>ursula-control/src/placement/state.rs\<close>), its
  commands, answers and errors (\<^verbatim>\<open>command.rs\<close>) and the seed rule of Bootstrap (\<^verbatim>\<open>seed.rs\<close>).
  A \<^verbatim>\<open>BTreeMap\<close> is an association list with distinct keys, iterated by \<^const>\<open>btree_iter\<close>.
\<close>

section \<open>State\<close>

record registration =
  rg_since_ms :: u64
  rg_root :: root_slot

record cluster_params =
  cp_group_count :: group_count
  cp_replication_factor :: replication_factor
  cp_meta_voters :: voter_set
  cp_max_concurrent_moves :: move_limit

record move =
  mv_from :: voter_set
  mv_to :: voter_set
  mv_abandoned :: "node_id set"
  mv_since_ms :: u64

datatype target = Stable voter_set | Moving move

datatype group_placement =
    Seeded (gp_since: placement_epoch) (gp_voters: voter_set) (gp_initializer: node_id)
  | Live (gp_since: placement_epoch) (gp_converged_at: membership_log_id) (gp_target: target)

record retirement =
  rt_created_at :: meta_log_id

record cluster =
  cl_params :: cluster_params
  cl_nodes :: "(node_id, node_record) btreemap"
  cl_groups :: "(raft_group_id, group_placement) btreemap"
  cl_retirements :: "(raft_group_id, (node_id, retirement) btreemap) btreemap"

datatype control_plane_state =
    Forming "(node_id, registration) btreemap"
  | FormationCut
  | Bootstrapped cluster

definition default_state :: control_plane_state where
  "default_state = Forming []"

fun state_cluster :: "control_plane_state \<Rightarrow> cluster option" where
  "state_cluster (Bootstrapped c) = Some c"
| "state_cluster (Forming _) = None"
| "state_cluster FormationCut = None"

fun move_role :: "move \<Rightarrow> node_id \<Rightarrow> replica_role option" where
  "move_role mv node =
     (case (ns_contains (mv_from mv) node, ns_contains (mv_to mv) node) of
        (True, True) \<Rightarrow> Some Voter
      | (False, True) \<Rightarrow> Some Incoming
      | (True, False) \<Rightarrow> Some Outgoing
      | (False, False) \<Rightarrow> if node \<in> mv_abandoned mv then Some Abandoned else None)"

fun current_voters :: "group_placement \<Rightarrow> voter_set" where
  "current_voters (Seeded _ voters _) = voters"
| "current_voters (Live _ _ (Stable voters)) = voters"
| "current_voters (Live _ _ (Moving mv)) = mv_from mv"

fun target_voters :: "group_placement \<Rightarrow> voter_set" where
  "target_voters (Seeded _ voters _) = voters"
| "target_voters (Live _ _ (Stable voters)) = voters"
| "target_voters (Live _ _ (Moving mv)) = mv_to mv"

fun placement_moving :: "group_placement \<Rightarrow> move option" where
  "placement_moving (Live _ _ (Moving mv)) = Some mv"
| "placement_moving (Seeded _ _ _) = None"
| "placement_moving (Live _ _ (Stable _)) = None"

fun placement_role :: "group_placement \<Rightarrow> node_id \<Rightarrow> replica_role option" where
  "placement_role (Seeded _ voters _) node = (if ns_contains voters node then Some Voter else None)"
| "placement_role (Live _ _ (Stable voters)) node = (if ns_contains voters node then Some Voter else None)"
| "placement_role (Live _ _ (Moving mv)) node = move_role mv node"

definition cl_node :: "cluster \<Rightarrow> node_id \<Rightarrow> node_record option" where
  "cl_node c node = map_of (cl_nodes c) node"

definition cl_group :: "cluster \<Rightarrow> raft_group_id \<Rightarrow> group_placement option" where
  "cl_group c group' = map_of (cl_groups c) group'"

definition cl_retirement :: "cluster \<Rightarrow> raft_group_id \<Rightarrow> node_id \<Rightarrow> retirement option" where
  "cl_retirement c group' node =
     (case map_of (cl_retirements c) group' of None \<Rightarrow> None | Some records \<Rightarrow> map_of records node)"

definition own_record :: "cluster \<Rightarrow> node_id \<Rightarrow> root_id \<Rightarrow> node_record option" where
  "own_record c node root =
     (case cl_node c node of
        None \<Rightarrow> None
      | Some record' \<Rightarrow> if slot_root (nr_root record') = root then Some record' else None)"

definition cl_role :: "cluster \<Rightarrow> raft_group_id \<Rightarrow> node_id \<Rightarrow> replica_role option" where
  "cl_role c group' node =
     (case cl_group c group' of None \<Rightarrow> None | Some placement \<Rightarrow> placement_role placement node)"

definition has_any_role :: "cluster \<Rightarrow> node_id \<Rightarrow> bool" where
  "has_any_role c node = list_ex (\<lambda>(_, placement). placement_role placement node \<noteq> None) (btree_iter (cl_groups c))"

definition cl_moving :: "cluster \<Rightarrow> u32" where
  "cl_moving c =
     min (length (filter (\<lambda>(_, placement). placement_moving placement \<noteq> None) (btree_iter (cl_groups c)))) u32_max"

definition oldest_move_since_ms :: "cluster \<Rightarrow> u64 option" where
  "oldest_move_since_ms c =
     (case map mv_since_ms (List.map_filter (\<lambda>(_, placement). placement_moving placement) (btree_iter (cl_groups c))) of
        [] \<Rightarrow> None
      | t # ts \<Rightarrow> Some (fold min ts t))"

definition group_ids :: "group_count \<Rightarrow> raft_group_id list" where
  "group_ids n = [0 ..< n]"

section \<open>Commands and answers\<close>

datatype lifecycle_change = Cordon | Uncordon | Decommission

datatype control_command =
    RegisterNode node_id root_id bool u64
  | Bootstrap cluster_params node_set u64
  | RequestMove raft_group_id placement_epoch voter_set u64
  | ReportConverged raft_group_id placement_epoch voter_set membership_log_id u64
  | SetNodeLifecycle node_id lifecycle_change u64
  | SetMoveLimit move_limit
  | ReportTornDown raft_group_id node_id meta_log_id
  | ReleaseRoot node_id root_id
  | ReportRemovalComplete node_id root_id u64

fun command_group :: "control_command \<Rightarrow> raft_group_id option" where
  "command_group (RequestMove g _ _ _) = Some g"
| "command_group (ReportConverged g _ _ _ _) = Some g"
| "command_group (ReportTornDown g _ _) = Some g"
| "command_group _ = None"

datatype history_cause = Genesis | Plan

datatype history_begun =
    Begun_Forming
  | Begun_FormationCut
  | Rebased "(raft_group_id, node_id set) btreemap"

datatype control_applied =
    NodeRegistered registered
  | Bootstrapped_Applied
  | MoveAccepted placement_epoch
  | Converged placement_epoch "node_id set" "node_id set"
  | LifecycleChanged node_lifecycle
  | MoveLimitSet move_limit
  | TornDown_Applied
  | NothingToTearDown
  | RootReleased node_record
  | RemovalCompleted node_record

datatype bootstrap_problem =
    GroupCountAboveMax group_count
  | MetaVoterNotANode node_id
  | ReplicationFactorAboveNodes

datatype control_error =
    NotBootstrapped
  | AlreadyBootstrapped
  | FormationCut_Error
  | InvalidBootstrap bootstrap_problem
  | UnknownGroup raft_group_id
  | UnknownNode node_id
  | NodeRemoved node_id
  | NodeVacant node_id
  | StalePlacement raft_group_id group_placement
  | GroupNotLive raft_group_id
  | NotMoving raft_group_id
  | NoChange raft_group_id
  | ReplicationFactorChange raft_group_id nat nat
  | IneligibleTarget raft_group_id node_id node_lifecycle
  | RetirementPending raft_group_id node_id
  | MoveLimit_Error u32 u32
  | NotTarget raft_group_id voter_set
  | MetaVoter node_id
  | Decommissioning_Error node_id
  | OtherRoot node_id root_slot
  | StaleRoot node_id root_slot
  | NotRemoved node_id node_lifecycle

type_synonym control_response = "control_error + control_applied"

datatype requeue = Retry | ConfirmView_Requeue | Permanent

fun requeue_of :: "control_error \<Rightarrow> requeue" where
  "requeue_of NotBootstrapped = Retry"
| "requeue_of (RetirementPending _ _) = Retry"
| "requeue_of (MoveLimit_Error _ _) = Retry"
| "requeue_of (OtherRoot _ _) = Retry"
| "requeue_of (StalePlacement _ _) = ConfirmView_Requeue"
| "requeue_of (StaleRoot _ _) = ConfirmView_Requeue"
| "requeue_of (UnknownNode _) = ConfirmView_Requeue"
| "requeue_of (GroupNotLive _) = ConfirmView_Requeue"
| "requeue_of (NotMoving _) = ConfirmView_Requeue"
| "requeue_of (IneligibleTarget _ _ _) = ConfirmView_Requeue"
| "requeue_of (NotRemoved _ _) = ConfirmView_Requeue"
| "requeue_of AlreadyBootstrapped = Permanent"
| "requeue_of FormationCut_Error = Permanent"
| "requeue_of (InvalidBootstrap _) = Permanent"
| "requeue_of (UnknownGroup _) = Permanent"
| "requeue_of (NodeRemoved _) = Permanent"
| "requeue_of (NodeVacant _) = Permanent"
| "requeue_of (NoChange _) = Permanent"
| "requeue_of (ReplicationFactorChange _ _ _) = Permanent"
| "requeue_of (NotTarget _ _) = Permanent"
| "requeue_of (MetaVoter _) = Permanent"
| "requeue_of (Decommissioning_Error _) = Permanent"

section \<open>The seed rule\<close>

definition default_meta_voter_count :: usize where
  "default_meta_voter_count = 3"

definition rotation_start :: "raft_group_id \<Rightarrow> node_set \<Rightarrow> usize" where
  "rotation_start group' nodes = (if ns_len nodes = 0 then 0 else group' mod ns_len nodes)"

definition initializer :: "raft_group_id \<Rightarrow> node_set \<Rightarrow> node_id" where
  "initializer group' nodes =
     (let i = rotation_start group' nodes; ordered = ns_iter nodes
      in if i < length ordered then ordered ! i else ns_min nodes)"

text \<open>\<^verbatim>\<open>iter().cycle().skip(start).take(n)\<close> over a list.\<close>

definition cycle_window :: "'a list \<Rightarrow> nat \<Rightarrow> nat \<Rightarrow> 'a list" where
  "cycle_window xs start n = (if xs = [] then [] else map (\<lambda>i. xs ! ((start + i) mod length xs)) [0 ..< n])"

definition seed_voters :: "raft_group_id \<Rightarrow> replication_factor \<Rightarrow> node_set \<Rightarrow> voter_set" where
  "seed_voters group' rf nodes =
     ns_from_first (initializer group' nodes)
       (cycle_window (ns_iter nodes) (rotation_start group' nodes) (min rf (ns_len nodes)))"

definition default_meta_voters :: "node_set \<Rightarrow> voter_set" where
  "default_meta_voters nodes = ns_from_first (ns_min nodes) (take default_meta_voter_count (ns_iter nodes))"

definition effective_replication_factor :: "replication_factor \<Rightarrow> node_set \<Rightarrow> replication_factor" where
  "effective_replication_factor configured nodes =
     (let n = min (ns_len nodes) 255 in if n \<noteq> 0 \<and> n < configured then n else configured)"

end
