(* ===== verification/Control_Apply.thy ===== *)
theory Control_Apply
  imports Control_State
begin

text \<open>
  The dispatcher of the control plane (\<^verbatim>\<open>ursula-control/src/placement/apply.rs\<close>): every command is
  planned against the unchanged state, and only an accepted plan is committed.  The rules of
  \<^verbatim>\<open>rules.rs\<close> are all enforced, as they are outside the tests of the source.
\<close>

section \<open>Changes\<close>

datatype forming_change =
    FormingNothing control_applied
  | FormingRegister node_id root_id u64
  | FormingSlot node_id registration control_applied
  | FormingBootstrap cluster_params node_set u64

datatype change =
    Change_Nothing control_applied
  | Change_Register node_id root_id u64
  | Change_Rebind node_id node_record
  | Change_Release node_id node_record
  | Change_Vacate node_id node_record
  | Change_Move raft_group_id membership_log_id move
  | Change_Converge raft_group_id membership_log_id voter_set "node_id set" u64
  | Change_Lifecycle node_id node_record
  | Change_MoveLimit move_limit
  | Change_TornDown raft_group_id node_id

section \<open>Slots and shared checks\<close>

definition register_slot :: "node_id \<Rightarrow> root_slot option \<Rightarrow> root_id \<Rightarrow> bool \<Rightarrow> control_error + root_slot" where
  "register_slot node slot root empty' =
     (case slot of
        None \<Rightarrow> Inr (Bound root)
      | Some (Bound bound) \<Rightarrow> if bound = root then Inr (Bound root) else Inl (OtherRoot node (Bound bound))
      | Some (Released released) \<Rightarrow>
          if released \<noteq> root \<and> empty' then Inr (Bound root) else Inl (OtherRoot node (Released released)))"

definition release_slot :: "node_id \<Rightarrow> root_slot \<Rightarrow> root_id \<Rightarrow> control_error + root_slot" where
  "release_slot node slot root =
     (if slot_root slot = root then Inr (Released root) else Inl (StaleRoot node slot))"

definition check_life :: "node_id \<Rightarrow> node_record \<Rightarrow> control_error option" where
  "check_life node record' =
     (case nr_lifecycle record' of
        Removed \<Rightarrow> Some (NodeRemoved node)
      | Vacant \<Rightarrow> Some (NodeVacant node)
      | _ \<Rightarrow> None)"

definition stale :: "raft_group_id \<Rightarrow> group_placement \<Rightarrow> control_error" where
  "stale g placement = StalePlacement g placement"

definition voter_count :: "voter_set \<Rightarrow> nat" where
  "voter_count voters = min (ns_len voters) 255"

text \<open>A loop that returns the first error of a check.\<close>

fun first_error :: "('a \<Rightarrow> 'e option) \<Rightarrow> 'a list \<Rightarrow> 'e option" where
  "first_error f [] = None"
| "first_error f (x # xs) = (case f x of Some e \<Rightarrow> Some e | None \<Rightarrow> first_error f xs)"

section \<open>Before Bootstrap\<close>

definition check_bootstrap ::
  "(node_id, registration) btreemap \<Rightarrow> cluster_params \<Rightarrow> node_set \<Rightarrow> control_error option" where
  "check_bootstrap registered' params nodes =
     (case find (\<lambda>node. map_of registered' node = None) (ns_iter nodes) of
        Some node \<Rightarrow> Some (UnknownNode node)
      | None \<Rightarrow>
          if \<not> group_count_within_bound (cp_group_count params)
          then Some (InvalidBootstrap (GroupCountAboveMax (cp_group_count params)))
          else case find (\<lambda>node. \<not> ns_contains nodes node) (ns_iter (cp_meta_voters params)) of
            Some node \<Rightarrow> Some (InvalidBootstrap (MetaVoterNotANode node))
          | None \<Rightarrow>
              if cp_replication_factor params > ns_len nodes
              then Some (InvalidBootstrap ReplicationFactorAboveNodes)
              else None)"

definition plan_forming ::
  "(node_id, registration) btreemap \<Rightarrow> control_command \<Rightarrow> control_error + forming_change" where
  "plan_forming registered' command =
     (case command of
        RegisterNode node root empty' now_ms \<Rightarrow>
          (case map_of registered' node of
             None \<Rightarrow> Inr (FormingRegister node root now_ms)
           | Some registration \<Rightarrow>
               (case register_slot node (Some (rg_root registration)) root empty' of
                  Inl e \<Rightarrow> Inl e
                | Inr slot \<Rightarrow>
                    Inr (if slot = rg_root registration then FormingNothing (NodeRegistered Forming_Node)
                         else FormingSlot node (registration\<lparr> rg_root := slot \<rparr>) (NodeRegistered Forming_Node))))
      | ReleaseRoot node root \<Rightarrow>
          (case map_of registered' node of
             None \<Rightarrow> Inl (UnknownNode node)
           | Some registration \<Rightarrow>
               (case release_slot node (rg_root registration) root of
                  Inl e \<Rightarrow> Inl e
                | Inr slot \<Rightarrow>
                    let applied = RootReleased \<lparr> nr_lifecycle = Active, nr_since_ms = rg_since_ms registration, nr_root = slot \<rparr>
                    in Inr (if slot = rg_root registration then FormingNothing applied
                            else FormingSlot node (registration\<lparr> rg_root := slot \<rparr>) applied)))
      | Bootstrap params nodes now_ms \<Rightarrow>
          (case check_bootstrap registered' params nodes of
             Some e \<Rightarrow> Inl e
           | None \<Rightarrow> Inr (FormingBootstrap params nodes now_ms))
      | _ \<Rightarrow> Inl NotBootstrapped)"

definition bootstrap_cluster ::
  "meta_log_id \<Rightarrow> (node_id, registration) btreemap \<Rightarrow> cluster_params \<Rightarrow> node_set \<Rightarrow> u64 \<Rightarrow> cluster" where
  "bootstrap_cluster at registered' params nodes now_ms =
     (let since = PlacementEpoch at in
      \<lparr> cl_params = params,
        cl_nodes = map (\<lambda>(node, registration).
          (node, \<lparr> nr_lifecycle = Active, nr_since_ms = now_ms, nr_root = rg_root registration \<rparr>)) registered',
        cl_groups = map (\<lambda>g. (g, Seeded since (seed_voters g (cp_replication_factor params) nodes) (initializer g nodes)))
          (group_ids (cp_group_count params)),
        cl_retirements = [] \<rparr>)"

section \<open>Planning against a cluster\<close>

definition registered_of :: "cluster \<Rightarrow> node_id \<Rightarrow> node_record \<Rightarrow> registered" where
  "registered_of c node record' = (if has_any_role c node then Referenced record' else Unreferenced record')"

definition plan_register :: "cluster \<Rightarrow> node_id \<Rightarrow> root_id \<Rightarrow> bool \<Rightarrow> u64 \<Rightarrow> control_error + change" where
  "plan_register c node root empty' now_ms =
     (case cl_node c node of
        None \<Rightarrow> Inr (Change_Register node root now_ms)
      | Some record' \<Rightarrow>
          (if nr_lifecycle record' = Removed then Inl (NodeRemoved node)
           else case register_slot node (Some (nr_root record')) root empty' of
             Inl e \<Rightarrow> Inl e
           | Inr slot \<Rightarrow>
               if nr_lifecycle record' = Vacant then Inr (Change_Register node root now_ms)
               else if slot = nr_root record'
               then Inr (Change_Nothing (NodeRegistered (registered_of c node record')))
               else Inr (Change_Rebind node (record'\<lparr> nr_root := slot \<rparr>))))"

definition plan_release :: "cluster \<Rightarrow> node_id \<Rightarrow> root_id \<Rightarrow> control_error + change" where
  "plan_release c node root =
     (case cl_node c node of
        None \<Rightarrow> Inl (UnknownNode node)
      | Some record' \<Rightarrow>
          (case check_life node record' of
             Some e \<Rightarrow> Inl e
           | None \<Rightarrow>
               (case release_slot node (nr_root record') root of
                  Inl e \<Rightarrow> Inl e
                | Inr slot \<Rightarrow>
                    let released = record'\<lparr> nr_root := slot \<rparr> in
                    if slot = nr_root record' then Inr (Change_Nothing (RootReleased released))
                    else Inr (Change_Release node released))))"

definition check_target :: "cluster \<Rightarrow> raft_group_id \<Rightarrow> node_id \<Rightarrow> voter_set \<Rightarrow> control_error option" where
  "check_target c g node placed_now =
     (case cl_node c node of
        None \<Rightarrow> Some (UnknownNode node)
      | Some record' \<Rightarrow>
          (case check_life node record' of
             Some e \<Rightarrow> Some e
           | None \<Rightarrow>
               if nr_lifecycle record' \<in> {Cordoned, Decommissioning} \<and> \<not> ns_contains placed_now node
               then Some (IneligibleTarget g node (nr_lifecycle record'))
               else if cl_retirement c g node \<noteq> None then Some (RetirementPending g node)
               else None))"

definition plan_move ::
  "cluster \<Rightarrow> raft_group_id \<Rightarrow> placement_epoch \<Rightarrow> voter_set \<Rightarrow> u64 \<Rightarrow> control_error + change" where
  "plan_move c g expected to' now_ms =
     (case cl_group c g of
        None \<Rightarrow> Inl (UnknownGroup g)
      | Some (Seeded _ _ _) \<Rightarrow> Inl (GroupNotLive g)
      | Some (Live since converged_at target') \<Rightarrow>
          let placement = Live since converged_at target'; current = target_voters placement in
          if since \<noteq> expected then Inl (stale g placement)
          else if ns_len to' \<noteq> ns_len current
          then Inl (ReplicationFactorChange g (voter_count current) (voter_count to'))
          else case first_error (\<lambda>node. check_target c g node (current_voters placement)) (ns_iter to') of
            Some e \<Rightarrow> Inl e
          | None \<Rightarrow>
              (case target' of
                 Stable voters \<Rightarrow>
                   if to' = voters then Inl (NoChange g)
                   else if cl_moving c \<ge> cp_max_concurrent_moves (cl_params c)
                   then Inl (MoveLimit_Error (cp_max_concurrent_moves (cl_params c)) (cl_moving c))
                   else Inr (Change_Move g converged_at
                     \<lparr> mv_from = voters, mv_to = to', mv_abandoned = {}, mv_since_ms = now_ms \<rparr>)
               | Moving mv \<Rightarrow>
                   if to' = mv_to mv then Inl (NoChange g)
                   else Inr (Change_Move g converged_at
                     \<lparr> mv_from = mv_from mv, mv_to = to',
                       mv_abandoned = Set.filter (\<lambda>node. \<not> ns_contains (mv_from mv) node \<and> \<not> ns_contains to' node)
                         (mv_abandoned mv \<union> ns_to_set (mv_to mv)),
                       mv_since_ms = mv_since_ms mv \<rparr>)))"

text \<open>The life check of \<^verbatim>\<open>plan_converge\<close> for one reported voter of a seeded group.\<close>

definition check_reported :: "cluster \<Rightarrow> node_id \<Rightarrow> control_error option" where
  "check_reported c node =
     (case cl_node c node of None \<Rightarrow> Some (UnknownNode node) | Some record' \<Rightarrow> check_life node record')"

definition plan_converge ::
  "cluster \<Rightarrow> raft_group_id \<Rightarrow> placement_epoch \<Rightarrow> voter_set \<Rightarrow> membership_log_id \<Rightarrow> u64 \<Rightarrow> control_error + change" where
  "plan_converge c g since voters membership now_ms =
     (case cl_group c g of
        None \<Rightarrow> Inl (UnknownGroup g)
      | Some placement \<Rightarrow>
          if gp_since placement \<noteq> since then Inl (stale g placement)
          else case placement of
            Seeded _ _ _ \<Rightarrow>
              (case first_error (check_reported c) (ns_iter voters) of
                 Some e \<Rightarrow> Inl e
               | None \<Rightarrow>
                   if ns_len voters \<noteq> cp_replication_factor (cl_params c) then Inl (NotTarget g voters)
                   else Inr (Change_Converge g membership voters {} now_ms))
          | Live _ _ (Stable _) \<Rightarrow> Inl (NotMoving g)
          | Live _ _ (Moving mv) \<Rightarrow>
              if voters \<noteq> mv_to mv then Inl (NotTarget g voters)
              else Inr (Change_Converge g membership voters
                (Set.filter (\<lambda>node. \<not> ns_contains (mv_to mv) node) (ns_to_set (mv_from mv) \<union> mv_abandoned mv)) now_ms))"

definition plan_lifecycle ::
  "cluster \<Rightarrow> node_id \<Rightarrow> lifecycle_change \<Rightarrow> u64 \<Rightarrow> control_error + change" where
  "plan_lifecycle c node change' now_ms =
     (case cl_node c node of
        None \<Rightarrow> Inl (UnknownNode node)
      | Some record' \<Rightarrow>
          (case check_life node record' of
             Some e \<Rightarrow> Inl e
           | None \<Rightarrow>
               if change' = Decommission \<and> ns_contains (cp_meta_voters (cl_params c)) node
               then Inl (MetaVoter node)
               else if nr_lifecycle record' = Decommissioning \<and> change' = Cordon
               then Inl (Decommissioning_Error node)
               else
                 let lifecycle = (case change' of
                   Cordon \<Rightarrow> Cordoned | Uncordon \<Rightarrow> Active | Decommission \<Rightarrow> Decommissioning) in
                 if lifecycle = nr_lifecycle record' then Inr (Change_Nothing (LifecycleChanged lifecycle))
                 else Inr (Change_Lifecycle node
                   \<lparr> nr_lifecycle = lifecycle, nr_since_ms = now_ms, nr_root = nr_root record' \<rparr>)))"

definition plan_torn_down :: "cluster \<Rightarrow> raft_group_id \<Rightarrow> node_id \<Rightarrow> meta_log_id \<Rightarrow> control_error + change" where
  "plan_torn_down c g node created_at =
     (case cl_node c node of
        None \<Rightarrow> Inl (UnknownNode node)
      | Some record' \<Rightarrow>
          (case check_life node record' of
             Some e \<Rightarrow> Inl e
           | None \<Rightarrow>
               (case cl_retirement c g node of
                  Some retirement \<Rightarrow>
                    if rt_created_at retirement = created_at then Inr (Change_TornDown g node)
                    else Inr (Change_Nothing NothingToTearDown)
                | None \<Rightarrow> Inr (Change_Nothing NothingToTearDown))))"

definition plan_removal_complete :: "cluster \<Rightarrow> node_id \<Rightarrow> root_id \<Rightarrow> u64 \<Rightarrow> control_error + change" where
  "plan_removal_complete c node root now_ms =
     (case cl_node c node of
        None \<Rightarrow> Inl (UnknownNode node)
      | Some record' \<Rightarrow>
          if slot_root (nr_root record') \<noteq> root then Inl (StaleRoot node (nr_root record'))
          else case nr_lifecycle record' of
            Removed \<Rightarrow> Inr (Change_Vacate node
              \<lparr> nr_lifecycle = Vacant, nr_since_ms = now_ms, nr_root = Released root \<rparr>)
          | Vacant \<Rightarrow> Inr (Change_Nothing (RemovalCompleted record'))
          | lifecycle \<Rightarrow> Inl (NotRemoved node lifecycle))"

definition plan_cluster :: "cluster \<Rightarrow> control_command \<Rightarrow> control_error + change" where
  "plan_cluster c command =
     (case (case command_group command of Some g \<Rightarrow> if cl_group c g = None then Some g else None | None \<Rightarrow> None) of
        Some g \<Rightarrow> Inl (UnknownGroup g)
      | None \<Rightarrow>
          (case command of
             RegisterNode node root empty' now_ms \<Rightarrow> plan_register c node root empty' now_ms
           | ReleaseRoot node root \<Rightarrow> plan_release c node root
           | Bootstrap _ _ _ \<Rightarrow> Inl AlreadyBootstrapped
           | RequestMove g expected to' now_ms \<Rightarrow> plan_move c g expected to' now_ms
           | ReportConverged g since voters membership now_ms \<Rightarrow> plan_converge c g since voters membership now_ms
           | SetNodeLifecycle node change' now_ms \<Rightarrow> plan_lifecycle c node change' now_ms
           | SetMoveLimit limit \<Rightarrow> Inr (Change_MoveLimit limit)
           | ReportTornDown g node created_at \<Rightarrow> plan_torn_down c g node created_at
           | ReportRemovalComplete node root now_ms \<Rightarrow> plan_removal_complete c node root now_ms))"

section \<open>Committing a plan\<close>

definition remove_roleless_decommissioning :: "u64 \<Rightarrow> cluster \<Rightarrow> cluster \<times> node_id set" where
  "remove_roleless_decommissioning now_ms c =
     (let removed = set (map fst (filter
            (\<lambda>(node, record'). nr_lifecycle record' = Decommissioning \<and> \<not> has_any_role c node)
            (btree_iter (cl_nodes c))));
          nodes = map (\<lambda>(node, record').
            (node, if node \<in> removed
                   then \<lparr> nr_lifecycle = Removed, nr_since_ms = now_ms, nr_root = nr_root record' \<rparr>
                   else record')) (cl_nodes c);
          retirements = (if removed = {} then cl_retirements c
            else filter (\<lambda>(_, records). records \<noteq> [])
              (map (\<lambda>(g, records). (g, filter (\<lambda>(node, _). node \<notin> removed) records)) (cl_retirements c)))
      in (c\<lparr> cl_nodes := nodes, cl_retirements := retirements \<rparr>, removed))"

definition insert_retirements ::
  "meta_log_id \<Rightarrow> raft_group_id \<Rightarrow> node_id set \<Rightarrow>
   (raft_group_id, (node_id, retirement) btreemap) btreemap \<Rightarrow> (raft_group_id, (node_id, retirement) btreemap) btreemap" where
  "insert_retirements at g retired retirements =
     (if retired = {} then retirements
      else entry_modify [] g
        (fold (\<lambda>node records. AList.update node \<lparr> rt_created_at = at \<rparr> records) (sorted_list_of_set retired)) retirements)"

definition delete_retirement ::
  "raft_group_id \<Rightarrow> node_id \<Rightarrow>
   (raft_group_id, (node_id, retirement) btreemap) btreemap \<Rightarrow> (raft_group_id, (node_id, retirement) btreemap) btreemap" where
  "delete_retirement g node retirements =
     (case map_of retirements g of
        None \<Rightarrow> retirements
      | Some records \<Rightarrow>
          let records' = AList.delete node records in
          if records' = [] then AList.delete g retirements else AList.update g records' retirements)"

definition insert_node :: "node_id \<Rightarrow> node_record \<Rightarrow> cluster \<Rightarrow> cluster" where
  "insert_node node record' c = c\<lparr> cl_nodes := AList.update node record' (cl_nodes c) \<rparr>"

definition insert_group :: "raft_group_id \<Rightarrow> group_placement \<Rightarrow> cluster \<Rightarrow> cluster" where
  "insert_group g placement c = c\<lparr> cl_groups := AList.update g placement (cl_groups c) \<rparr>"

fun commit :: "meta_log_id \<Rightarrow> change \<Rightarrow> cluster \<Rightarrow> cluster \<times> control_applied" where
  "commit at (Change_Nothing applied) c = (c, applied)"
| "commit at (Change_Register node root now_ms) c =
     (let record' = \<lparr> nr_lifecycle = Active, nr_since_ms = now_ms, nr_root = Bound root \<rparr>
      in (insert_node node record' c, NodeRegistered (Unreferenced record')))"
| "commit at (Change_Rebind node record') c =
     (let c' = insert_node node record' c in (c', NodeRegistered (registered_of c' node record')))"
| "commit at (Change_Release node record') c = (insert_node node record' c, RootReleased record')"
| "commit at (Change_Vacate node record') c = (insert_node node record' c, RemovalCompleted record')"
| "commit at (Change_Move g converged_at mv) c =
     (let since = PlacementEpoch at
      in (insert_group g (Live since converged_at (Moving mv)) c, MoveAccepted since))"
| "commit at (Change_Converge g converged_at voters retired now_ms) c =
     (let since = PlacementEpoch at;
          c1 = insert_group g (Live since converged_at (Stable voters)) c;
          c2 = c1\<lparr> cl_retirements := insert_retirements at g retired (cl_retirements c1) \<rparr>;
          (c3, removed) = remove_roleless_decommissioning now_ms c2
      in (c3, Converged since (retired - removed) removed))"
| "commit at (Change_Lifecycle node record') c =
     (let (c', removed) = remove_roleless_decommissioning (nr_since_ms record') (insert_node node record' c)
      in (c', LifecycleChanged (if node \<in> removed then Removed else nr_lifecycle record')))"
| "commit at (Change_MoveLimit limit) c =
     (c\<lparr> cl_params := (cl_params c)\<lparr> cp_max_concurrent_moves := limit \<rparr> \<rparr>, MoveLimitSet limit)"
| "commit at (Change_TornDown g node) c =
     (c\<lparr> cl_retirements := delete_retirement g node (cl_retirements c) \<rparr>, TornDown_Applied)"

section \<open>The dispatcher\<close>

definition apply_control ::
  "meta_log_id \<Rightarrow> control_command \<Rightarrow> control_plane_state \<Rightarrow> control_plane_state \<times> control_response" where
  "apply_control at command state =
     (case state of
        FormationCut \<Rightarrow> (state, Inl FormationCut_Error)
      | Forming registered' \<Rightarrow>
          (case plan_forming registered' command of
             Inl e \<Rightarrow> (state, Inl e)
           | Inr (FormingNothing applied) \<Rightarrow> (state, Inr applied)
           | Inr (FormingRegister node root now_ms) \<Rightarrow>
               (Forming (AList.update node \<lparr> rg_since_ms = now_ms, rg_root = Bound root \<rparr> registered'),
                Inr (NodeRegistered Forming_Node))
           | Inr (FormingSlot node registration applied) \<Rightarrow>
               (Forming (AList.update node registration registered'), Inr applied)
           | Inr (FormingBootstrap params nodes now_ms) \<Rightarrow>
               (Bootstrapped (bootstrap_cluster at registered' params nodes now_ms), Inr Bootstrapped_Applied))
      | Bootstrapped c \<Rightarrow>
          (case plan_cluster c command of
             Inl e \<Rightarrow> (state, Inl e)
           | Inr change' \<Rightarrow> let (c', applied) = commit at change' c in (Bootstrapped c', Inr applied)))"

definition check_control :: "control_plane_state \<Rightarrow> control_command \<Rightarrow> control_error option" where
  "check_control state command =
     (case state of
        FormationCut \<Rightarrow> Some FormationCut_Error
      | Forming registered' \<Rightarrow> (case plan_forming registered' command of Inl e \<Rightarrow> Some e | Inr _ \<Rightarrow> None)
      | Bootstrapped c \<Rightarrow> (case plan_cluster c command of Inl e \<Rightarrow> Some e | Inr _ \<Rightarrow> None))"

fun rekey :: "placement_epoch \<Rightarrow> group_placement \<Rightarrow> group_placement" where
  "rekey since (Seeded _ voters first) = Seeded since voters first"
| "rekey since (Live _ converged_at target') = Live since converged_at target'"

definition begin_history ::
  "meta_log_id \<Rightarrow> history_cause \<Rightarrow> control_plane_state \<Rightarrow> control_plane_state \<times> history_begun" where
  "begin_history at cause state =
     (case state of
        Forming _ \<Rightarrow>
          (case cause of
             Genesis \<Rightarrow> (state, Begun_Forming)
           | Plan \<Rightarrow> (FormationCut, Begun_FormationCut))
      | FormationCut \<Rightarrow> (state, Begun_FormationCut)
      | Bootstrapped c \<Rightarrow>
          (Bootstrapped (c\<lparr> cl_groups := map (\<lambda>(g, placement). (g, rekey (PlacementEpoch at) placement)) (cl_groups c),
                            cl_retirements := [] \<rparr>),
           Rebased (map (\<lambda>(g, records). (g, keys_of records)) (cl_retirements c))))"

end
