(* ===== verification/Control_Seed.thy ===== *)
theory Control_Seed
  imports Control_State
begin

text \<open>
  The seed rule of Bootstrap: each group's voters are a window of consecutive nodes, and over all
  groups the windows and the initializers spread evenly over the nodes.
\<close>

section \<open>Windows of a cycle\<close>

lemma mod_shift_inj: "inj_on (\<lambda>i. (s + i) mod N) {..<N}" for s N :: nat
proof (rule inj_onI)
  fix i k assume "i \<in> {..<N}" "k \<in> {..<N}" "(s + i) mod N = (s + k) mod N"
  then have "\<exists>q1 q2. i + N * q1 = k + N * q2" by (simp add: nat_mod_eq_iff)
  then have "i mod N = k mod N" by (simp only: nat_mod_eq_iff)
  then show "i = k" using \<open>i \<in> _\<close> \<open>k \<in> _\<close> by simp
qed

lemma set_cycle_window: "xs \<noteq> [] \<Longrightarrow> set (cycle_window xs s n) = (\<lambda>i. xs ! ((s + i) mod length xs)) ` {..<n}"
  by (auto simp: cycle_window_def)

lemma cycle_window_subset: "set (cycle_window xs s n) \<subseteq> set xs"
  by (cases "xs = []") (auto simp: cycle_window_def)

lemma card_cycle_window:
  assumes "distinct xs" "n \<le> length xs"
  shows "card (set (cycle_window xs s n)) = n"
proof (cases "xs = []")
  case False
  have "inj_on (\<lambda>i. xs ! ((s + i) mod length xs)) {..<n}"
  proof (rule inj_onI)
    fix i k assume ik: "i \<in> {..<n}" "k \<in> {..<n}" "xs ! ((s + i) mod length xs) = xs ! ((s + k) mod length xs)"
    then have "(s + i) mod length xs = (s + k) mod length xs"
      using False assms(1) by (simp add: nth_eq_iff_index_eq)
    then show "i = k" using mod_shift_inj[of s "length xs"] ik assms(2) by (auto simp: inj_on_def)
  qed
  then show ?thesis by (simp add: set_cycle_window[OF False] card_image)
qed (use assms in \<open>simp add: cycle_window_def\<close>)

lemma window_member:
  assumes "distinct xs" "j < length xs" "n \<le> length xs" "s < length xs"
  shows "xs ! j \<in> set (cycle_window xs s n) \<longleftrightarrow> (j + length xs - s) mod length xs < n"
proof -
  have ne: "xs \<noteq> []" using assms(2) by auto
  let ?N = "length xs"
  have "xs ! j \<in> set (cycle_window xs s n) \<longleftrightarrow> (\<exists>i<n. (s + i) mod ?N = j)"
    using assms ne by (auto simp: set_cycle_window nth_eq_iff_index_eq)
  also have "\<dots> \<longleftrightarrow> (j + ?N - s) mod ?N < n"
  proof
    assume "\<exists>i<n. (s + i) mod ?N = j"
    then obtain i where i: "i < n" "(s + i) mod ?N = j" by blast
    have "(j + ?N - s) mod ?N = i"
    proof (cases "s + i < ?N")
      case True
      then have "j + ?N - s = i + ?N" using i by auto
      then show ?thesis using i(1) assms(3) by simp
    next
      case False
      then have "s + i - ?N = j" using i assms(3,4) by (simp add: le_mod_geq)
      then show ?thesis using False i(1) assms(3,4) by simp
    qed
    with i show "(j + ?N - s) mod ?N < n" by simp
  next
    assume *: "(j + ?N - s) mod ?N < n"
    have "(s + (j + ?N - s) mod ?N) mod ?N = j"
      using assms(2,4) by (simp add: mod_add_right_eq)
    with * show "\<exists>i<n. (s + i) mod ?N = j" by blast
  qed
  finally show ?thesis .
qed

section \<open>Counting a periodic property\<close>

lemma card_periodic_blocks:
  fixes N :: nat
  assumes "\<And>g. P (g + N) = P g"
  shows "card {g. g < q * N + r \<and> P g} = q * card {g. g < N \<and> P g} + card {g. g < r \<and> P g}"
proof (induction q)
  case (Suc q)
  have "{g. g < Suc q * N + r \<and> P g} = {g. g < N \<and> P g} \<union> (\<lambda>g. g + N) ` {g. g < q * N + r \<and> P g}"
  proof (intro equalityI subsetI)
    fix g assume "g \<in> {g. g < Suc q * N + r \<and> P g}"
    then show "g \<in> {g. g < N \<and> P g} \<union> (\<lambda>g. g + N) ` {g. g < q * N + r \<and> P g}"
      using assms[of "g - N"] by (cases "g < N") (auto intro!: image_eqI[of _ _ "g - N"])
  qed (auto simp: assms)
  moreover have "card ({g. g < N \<and> P g} \<union> (\<lambda>g. g + N) ` {g. g < q * N + r \<and> P g}) =
      card {g. g < N \<and> P g} + card ((\<lambda>g. g + N) ` {g. g < q * N + r \<and> P g})"
    by (rule card_Un_disjoint) auto
  moreover have "card ((\<lambda>g. g + N) ` {g. g < q * N + r \<and> P g}) = card {g. g < q * N + r \<and> P g}"
    by (rule card_image) simp
  ultimately show ?case using Suc by simp
qed simp

lemma card_periodic_bounds:
  fixes N :: nat
  assumes per: "\<And>g. P (g + N) = P g" and N: "0 < N" and k: "card {g. g < N \<and> P g} = k"
  shows "k * (G div N) \<le> card {g. g < G \<and> P g}" "card {g. g < G \<and> P g} \<le> k * div_ceil G N"
proof -
  have G: "G div N * N + G mod N = G" by simp
  have split: "card {g. g < G \<and> P g} = (G div N) * k + card {g. g < G mod N \<and> P g}"
    using card_periodic_blocks[of P N "G div N" "G mod N", OF per] by (simp add: k)
  then show "k * (G div N) \<le> card {g. g < G \<and> P g}" by (simp add: mult.commute)
  have "card {g. g < G mod N \<and> P g} \<le> k"
    unfolding k[symmetric] using mod_less_divisor[OF N, of G] by (intro card_mono) auto
  moreover have "{g. g < G mod N \<and> P g} = {}" if "G mod N = 0" using that by simp
  ultimately show "card {g. g < G \<and> P g} \<le> k * div_ceil G N"
    by (auto simp: split div_ceil_def algebra_simps)
qed

section \<open>Seeded groups\<close>

lemma rotation_start_less: "ns_ok nodes \<Longrightarrow> rotation_start g nodes < length (ns_iter nodes)"
  using ns_card[of nodes] by (auto simp: rotation_start_def ns_iter_length ns_len_card u64_max_def
    intro: less_le_trans[OF mod_less_divisor])

lemma initializer_nth: "ns_ok nodes \<Longrightarrow> initializer g nodes = ns_iter nodes ! rotation_start g nodes"
  using rotation_start_less[of nodes g] by (simp add: initializer_def Let_def)

lemma seed_voters_set:
  assumes "ns_ok nodes" "0 < rf"
  shows "ns_to_set (seed_voters g rf nodes) =
    set (cycle_window (ns_iter nodes) (rotation_start g nodes) (min rf (ns_len nodes)))"
proof -
  have "xs ! s \<in> set (cycle_window xs s k)" if "s < length xs" "0 < k" for xs :: "node_id list" and s k
    using that by (subst set_cycle_window) (auto intro!: image_eqI[of _ _ 0])
  moreover have "0 < min rf (ns_len nodes)" using assms by (simp add: ns_len_def sat_add_def u64_max_def)
  ultimately show ?thesis
    using rotation_start_less[OF assms(1), of g] by (simp add: seed_voters_def initializer_nth[OF assms(1)] insert_absorb)
qed

lemma initializer_in_seed: "initializer g nodes \<in> ns_to_set (seed_voters g rf nodes)"
  by (simp add: seed_voters_def)

lemma seed_voters_subset: "ns_ok nodes \<Longrightarrow> 0 < rf \<Longrightarrow> ns_to_set (seed_voters g rf nodes) \<subseteq> ns_to_set nodes"
  using cycle_window_subset[of "ns_iter nodes"] by (simp add: seed_voters_set)

lemma seed_voters_card:
  assumes "ns_ok nodes" "0 < rf"
  shows "card (ns_to_set (seed_voters g rf nodes)) = min rf (ns_len nodes)"
  unfolding seed_voters_set[OF assms]
  by (rule card_cycle_window) (use assms in \<open>simp_all add: ns_iter_distinct ns_iter_length ns_len_card\<close>)

lemma seed_voters_ok [simp]: "ns_ok (seed_voters g rf nodes)"
  by (simp add: seed_voters_def)

lemma seed_voters_len:
  assumes "ns_ok nodes" "0 < rf" "rf \<le> ns_len nodes" "rf \<le> 255"
  shows "ns_len (seed_voters g rf nodes) = rf"
  using assms by (simp add: ns_len_card seed_voters_card u64_max_def)

section \<open>The spread over a cluster\<close>

lemma seed_hold_block:
  fixes j N k :: nat
  assumes "j < N" "k \<le> N"
  shows "card {g. g < N \<and> (j + N - g mod N) mod N < k} = k"
proof -
  have "bij_betw (\<lambda>g. (j + N - g) mod N) {g. g < N \<and> (j + N - g) mod N < k} {..<k}"
  proof (rule bij_betw_byWitness[where f' = "\<lambda>i. (j + N - i) mod N"])
    have inv: "(j + N - (j + N - g) mod N) mod N = g" if "g < N" for g
    proof (cases "g \<le> j")
      case True
      then have "j + N - g = (j - g) + N" "j + N - (j - g) = g + N" by simp_all
      moreover have "(j - g) mod N = j - g" using assms(1) by simp
      ultimately show ?thesis using that by (simp only: mod_add_self2) simp
    next
      case False
      then have "(j + N - g) mod N = j + N - g" "j + N - (j + N - g) = g" using that by simp_all
      then show ?thesis using that by simp
    qed
    show "\<forall>g \<in> {g. g < N \<and> (j + N - g) mod N < k}. (j + N - (j + N - g) mod N) mod N = g" using inv by blast
    show "\<forall>i \<in> {..<k}. (j + N - (j + N - i) mod N) mod N = i" using inv assms(2) by auto
    show "(\<lambda>i. (j + N - i) mod N) ` {..<k} \<subseteq> {g. g < N \<and> (j + N - g) mod N < k}"
      using inv assms by (auto simp: mod_less_divisor)
  qed auto
  then have "card {g. g < N \<and> (j + N - g) mod N < k} = k" using bij_betw_same_card by fastforce
  moreover have "{g. g < N \<and> (j + N - g mod N) mod N < k} = {g. g < N \<and> (j + N - g) mod N < k}" by auto
  ultimately show ?thesis by simp
qed

lemma seed_hold_bounds:
  assumes ok: "ns_ok nodes" and size: "card (ns_to_set nodes) \<le> u64_max" and rf: "0 < rf"
    and n: "n \<in> ns_to_set nodes" and k: "k = min rf (ns_len nodes)"
  shows "k * (G div ns_len nodes) \<le> card {g. g < G \<and> n \<in> ns_to_set (seed_voters g rf nodes)}"
    "card {g. g < G \<and> n \<in> ns_to_set (seed_voters g rf nodes)} \<le> k * div_ceil G (ns_len nodes)"
proof -
  let ?xs = "ns_iter nodes" and ?N = "ns_len nodes"
  have N: "?N = length ?xs" "0 < ?N" "k \<le> ?N"
    using ok size k ns_card[OF ok] by (simp_all add: ns_iter_length ns_len_card u64_max_def)
  obtain j where j: "j < length ?xs" "n = ?xs ! j" using n ok by (metis in_set_conv_nth ns_iter_set)
  let ?P = "\<lambda>g. (j + ?N - g mod ?N) mod ?N < k"
  have "n \<in> ns_to_set (seed_voters g rf nodes) \<longleftrightarrow> ?P g" for g
    using window_member[of ?xs j k "g mod ?N"] N j ok rf
    by (simp add: seed_voters_set ns_iter_distinct rotation_start_def k)
  moreover have "card {g. g < ?N \<and> ?P g} = k" using seed_hold_block[of j ?N k] N j by simp
  ultimately show "k * (G div ?N) \<le> card {g. g < G \<and> n \<in> ns_to_set (seed_voters g rf nodes)}"
    "card {g. g < G \<and> n \<in> ns_to_set (seed_voters g rf nodes)} \<le> k * div_ceil G ?N"
    using card_periodic_bounds[of ?P ?N k G] N(2) by simp_all
qed

lemma initializer_seed: "ns_ok nodes \<Longrightarrow> initializer g nodes = n \<longleftrightarrow> n \<in> ns_to_set (seed_voters g 1 nodes)"
  using seed_voters_card[of nodes 1 g] initializer_in_seed[of g nodes 1]
  by (auto simp: ns_len_def sat_add_def u64_max_def card_Suc_eq)

text \<open>C39.  Bootstrap seeds every group on exactly \<^verbatim>\<open>min(rf, N)\<close> of the nodes, its initializer among
  them.  Over \<^verbatim>\<open>G\<close> groups each node holds between \<^verbatim>\<open>k * floor(G / N)\<close> and \<^verbatim>\<open>k * ceil(G / N)\<close>
  of them, where \<^verbatim>\<open>k\<close> is \<^verbatim>\<open>min(rf, N)\<close>, and initializes \<^verbatim>\<open>floor(G / N)\<close> to \<^verbatim>\<open>ceil(G / N)\<close> of them.\<close>

theorem seed_spread:
  assumes "ns_ok nodes" "card (ns_to_set nodes) \<le> u64_max" "0 < rf" "n \<in> ns_to_set nodes"
    and "k = min rf (ns_len nodes)"
  shows "card (ns_to_set (seed_voters g rf nodes)) = k \<and>
    ns_to_set (seed_voters g rf nodes) \<subseteq> ns_to_set nodes \<and>
    initializer g nodes \<in> ns_to_set (seed_voters g rf nodes) \<and>
    card {g. g < G \<and> n \<in> ns_to_set (seed_voters g rf nodes)} \<in> {k * (G div ns_len nodes) .. k * div_ceil G (ns_len nodes)} \<and>
    card {g. g < G \<and> initializer g nodes = n} \<in> {G div ns_len nodes .. div_ceil G (ns_len nodes)}"
proof -
  have c1: "card (ns_to_set (seed_voters g rf nodes)) = k" and c2: "ns_to_set (seed_voters g rf nodes) \<subseteq> ns_to_set nodes"
    and c3: "initializer g nodes \<in> ns_to_set (seed_voters g rf nodes)"
    using assms by (simp_all add: seed_voters_card seed_voters_subset initializer_in_seed)
  have c4: "card {g. g < G \<and> n \<in> ns_to_set (seed_voters g rf nodes)} \<in> {k * (G div ns_len nodes) .. k * div_ceil G (ns_len nodes)}"
    using seed_hold_bounds[OF assms(1-5), of G] by simp
  have "{g. g < G \<and> initializer g nodes = n} = {g. g < G \<and> n \<in> ns_to_set (seed_voters g 1 nodes)}"
    by (simp add: initializer_seed[OF assms(1)])
  moreover have "min 1 (ns_len nodes) = 1" by (simp add: ns_len_def sat_add_def u64_max_def)
  ultimately have c5: "card {g. g < G \<and> initializer g nodes = n} \<in> {G div ns_len nodes .. div_ceil G (ns_len nodes)}"
    using seed_hold_bounds[OF assms(1,2) _ assms(4) refl, of 1 G] by simp
  show ?thesis by (intro conjI c1 c2 c3 c4 c5)
qed

theorem seed_spread_witness:
  "card {g. g < 6 \<and> 4 \<in> ns_to_set (seed_voters g 3 (ns_from_first 2 [4, 7, 9]))} \<in> {3 .. 6}"
  using seed_spread[of "ns_from_first 2 [4, 7, 9]" 3 4 3 0 6]
  by (simp add: ns_len_card u64_max_def div_ceil_def)

end
