(* ===== verification/Control_Invariant.thy ===== *)
theory Control_Invariant
  imports Control_Apply Control_Seed
begin

text \<open>
  The invariant of a bootstrapped cluster, and that every command of the dispatcher and every
  history event keeps it.  Planning and committing are separated as in the source: an accepted plan
  is a change whose conditions hold in the cluster (\<^verbatim>\<open>change_ok\<close>), and committing such a change
  keeps the invariant.
\<close>

section \<open>Lookups\<close>

definition rt_lookup :: "(raft_group_id, (node_id, retirement) btreemap) btreemap \<Rightarrow> raft_group_id \<Rightarrow> node_id \<Rightarrow> retirement option" where
  "rt_lookup rs g n = (case map_of rs g of None \<Rightarrow> None | Some records \<Rightarrow> map_of records n)"

lemma cl_retirement_lookup: "cl_retirement c g n = rt_lookup (cl_retirements c) g n"
  by (simp add: cl_retirement_def rt_lookup_def)

definition roles :: "group_placement \<Rightarrow> node_id set" where
  "roles placement = {n. placement_role placement n \<noteq> None}"

lemma roles_simps [simp]:
  "roles (Seeded since voters first) = ns_to_set voters"
  "roles (Live since at (Stable voters)) = ns_to_set voters"
  "roles (Live since at (Moving mv)) = ns_to_set (mv_from mv) \<union> ns_to_set (mv_to mv) \<union> mv_abandoned mv"
  by (auto simp: roles_def split: if_splits bool.splits)

lemma placement_role_None: "placement_role placement n = None \<longleftrightarrow> n \<notin> roles placement"
  by (simp add: roles_def)

lemma roles_rekey [simp]: "roles (rekey since placement) = roles placement"
  by (cases placement; cases "gp_target placement") (auto simp: roles_def)

text \<open>The condition on the nodes a group is placed on.\<close>

definition node_lives :: "cluster \<Rightarrow> node_id \<Rightarrow> bool" where
  "node_lives c n = (\<exists>r. cl_node c n = Some r \<and> has_life (nr_lifecycle r))"

lemma has_any_role_iff: "has_any_role c n \<longleftrightarrow> (\<exists>g placement. (g, placement) \<in> set (cl_groups c) \<and> n \<in> roles placement)"
  unfolding has_any_role_def list_ex_iff by (auto simp: roles_def)

lemma cl_node_insert_node [simp]: "cl_node (insert_node n r c) k = (if k = n then Some r else cl_node c k)"
  by (simp add: cl_node_def insert_node_def map_of_update_iff)

lemma insert_node_simps [simp]:
  "cl_params (insert_node n r c) = cl_params c"
  "cl_groups (insert_node n r c) = cl_groups c"
  "cl_retirements (insert_node n r c) = cl_retirements c"
  "cl_group (insert_node n r c) g = cl_group c g"
  by (simp_all add: insert_node_def cl_group_def)

lemma cl_group_insert_group [simp]: "cl_group (insert_group g p c) k = (if k = g then Some p else cl_group c k)"
  by (simp add: cl_group_def insert_group_def map_of_update_iff)

lemma insert_group_simps [simp]:
  "cl_params (insert_group g p c) = cl_params c"
  "cl_nodes (insert_group g p c) = cl_nodes c"
  "cl_retirements (insert_group g p c) = cl_retirements c"
  "cl_node (insert_group g p c) n = cl_node c n"
  by (simp_all add: insert_group_def cl_node_def)

section \<open>Retirements\<close>

definition retirements_ok :: "(raft_group_id, (node_id, retirement) btreemap) btreemap \<Rightarrow> bool" where
  "retirements_ok rs =
     (distinct (map fst rs) \<and> (\<forall>(g, records) \<in> set rs. distinct (map fst records) \<and> records \<noteq> []))"

lemma retirements_ok_iff:
  "retirements_ok rs \<longleftrightarrow>
    distinct (map fst rs) \<and> (\<forall>g records. map_of rs g = Some records \<longrightarrow> distinct (map fst records) \<and> records \<noteq> [])"
  unfolding retirements_ok_def by (fastforce dest: map_of_SomeD simp: map_of_in_set)

lemma rt_lookup_Nil [simp]: "rt_lookup [] g n = None"
  by (simp add: rt_lookup_def)

lemma fold_retire_lookup:
  "map_of (fold (\<lambda>n records. AList.update n v records) ns records) k = (if k \<in> set ns then Some v else map_of records k)"
  by (induction ns arbitrary: records) (auto simp: map_of_update_iff)

lemma fold_retire_distinct:
  "distinct (map fst records) \<Longrightarrow> distinct (map fst (fold (\<lambda>n records. AList.update n v records) ns records))"
  by (induction ns arbitrary: records) auto

lemma fold_retire_nonempty:
  "ns \<noteq> [] \<or> records \<noteq> [] \<Longrightarrow> fold (\<lambda>n records. AList.update n v records) ns records \<noteq> []"
proof (induction ns arbitrary: records)
  case (Cons n ns)
  have "AList.update n v records \<noteq> []" by (cases records) (auto split: prod.splits if_splits)
  with Cons.IH show ?case by simp
qed simp

lemma rt_lookup_insert:
  assumes "finite retired"
  shows "rt_lookup (insert_retirements at g retired rs) k n =
    (if k = g \<and> n \<in> retired then Some \<lparr> rt_created_at = at \<rparr> else rt_lookup rs k n)"
  using assms
  by (auto simp: insert_retirements_def rt_lookup_def map_of_entry_modify fold_retire_lookup split: option.splits)

lemma insert_retirements_ok:
  assumes "retirements_ok rs" "finite retired"
  shows "retirements_ok (insert_retirements at g retired rs)"
proof (cases "retired = {}")
  case False
  then have "sorted_list_of_set retired \<noteq> []" using assms(2) by simp
  with assms(1) False show ?thesis
    by (auto simp: retirements_ok_iff insert_retirements_def map_of_entry_modify fold_retire_distinct
      fold_retire_nonempty split: option.splits if_splits)
qed (simp add: insert_retirements_def assms)

lemma delete_nonempty: "AList.delete n records \<noteq> [] \<Longrightarrow> records \<noteq> []"
  by auto

lemma rt_lookup_delete:
  assumes "retirements_ok rs"
  shows "rt_lookup (delete_retirement g n rs) k i = (if k = g \<and> i = n then None else rt_lookup rs k i)"
proof (cases "map_of rs g")
  case (Some records)
  have "map_of records i = None" if "AList.delete n records = []" "i \<noteq> n"
    using that map_of_delete_iff[of n records i] by simp
  with Some show ?thesis
    by (auto simp: delete_retirement_def rt_lookup_def Let_def map_of_delete_iff map_of_update_iff split: option.splits)
qed (auto simp: delete_retirement_def rt_lookup_def)

lemma delete_retirement_ok: "retirements_ok rs \<Longrightarrow> retirements_ok (delete_retirement g n rs)"
  by (auto simp: delete_retirement_def retirements_ok_iff Let_def map_of_delete_iff map_of_update_iff
    simp del: map_of_eq_Some_iff split: option.splits if_splits)

definition drop_nodes :: "node_id set \<Rightarrow> (raft_group_id, (node_id, retirement) btreemap) btreemap \<Rightarrow>
    (raft_group_id, (node_id, retirement) btreemap) btreemap" where
  "drop_nodes removed rs = filter (\<lambda>(_, records). records \<noteq> [])
     (map (\<lambda>(g, records). (g, filter (\<lambda>(n, _). n \<notin> removed) records)) rs)"

lemma map_of_filter_nodes:
  "map_of (filter (\<lambda>(n, _). n \<notin> removed) records) i = (if i \<in> removed then None else map_of records i)"
  by (induction records) auto

lemma drop_nodes_keys: "distinct (map fst rs) \<Longrightarrow> distinct (map fst (drop_nodes removed rs))"
  by (auto simp: drop_nodes_def distinct_map_filter comp_def case_prod_beta)

lemma map_of_drop_nodes:
  "distinct (map fst rs) \<Longrightarrow> map_of (drop_nodes removed rs) g =
    (case map_of rs g of None \<Rightarrow> None
     | Some records \<Rightarrow> let records' = filter (\<lambda>(n, _). n \<notin> removed) records in if records' = [] then None else Some records')"
proof (induction rs)
  case (Cons p rs)
  obtain k records where p: "p = (k, records)" by (cases p)
  have "k \<notin> fst ` set rs" using Cons.prems p by auto
  then have none: "map_of rs k = None" by (simp add: map_of_eq_None_iff)
  with Cons p show ?case by (auto simp: drop_nodes_def Let_def)
qed (simp add: drop_nodes_def)

lemma rt_lookup_drop:
  assumes "distinct (map fst rs)"
  shows "rt_lookup (drop_nodes removed rs) g n = (if n \<in> removed then None else rt_lookup rs g n)"
proof (cases "map_of rs g")
  case (Some records)
  then show ?thesis
    using map_of_filter_nodes[of removed records n]
    by (auto simp: rt_lookup_def map_of_drop_nodes[OF assms] Let_def simp del: filter.simps)
qed (simp add: rt_lookup_def map_of_drop_nodes[OF assms])

lemma drop_nodes_ok: "retirements_ok rs \<Longrightarrow> retirements_ok (drop_nodes removed rs)"
  by (auto simp: retirements_ok_iff drop_nodes_keys map_of_drop_nodes Let_def distinct_map_filter
    split: option.splits if_splits)

section \<open>The invariant\<close>

text \<open>What the types of the source promise of the parameters, with the bound \<^verbatim>\<open>Bootstrap\<close> checks.\<close>

definition params_typed :: "cluster_params \<Rightarrow> bool" where
  "params_typed p = (1 \<le> cp_group_count p \<and> 1 \<le> cp_replication_factor p \<and> cp_replication_factor p \<le> 255 \<and>
     ns_ok (cp_meta_voters p))"

fun placement_ok :: "replication_factor \<Rightarrow> group_placement \<Rightarrow> bool" where
  "placement_ok rf (Seeded _ voters first) = (ns_ok voters \<and> ns_len voters = rf \<and> first \<in> ns_to_set voters)"
| "placement_ok rf (Live _ _ (Stable voters)) = (ns_ok voters \<and> ns_len voters = rf)"
| "placement_ok rf (Live _ _ (Moving mv)) =
     (ns_ok (mv_from mv) \<and> ns_len (mv_from mv) = rf \<and> ns_ok (mv_to mv) \<and> ns_len (mv_to mv) = rf \<and>
      finite (mv_abandoned mv) \<and> mv_abandoned mv \<inter> (ns_to_set (mv_from mv) \<union> ns_to_set (mv_to mv)) = {})"

definition nodes_ok :: "cluster \<Rightarrow> bool" where
  "nodes_ok c = (distinct (map fst (cl_nodes c)) \<and>
     (\<forall>n r. cl_node c n = Some r \<and> nr_lifecycle r = Decommissioning \<longrightarrow> has_any_role c n) \<and>
     (\<forall>n \<in> ns_to_set (cp_meta_voters (cl_params c)). \<exists>r. cl_node c n = Some r \<and> nr_lifecycle r \<in> {Active, Cordoned}))"

definition groups_ok :: "cluster \<Rightarrow> bool" where
  "groups_ok c = (map fst (cl_groups c) = group_ids (cp_group_count (cl_params c)) \<and>
     (\<forall>g p. cl_group c g = Some p \<longrightarrow>
        placement_ok (cp_replication_factor (cl_params c)) p \<and> (\<forall>n \<in> roles p. node_lives c n)))"

definition owed_ok :: "cluster \<Rightarrow> bool" where
  "owed_ok c = (retirements_ok (cl_retirements c) \<and>
     (\<forall>g n. cl_retirement c g n \<noteq> None \<longrightarrow> node_lives c n \<and>
        (\<exists>since at t. cl_group c g = Some (Live since at t) \<and> n \<notin> roles (Live since at t))))"

definition cluster_ok :: "cluster \<Rightarrow> bool" where
  "cluster_ok c = (params_typed (cl_params c) \<and> cp_group_count (cl_params c) \<le> max_group_count \<and>
     nodes_ok c \<and> groups_ok c \<and> owed_ok c)"

fun state_ok :: "control_plane_state \<Rightarrow> bool" where
  "state_ok (Forming registered') = distinct (map fst registered')"
| "state_ok FormationCut = True"
| "state_ok (Bootstrapped c) = cluster_ok c"

lemma groups_ok_distinct: "groups_ok c \<Longrightarrow> distinct (map fst (cl_groups c))"
  by (simp add: groups_ok_def group_ids_def)

lemma has_any_role_lookup:
  "distinct (map fst (cl_groups c)) \<Longrightarrow> has_any_role c n \<longleftrightarrow> (\<exists>g p. cl_group c g = Some p \<and> n \<in> roles p)"
  by (simp add: has_any_role_iff cl_group_def)

lemma has_any_role_groups: "cl_groups c = cl_groups c' \<Longrightarrow> has_any_role c n = has_any_role c' n"
  by (simp add: has_any_role_iff)

section \<open>Removal of nodes without a role\<close>

definition leaving :: "cluster \<Rightarrow> node_id set" where
  "leaving c = {n. \<exists>r. cl_node c n = Some r \<and> nr_lifecycle r = Decommissioning \<and> \<not> has_any_role c n}"

lemma map_of_map_snd: "map_of (map (\<lambda>(k, v). (k, f k v)) xs) k = map_option (f k) (map_of xs k)"
  by (induction xs) auto

lemma remove_roleless_spec:
  assumes "distinct (map fst (cl_nodes c))" "retirements_ok (cl_retirements c)"
    "remove_roleless_decommissioning t c = (c', removed)"
  shows "removed = leaving c"
    and "cl_node c' n = (if n \<in> leaving c
      then map_option (\<lambda>r. \<lparr> nr_lifecycle = Removed, nr_since_ms = t, nr_root = nr_root r \<rparr>) (cl_node c n) else cl_node c n)"
    and "cl_groups c' = cl_groups c" "cl_params c' = cl_params c"
    and "map fst (cl_nodes c') = map fst (cl_nodes c)"
    and "rt_lookup (cl_retirements c') g n = (if n \<in> leaving c then None else rt_lookup (cl_retirements c) g n)"
    and "retirements_ok (cl_retirements c')"
proof -
  have set: "set (map fst (filter (\<lambda>(n, r). nr_lifecycle r = Decommissioning \<and> \<not> has_any_role c n)
      (btree_iter (cl_nodes c)))) = leaving c"
    using assms(1) by (force simp: leaving_def cl_node_def image_iff)
  note eq = assms(3)[unfolded remove_roleless_decommissioning_def Let_def set, symmetric]
  have rt: "cl_retirements c' = (if leaving c = {} then cl_retirements c else drop_nodes (leaving c) (cl_retirements c))"
    using eq by (simp add: drop_nodes_def)
  show "removed = leaving c" "cl_groups c' = cl_groups c" "cl_params c' = cl_params c"
    "map fst (cl_nodes c') = map fst (cl_nodes c)"
    using eq by (simp_all add: case_prod_beta)
  show "cl_node c' n = (if n \<in> leaving c
      then map_option (\<lambda>r. \<lparr> nr_lifecycle = Removed, nr_since_ms = t, nr_root = nr_root r \<rparr>) (cl_node c n) else cl_node c n)"
    using eq map_of_map_snd[of "\<lambda>n r. if n \<in> leaving c then \<lparr> nr_lifecycle = Removed, nr_since_ms = t, nr_root = nr_root r \<rparr> else r" "cl_nodes c" n]
    by (simp add: cl_node_def option.map_ident_strong)
  show "rt_lookup (cl_retirements c') g n = (if n \<in> leaving c then None else rt_lookup (cl_retirements c) g n)"
    using assms(2) by (simp add: rt rt_lookup_drop retirements_ok_iff)
  show "retirements_ok (cl_retirements c')" using assms(2) by (simp add: rt drop_nodes_ok)
qed

section \<open>What an accepted plan promises\<close>

text \<open>The conditions under which the planner accepts each change.\<close>

definition move_from_to :: "cluster \<Rightarrow> target \<Rightarrow> move \<Rightarrow> bool" where
  "move_from_to c t mv =
     (case t of
        Stable voters \<Rightarrow> mv_from mv = voters \<and> mv_to mv \<noteq> voters \<and> mv_abandoned mv = {} \<and>
          cl_moving c < cp_max_concurrent_moves (cl_params c)
      | Moving old \<Rightarrow> mv_from mv = mv_from old \<and> mv_to mv \<noteq> mv_to old \<and> mv_since_ms mv = mv_since_ms old \<and>
          mv_abandoned mv = (mv_abandoned old \<union> ns_to_set (mv_to old)) - ns_to_set (mv_from old) - ns_to_set (mv_to mv))"

definition joins :: "cluster \<Rightarrow> raft_group_id \<Rightarrow> voter_set \<Rightarrow> node_id \<Rightarrow> bool" where
  "joins c g current n = (\<exists>r. cl_node c n = Some r \<and> has_life (nr_lifecycle r) \<and>
     (nr_lifecycle r = Active \<or> n \<in> ns_to_set current) \<and> cl_retirement c g n = None)"

fun change_ok :: "cluster \<Rightarrow> change \<Rightarrow> bool" where
  "change_ok c (Change_Nothing _) = True"
| "change_ok c (Change_Register n root _) =
     (cl_node c n = None \<or>
      (\<exists>r. cl_node c n = Some r \<and> nr_lifecycle r = Vacant \<and> register_slot n (Some (nr_root r)) root True = Inr (Bound root)))"
| "change_ok c (Change_Rebind n r') =
     (\<exists>r old new. cl_node c n = Some r \<and> has_life (nr_lifecycle r) \<and> nr_root r = Released old \<and> new \<noteq> old \<and>
        r' = r\<lparr> nr_root := Bound new \<rparr>)"
| "change_ok c (Change_Release n r') =
     (\<exists>r root. cl_node c n = Some r \<and> has_life (nr_lifecycle r) \<and> nr_root r = Bound root \<and>
        r' = r\<lparr> nr_root := Released root \<rparr>)"
| "change_ok c (Change_Vacate n r') =
     (\<exists>r t. cl_node c n = Some r \<and> nr_lifecycle r = Removed \<and>
        r' = \<lparr> nr_lifecycle = Vacant, nr_since_ms = t, nr_root = Released (slot_root (nr_root r)) \<rparr>)"
| "change_ok c (Change_Move g at mv) =
     (\<exists>since t. cl_group c g = Some (Live since at t) \<and>
        ns_len (mv_to mv) = ns_len (target_voters (Live since at t)) \<and>
        (\<forall>n \<in> set (ns_iter (mv_to mv)). joins c g (current_voters (Live since at t)) n) \<and> move_from_to c t mv)"
| "change_ok c (Change_Converge g at voters retired _) =
     (\<exists>p. cl_group c g = Some p \<and>
        (case p of
           Seeded _ _ _ \<Rightarrow> retired = {} \<and> ns_len voters = cp_replication_factor (cl_params c) \<and>
             (\<forall>n \<in> set (ns_iter voters). node_lives c n)
         | Live _ _ (Stable _) \<Rightarrow> False
         | Live _ _ (Moving mv) \<Rightarrow> voters = mv_to mv \<and>
             retired = (ns_to_set (mv_from mv) \<union> mv_abandoned mv) - ns_to_set (mv_to mv)))"
| "change_ok c (Change_Lifecycle n r') =
     (\<exists>r. cl_node c n = Some r \<and> has_life (nr_lifecycle r) \<and> has_life (nr_lifecycle r') \<and> nr_root r' = nr_root r \<and>
        nr_lifecycle r' \<noteq> nr_lifecycle r \<and> \<not> (nr_lifecycle r = Decommissioning \<and> nr_lifecycle r' = Cordoned) \<and>
        (nr_lifecycle r' = Decommissioning \<longrightarrow> n \<notin> ns_to_set (cp_meta_voters (cl_params c))))"
| "change_ok c (Change_MoveLimit _) = True"
| "change_ok c (Change_TornDown g n) = (cl_retirement c g n \<noteq> None)"

lemma first_error_None: "first_error f xs = None \<longleftrightarrow> (\<forall>x \<in> set xs. f x = None)"
  by (induction xs) (auto split: option.splits)

lemma check_life_None: "check_life n r = None \<longleftrightarrow> has_life (nr_lifecycle r)"
  by (cases "nr_lifecycle r") (auto simp: check_life_def)

lemma check_target_None: "check_target c g n current = None \<longleftrightarrow> joins c g current n"
proof (cases "cl_node c n")
  case (Some r)
  then show ?thesis by (cases "nr_lifecycle r") (auto simp: check_target_def joins_def check_life_def)
qed (simp add: check_target_def joins_def)

lemma check_reported_None: "check_reported c n = None \<longleftrightarrow> node_lives c n"
  by (auto simp: check_reported_def node_lives_def check_life_None split: option.splits)

lemma plan_register_ok: "plan_register c n root e t = Inr ch \<Longrightarrow> change_ok c ch"
  by (cases "cl_node c n"; cases "nr_lifecycle (the (cl_node c n))"; cases "nr_root (the (cl_node c n))")
    (auto simp: plan_register_def register_slot_def split: if_splits intro: exI[of _ root])

lemma plan_release_ok: "plan_release c n root = Inr ch \<Longrightarrow> change_ok c ch"
  by (cases "cl_node c n"; cases "nr_root (the (cl_node c n))")
    (auto simp: plan_release_def release_slot_def Let_def check_life_None split: if_splits option.splits)

lemma plan_move_ok: "plan_move c g e to' t = Inr ch \<Longrightarrow> change_ok c ch"
  by (auto simp: plan_move_def Let_def first_error_None check_target_None move_from_to_def
    split: option.splits group_placement.splits target.splits if_splits)

lemma plan_converge_ok: "plan_converge c g e voters at t = Inr ch \<Longrightarrow> change_ok c ch"
  by (auto simp: plan_converge_def first_error_None check_reported_None
    split: option.splits group_placement.splits target.splits if_splits)

lemma plan_lifecycle_ok: "plan_lifecycle c n change' t = Inr ch \<Longrightarrow> change_ok c ch"
  by (cases change')
    (auto simp: plan_lifecycle_def check_life_None Let_def split: option.splits if_splits)

lemma plan_torn_down_ok: "plan_torn_down c g n at = Inr ch \<Longrightarrow> change_ok c ch"
  by (auto simp: plan_torn_down_def split: option.splits if_splits)

lemma plan_removal_complete_ok: "plan_removal_complete c n root t = Inr ch \<Longrightarrow> change_ok c ch"
  by (auto simp: plan_removal_complete_def split: option.splits node_lifecycle.splits if_splits)

lemma plan_cluster_ok: "plan_cluster c command = Inr ch \<Longrightarrow> change_ok c ch"
  by (cases command)
    (auto simp: plan_cluster_def split: option.splits if_splits
      dest: plan_register_ok plan_release_ok plan_move_ok plan_converge_ok plan_lifecycle_ok plan_torn_down_ok
        plan_removal_complete_ok)

section \<open>Committing keeps the invariant\<close>

text \<open>The sets of a command are node sets of the source, and its parameters have their types.\<close>

fun command_typed :: "control_command \<Rightarrow> bool" where
  "command_typed (Bootstrap params nodes _) = (params_typed params \<and> ns_ok nodes)"
| "command_typed (RequestMove _ _ to' _) = ns_ok to'"
| "command_typed (ReportConverged _ _ voters _ _) = ns_ok voters"
| "command_typed _ = True"

fun change_typed :: "change \<Rightarrow> bool" where
  "change_typed (Change_Move _ _ mv) = ns_ok (mv_to mv)"
| "change_typed (Change_Converge _ _ voters _ _) = ns_ok voters"
| "change_typed _ = True"

lemma plan_cluster_typed: "command_typed command \<Longrightarrow> plan_cluster c command = Inr ch \<Longrightarrow> change_typed ch"
  by (cases command)
    (auto simp: plan_cluster_def plan_register_def plan_release_def plan_move_def plan_converge_def plan_lifecycle_def
      plan_torn_down_def plan_removal_complete_def Let_def
      split: option.splits if_splits sum.splits group_placement.splits target.splits node_lifecycle.splits)

lemmas cluster_parts = cluster_ok_def nodes_ok_def groups_ok_def owed_ok_def

lemma node_lives_groups [simp]: "node_lives (insert_group g p c) n = node_lives c n"
  by (simp add: node_lives_def)

text \<open>A new record of one node.\<close>

lemma insert_node_groups_ok:
  assumes "groups_ok c" "node_lives c n \<longrightarrow> has_life (nr_lifecycle r)"
  shows "groups_ok (insert_node n r c)"
  using assms by (auto simp: groups_ok_def node_lives_def)

lemma insert_node_owed_ok:
  assumes "owed_ok c" "node_lives c n \<longrightarrow> has_life (nr_lifecycle r)"
  shows "owed_ok (insert_node n r c)"
proof -
  have "node_lives (insert_node n r c) k" if "node_lives c k" for k
    using that assms(2) by (auto simp: node_lives_def)
  with assms(1) show ?thesis by (auto simp: owed_ok_def cl_retirement_lookup)
qed

lemma insert_node_ok:
  assumes ok: "cluster_ok c" and life: "node_lives c n \<longrightarrow> has_life (nr_lifecycle r)"
    and dec: "nr_lifecycle r = Decommissioning \<longrightarrow> has_any_role c n"
    and meta: "n \<in> ns_to_set (cp_meta_voters (cl_params c)) \<longrightarrow> nr_lifecycle r \<in> {Active, Cordoned}"
  shows "cluster_ok (insert_node n r c)"
proof -
  have "nodes_ok (insert_node n r c)"
    using ok dec meta has_any_role_groups[of "insert_node n r c" c]
    by (auto simp: cluster_ok_def nodes_ok_def) (simp_all add: insert_node_def)
  with ok life show ?thesis by (simp add: cluster_ok_def insert_node_groups_ok insert_node_owed_ok)
qed

text \<open>Removal repairs the one clause a lifecycle change or a converged group may break.\<close>

lemma remove_roleless_ok:
  assumes typed: "params_typed (cl_params c)" "cp_group_count (cl_params c) \<le> max_group_count"
    and nodes: "distinct (map fst (cl_nodes c))"
      "\<And>n. n \<in> ns_to_set (cp_meta_voters (cl_params c)) \<Longrightarrow> \<exists>r. cl_node c n = Some r \<and> nr_lifecycle r \<in> {Active, Cordoned}"
    and groups: "groups_ok c" and owed: "owed_ok c"
    and rem: "remove_roleless_decommissioning t c = (c', removed)"
  shows "cluster_ok c'"
proof -
  have rt: "retirements_ok (cl_retirements c)" using owed by (simp add: owed_ok_def)
  note spec = remove_roleless_spec[OF nodes(1) rt rem]
  have group: "cl_group c' = cl_group c" by (rule ext) (simp add: cl_group_def spec)
  have role: "has_any_role c' = has_any_role c" by (rule ext) (simp add: has_any_role_iff spec)
  have lives: "node_lives c' n \<longleftrightarrow> node_lives c n \<and> n \<notin> leaving c" for n
    by (auto simp: node_lives_def spec(2))
  have roles: "n \<notin> leaving c" if "cl_group c g = Some p" "n \<in> roles p" for g n p
    using that groups_ok_distinct[OF groups] by (auto simp: leaving_def has_any_role_lookup)
  have "nodes_ok c'"
    unfolding nodes_ok_def spec role
  proof (intro conjI allI ballI impI)
    show "has_any_role c n"
      if "(if n \<in> leaving c then map_option (\<lambda>r. \<lparr> nr_lifecycle = Removed, nr_since_ms = t, nr_root = nr_root r \<rparr>) (cl_node c n)
        else cl_node c n) = Some r \<and> nr_lifecycle r = Decommissioning" for n r
      using that by (auto simp: leaving_def split: if_splits)
  next
    fix n assume "n \<in> ns_to_set (cp_meta_voters (cl_params c))"
    from nodes(2)[OF this] obtain r where r: "cl_node c n = Some r" "nr_lifecycle r \<in> {Active, Cordoned}" by blast
    then have "n \<notin> leaving c" by (auto simp: leaving_def)
    with r show "\<exists>r. (if n \<in> leaving c then map_option (\<lambda>r. \<lparr> nr_lifecycle = Removed, nr_since_ms = t, nr_root = nr_root r \<rparr>) (cl_node c n)
        else cl_node c n) = Some r \<and> nr_lifecycle r \<in> {Active, Cordoned}"
      by simp
  qed (use nodes spec(5) in simp)
  moreover have "groups_ok c'"
    using groups roles by (auto simp: groups_ok_def group lives spec)
  moreover have "owed_ok c'"
    using owed by (auto simp: owed_ok_def cl_retirement_lookup group lives spec split: if_splits)
  ultimately show ?thesis using typed by (simp add: cluster_ok_def spec)
qed

text \<open>A new placement of one group.\<close>

lemma groups_update_keys: "g \<in> set ks \<Longrightarrow> map fst xs = ks \<Longrightarrow> map fst (AList.update g p xs) = ks"
  by (simp add: update_keys)

lemma cl_group_in_ids: "groups_ok c \<Longrightarrow> cl_group c g = Some p \<Longrightarrow> g \<in> set (group_ids (cp_group_count (cl_params c)))"
  unfolding groups_ok_def cl_group_def by (metis domI dom_map_of_conv_image_fst list.set_map)

lemma insert_group_groups_ok:
  assumes "groups_ok c" "cl_group c g = Some old" "placement_ok (cp_replication_factor (cl_params c)) p"
    "\<And>n. n \<in> roles p \<Longrightarrow> node_lives c n"
  shows "groups_ok (insert_group g p c)"
proof -
  have "map fst (cl_groups (insert_group g p c)) = group_ids (cp_group_count (cl_params c))"
    using assms(1) cl_group_in_ids[OF assms(1,2)] by (simp add: insert_group_def groups_ok_def groups_update_keys)
  with assms show ?thesis by (simp add: groups_ok_def)
qed

lemma insert_group_role_mono:
  assumes "groups_ok c" "cl_group c g = Some old" "roles old \<subseteq> roles p" "has_any_role c n"
  shows "has_any_role (insert_group g p c) n"
proof -
  have d: "distinct (map fst (cl_groups c))" by (rule groups_ok_distinct[OF assms(1)])
  then have d': "distinct (map fst (cl_groups (insert_group g p c)))" by (simp add: insert_group_def)
  from assms(4) obtain k q where q: "cl_group c k = Some q" "n \<in> roles q" using has_any_role_lookup[OF d] by blast
  have "cl_group (insert_group g p c) k = Some (if k = g then p else q)" "n \<in> roles (if k = g then p else q)"
    using q assms(2,3) by auto
  then show ?thesis using has_any_role_lookup[OF d'] by blast
qed

lemma joins_lives: "joins c g current n \<Longrightarrow> node_lives c n" "joins c g current n \<Longrightarrow> cl_retirement c g n = None"
  by (auto simp: joins_def node_lives_def)

lemma owed_okD:
  assumes "owed_ok c" "cl_retirement c g n \<noteq> None" "cl_group c g = Some p"
  shows "n \<notin> roles p" "\<exists>s a t. p = Live s a t"
proof -
  from assms(1,2) obtain s a t where "cl_group c g = Some (Live s a t)" "n \<notin> roles (Live s a t)"
    unfolding owed_ok_def by blast
  with assms(3) show "n \<notin> roles p" "\<exists>s a t. p = Live s a t" by auto
qed

lemma move_roles:
  assumes "placement_ok rf (Live since at t)" "move_from_to c t mv" "ns_ok (mv_to mv)" "ns_len (mv_to mv) = rf"
  shows "placement_ok rf (Live since' at (Moving mv))"
    "roles (Live since' at (Moving mv)) = roles (Live since at t) \<union> ns_to_set (mv_to mv)"
  using assms by (cases t; auto simp: move_from_to_def)+

lemma commit_move_ok:
  assumes ok: "cluster_ok c" and ch: "change_ok c (Change_Move g at mv)" and typed: "ns_ok (mv_to mv)"
  shows "cluster_ok (insert_group g (Live since' at (Moving mv)) c)"
proof -
  let ?rf = "cp_replication_factor (cl_params c)" and ?p' = "Live since' at (Moving mv)"
  from ch obtain since t where p: "cl_group c g = Some (Live since at t)"
    and len: "ns_len (mv_to mv) = ns_len (target_voters (Live since at t))"
    and joins: "\<And>n. n \<in> ns_to_set (mv_to mv) \<Longrightarrow> joins c g (current_voters (Live since at t)) n"
    and mv: "move_from_to c t mv"
    using typed by auto
  have groups: "groups_ok c" and owed: "owed_ok c" and nodes: "nodes_ok c" using ok by (simp_all add: cluster_ok_def)
  have pok: "placement_ok ?rf (Live since at t)" using groups p by (simp add: groups_ok_def)
  have "ns_len (target_voters (Live since at t)) = ?rf" using pok by (cases t) auto
  with len have rf: "ns_len (mv_to mv) = ?rf" by simp
  note p' = move_roles[OF pok mv typed rf, of since']
  have lives: "node_lives c n" if "n \<in> roles ?p'" for n
    using that groups p joins_lives(1)[OF joins] unfolding p'(2) by (auto simp: groups_ok_def)
  have groups': "groups_ok (insert_group g ?p' c)"
    by (rule insert_group_groups_ok[OF groups p p'(1) lives])
  have "owed_ok (insert_group g ?p' c)"
    unfolding owed_ok_def
  proof (intro conjI allI impI)
    show "retirements_ok (cl_retirements (insert_group g ?p' c))" using owed by (simp add: owed_ok_def)
    fix k n assume "cl_retirement (insert_group g ?p' c) k n \<noteq> None"
    then have rt: "cl_retirement c k n \<noteq> None" by (simp add: cl_retirement_lookup)
    with owed show "node_lives (insert_group g ?p' c) n" by (simp add: owed_ok_def)
    from rt owed obtain s a u where live: "cl_group c k = Some (Live s a u)" "n \<notin> roles (Live s a u)"
      unfolding owed_ok_def by blast
    have "n \<notin> roles ?p'" if "k = g"
      using rt live that p joins_lives(2)[OF joins] unfolding p'(2) by auto
    with live show "\<exists>since at t. cl_group (insert_group g ?p' c) k = Some (Live since at t) \<and> n \<notin> roles (Live since at t)"
      by (cases "k = g") auto
  qed
  moreover have "nodes_ok (insert_group g ?p' c)"
    using nodes insert_group_role_mono[OF groups p, of ?p'] p'(2) by (auto simp: nodes_ok_def)
  ultimately show ?thesis using ok groups' by (simp add: cluster_ok_def)
qed

lemma commit_converge_ok:
  assumes ok: "cluster_ok c" and ch: "change_ok c (Change_Converge g at voters retired t)" and typed: "ns_ok voters"
    and c2: "c2 = (insert_group g (Live since at (Stable voters)) c)
      \<lparr> cl_retirements := insert_retirements now g retired (cl_retirements c) \<rparr>"
    and rem: "remove_roleless_decommissioning t c2 = (c3, removed)"
  shows "cluster_ok c3"
proof -
  let ?rf = "cp_replication_factor (cl_params c)" and ?p' = "Live since at (Stable voters)"
  have groups: "groups_ok c" and owed: "owed_ok c" and nodes: "nodes_ok c" using ok by (simp_all add: cluster_ok_def)
  from ch obtain p where p: "cl_group c g = Some p"
    and cases: "case p of Seeded _ _ _ \<Rightarrow> retired = {} \<and> ns_len voters = ?rf \<and> (\<forall>n \<in> set (ns_iter voters). node_lives c n)
         | Live _ _ (Stable _) \<Rightarrow> False
         | Live _ _ (Moving mv) \<Rightarrow> voters = mv_to mv \<and> retired = (ns_to_set (mv_from mv) \<union> mv_abandoned mv) - ns_to_set (mv_to mv)"
    by auto
  have pok: "placement_ok ?rf p" "\<And>n. n \<in> roles p \<Longrightarrow> node_lives c n" using groups p by (auto simp: groups_ok_def)
  have new: "placement_ok ?rf ?p'" "\<And>n. n \<in> ns_to_set voters \<Longrightarrow> node_lives c n" "finite retired"
    "retired \<inter> ns_to_set voters = {}" "\<And>n. n \<in> retired \<Longrightarrow> node_lives c n"
    using cases pok typed by (auto split: group_placement.splits target.splits)
  have old: "n \<notin> ns_to_set voters" if "cl_retirement c g n \<noteq> None" for n
    using owed_okD[OF owed that p] cases by (auto split: group_placement.splits target.splits)
  have simps: "cl_params c2 = cl_params c" "cl_nodes c2 = cl_nodes c" "cl_node c2 = cl_node c"
    "cl_group c2 = cl_group (insert_group g ?p' c)" "node_lives c2 = node_lives c"
    by (auto simp: c2 cl_node_def cl_group_def node_lives_def fun_eq_iff)
  have "groups_ok (insert_group g ?p' c)"
    using insert_group_groups_ok[OF groups p new(1)] new(2) by simp
  then have groups2: "groups_ok c2" by (simp add: groups_ok_def simps) (simp add: c2)
  have lookup: "cl_retirement c2 k n = (if k = g \<and> n \<in> retired then Some \<lparr> rt_created_at = now \<rparr> else cl_retirement c k n)" for k n
    by (simp add: cl_retirement_lookup c2 rt_lookup_insert new(3))
  have "owed_ok c2"
    unfolding owed_ok_def
  proof (intro conjI allI impI)
    show "retirements_ok (cl_retirements c2)" using owed new(3) by (simp add: c2 insert_retirements_ok owed_ok_def)
    fix k n assume rt: "cl_retirement c2 k n \<noteq> None"
    then show "node_lives c2 n" using owed new(5) by (auto simp: lookup simps owed_ok_def split: if_splits)
    show "\<exists>since at t. cl_group c2 k = Some (Live since at t) \<and> n \<notin> roles (Live since at t)"
      using rt owed old new(4) by (cases "k = g") (auto simp: lookup simps owed_ok_def split: if_splits)
  qed
  with ok nodes groups2 rem show ?thesis
    by (intro remove_roleless_ok[of c2 t c3 removed]) (auto simp: cluster_ok_def nodes_ok_def simps)
qed

section \<open>Every command keeps the invariant\<close>

lemma update_simps [simp]:
  "cl_node (c\<lparr> cl_params := p \<rparr>) = cl_node c" "cl_node (c\<lparr> cl_retirements := rs \<rparr>) = cl_node c"
  "cl_group (c\<lparr> cl_params := p \<rparr>) = cl_group c" "cl_group (c\<lparr> cl_retirements := rs \<rparr>) = cl_group c"
  "has_any_role (c\<lparr> cl_params := p \<rparr>) = has_any_role c" "has_any_role (c\<lparr> cl_retirements := rs \<rparr>) = has_any_role c"
  "node_lives (c\<lparr> cl_params := p \<rparr>) = node_lives c" "node_lives (c\<lparr> cl_retirements := rs \<rparr>) = node_lives c"
  by (auto simp: cl_node_def cl_group_def has_any_role_iff node_lives_def fun_eq_iff)

lemma commit_ok:
  assumes ok: "cluster_ok c" and ch: "change_ok c ch" and typed: "change_typed ch" and eq: "commit at ch c = (c', applied)"
  shows "cluster_ok c'"
proof -
  have dec: "\<And>n r. cl_node c n = Some r \<Longrightarrow> nr_lifecycle r = Decommissioning \<Longrightarrow> has_any_role c n"
    and meta: "\<And>n. n \<in> ns_to_set (cp_meta_voters (cl_params c)) \<Longrightarrow>
      \<exists>r. cl_node c n = Some r \<and> nr_lifecycle r \<in> {Active, Cordoned}"
    using ok by (auto simp: cluster_ok_def nodes_ok_def)
  note insert = insert_node_ok[OF ok]
  show ?thesis
  proof (cases ch)
    case (Change_Register n root t)
    with ch eq show ?thesis by (auto simp: Let_def intro!: insert)
  next
    case (Change_Rebind n r)
    with ch eq dec meta[of n] show ?thesis by (auto simp: Let_def intro!: insert)
  next
    case (Change_Release n r)
    with ch eq dec meta[of n] show ?thesis by (auto intro!: insert)
  next
    case (Change_Vacate n r)
    with ch eq meta[of n] show ?thesis by (auto simp: node_lives_def intro!: insert)
  next
    case (Change_Move g at' mv)
    with ch typed eq show ?thesis by (auto simp: Let_def simp del: change_ok.simps intro: commit_move_ok[OF ok])
  next
    case (Change_Converge g at' voters retired t)
    then have typed': "ns_ok voters" and ch': "change_ok c (Change_Converge g at' voters retired t)" using typed ch by auto
    show ?thesis
      using eq by (auto simp: Change_Converge Let_def split: prod.splits intro: commit_converge_ok[OF ok ch' typed' refl])
  next
    case (Change_Lifecycle n r)
    let ?c = "insert_node n r c"
    obtain removed where rem: "remove_roleless_decommissioning (nr_since_ms r) ?c = (c', removed)"
      using eq by (auto simp: Change_Lifecycle split: prod.splits)
    from ch Change_Lifecycle obtain old where old: "cl_node c n = Some old" "has_life (nr_lifecycle r)"
      "nr_lifecycle r = Decommissioning \<longrightarrow> n \<notin> ns_to_set (cp_meta_voters (cl_params c))"
      by auto
    show ?thesis
    proof (rule remove_roleless_ok[OF _ _ _ _ _ _ rem])
      show "distinct (map fst (cl_nodes ?c))" using ok by (simp add: insert_node_def cluster_ok_def nodes_ok_def)
      show "\<exists>q. cl_node ?c k = Some q \<and> nr_lifecycle q \<in> {Active, Cordoned}"
        if "k \<in> ns_to_set (cp_meta_voters (cl_params ?c))" for k
        using meta[of k] that old by (cases "nr_lifecycle r") auto
      show "groups_ok ?c" "owed_ok ?c"
        using ok old by (simp_all add: cluster_ok_def insert_node_groups_ok insert_node_owed_ok)
    qed (use ok in \<open>simp_all add: cluster_ok_def\<close>)
  next
    case (Change_MoveLimit limit)
    then have c': "c' = c\<lparr> cl_params := (cl_params c)\<lparr> cp_max_concurrent_moves := limit \<rparr> \<rparr>" using eq by simp
    show ?thesis using ok by (simp add: c' cluster_parts params_typed_def cl_retirement_lookup)
  next
    case (Change_TornDown g n)
    then have c': "c' = c\<lparr> cl_retirements := delete_retirement g n (cl_retirements c) \<rparr>" using eq by simp
    have rt: "retirements_ok (cl_retirements c)" using ok by (simp add: cluster_ok_def owed_ok_def)
    have "owed_ok c'"
      using ok by (simp add: c' cluster_ok_def owed_ok_def cl_retirement_lookup rt_lookup_delete[OF rt] delete_retirement_ok)
    with ok show ?thesis by (simp add: c' cluster_ok_def nodes_ok_def groups_ok_def)
  qed (use ok eq in simp)
qed

lemma check_bootstrap_None:
  assumes "check_bootstrap registered' params nodes = None" "ns_ok nodes" "ns_ok (cp_meta_voters params)"
  shows "ns_to_set nodes \<subseteq> keys_of registered'" "cp_group_count params \<le> max_group_count"
    "ns_to_set (cp_meta_voters params) \<subseteq> ns_to_set nodes" "cp_replication_factor params \<le> ns_len nodes"
  using assms
  by (auto simp: check_bootstrap_def find_None_iff group_count_within_bound_def map_of_None_keys
    split: option.splits if_splits)

lemma map_of_bootstrap: "map_of (map (\<lambda>g. (g, f g)) gs) g = (if g \<in> set gs then Some (f g) else None)"
  by (induction gs) auto

lemma bootstrap_ok:
  assumes d: "distinct (map fst registered')" and typed: "params_typed params" "ns_ok nodes"
    and check: "check_bootstrap registered' params nodes = None"
  shows "cluster_ok (bootstrap_cluster at registered' params nodes t)" (is "cluster_ok ?c")
proof -
  have meta: "ns_ok (cp_meta_voters params)" using typed by (simp add: params_typed_def)
  note b = check_bootstrap_None[OF check typed(2) meta]
  let ?rf = "cp_replication_factor params"
  have rf: "0 < ?rf" "?rf \<le> 255" using typed by (auto simp: params_typed_def)
  have node: "cl_node ?c n = map_option (\<lambda>r. \<lparr> nr_lifecycle = Active, nr_since_ms = t, nr_root = rg_root r \<rparr>) (map_of registered' n)" for n
    using map_of_map_snd[of "\<lambda>_ r. \<lparr> nr_lifecycle = Active, nr_since_ms = t, nr_root = rg_root r \<rparr>" registered' n]
    by (simp add: cl_node_def bootstrap_cluster_def)
  have lives: "\<exists>r. cl_node ?c n = Some r \<and> nr_lifecycle r = Active" if "n \<in> ns_to_set nodes" for n
    using b(1) that by (auto simp: node keys_of_dom)
  have group: "cl_group ?c g = (if g \<in> set (group_ids (cp_group_count params))
      then Some (Seeded (PlacementEpoch at) (seed_voters g ?rf nodes) (initializer g nodes)) else None)" for g
    by (simp add: cl_group_def bootstrap_cluster_def map_of_bootstrap)
  have params: "cl_params ?c = params" by (simp add: bootstrap_cluster_def)
  have "nodes_ok ?c"
    unfolding nodes_ok_def
  proof (intro conjI allI impI ballI)
    show "distinct (map fst (cl_nodes ?c))" using d by (simp add: bootstrap_cluster_def comp_def case_prod_beta)
    fix n assume "n \<in> ns_to_set (cp_meta_voters (cl_params ?c))"
    then have "n \<in> ns_to_set nodes" using b(3) by (auto simp: bootstrap_cluster_def)
    then show "\<exists>r. cl_node ?c n = Some r \<and> nr_lifecycle r \<in> {Active, Cordoned}" using lives by fastforce
  qed (auto simp: node split: option.splits)
  moreover have "groups_ok ?c"
    unfolding groups_ok_def
  proof (intro conjI allI impI ballI)
    show "map fst (cl_groups ?c) = group_ids (cp_group_count (cl_params ?c))"
      by (simp add: bootstrap_cluster_def comp_def)
    fix g p assume p: "cl_group ?c g = Some p"
    then show "placement_ok (cp_replication_factor (cl_params ?c)) p"
      using seed_voters_len[OF typed(2) rf(1) b(4) rf(2)]
      by (auto simp: group initializer_in_seed params split: if_splits)
    fix n assume "n \<in> roles p"
    then have "n \<in> ns_to_set nodes" using p seed_voters_subset[OF typed(2) rf(1), of g] by (auto simp: group split: if_splits)
    then show "node_lives ?c n" using lives by (force simp: node_lives_def)
  qed
  moreover have "owed_ok ?c" by (simp add: owed_ok_def retirements_ok_iff cl_retirement_lookup bootstrap_cluster_def)
  ultimately show ?thesis using typed b(2) by (simp add: cluster_ok_def bootstrap_cluster_def)
qed

lemma apply_control_ok:
  assumes "state_ok s" "command_typed command"
  shows "state_ok (fst (apply_control at command s))"
proof (cases s)
  case (Forming registered')
  show ?thesis
  proof (cases "plan_forming registered' command")
    case (Inr change')
    show ?thesis
    proof (cases change')
      case (FormingBootstrap params nodes t)
      with Inr have "command = Bootstrap params nodes t" "check_bootstrap registered' params nodes = None"
        by (auto simp: plan_forming_def Let_def split: control_command.splits option.splits sum.splits if_splits)
      with assms Forming Inr FormingBootstrap show ?thesis by (simp add: apply_control_def bootstrap_ok)
    qed (use Inr assms Forming in \<open>simp_all add: apply_control_def\<close>)
  qed (use assms Forming in \<open>simp add: apply_control_def\<close>)
next
  case (Bootstrapped c)
  show ?thesis
  proof (cases "plan_cluster c command")
    case (Inr ch)
    obtain c' applied where c': "commit at ch c = (c', applied)" by (cases "commit at ch c")
    with commit_ok[OF _ plan_cluster_ok[OF Inr] plan_cluster_typed[OF assms(2) Inr] c'] assms(1) Bootstrapped Inr show ?thesis
      by (simp add: apply_control_def)
  qed (use assms Bootstrapped in \<open>simp add: apply_control_def\<close>)
qed (simp add: apply_control_def)

lemma placement_ok_rekey [simp]: "placement_ok rf (rekey since p) = placement_ok rf p"
  by (cases p; cases "gp_target p") auto

lemma begin_history_ok:
  assumes "state_ok s"
  shows "state_ok (fst (begin_history at cause s))"
proof (cases s)
  case (Bootstrapped c)
  define c' where "c' = c\<lparr> cl_groups := map (\<lambda>(g, p). (g, rekey (PlacementEpoch at) p)) (cl_groups c), cl_retirements := [] \<rparr>"
  have ok: "cluster_ok c" using assms Bootstrapped by simp
  have group: "cl_group c' g = map_option (rekey (PlacementEpoch at)) (cl_group c g)" for g
    using map_of_map_snd[of "\<lambda>_. rekey (PlacementEpoch at)" "cl_groups c" g] by (simp add: cl_group_def c'_def)
  have node: "cl_node c' = cl_node c" "node_lives c' = node_lives c" "cl_nodes c' = cl_nodes c" "cl_params c' = cl_params c"
    by (simp_all add: cl_node_def node_lives_def fun_eq_iff c'_def)
  have role: "has_any_role c' n = has_any_role c n" for n
    unfolding has_any_role_iff c'_def by force
  have "map fst (cl_groups c') = map fst (cl_groups c)" by (simp add: c'_def comp_def case_prod_beta)
  then have "groups_ok c'"
    using ok by (auto simp: cluster_ok_def groups_ok_def group node)
  moreover have "nodes_ok c'" using ok by (simp add: cluster_ok_def nodes_ok_def node role)
  moreover have "owed_ok c'" by (simp add: owed_ok_def retirements_ok_iff cl_retirement_lookup c'_def)
  ultimately show ?thesis using ok Bootstrapped by (simp add: begin_history_def cluster_ok_def node flip: c'_def)
qed (cases cause; use assms in \<open>simp add: begin_history_def\<close>)+

end
