(* ===== verification/Meta_Machine.thy ===== *)
theory Meta_Machine
  imports Control_Invariant Model
begin

text \<open>
  The meta group's state machine (\<^verbatim>\<open>ursula-raft/src/meta/state_machine.rs\<close>) over the control-plane
  kernel, and the placement views it publishes with their confirmation
  (\<^verbatim>\<open>ursula-control/src/placement/view.rs\<close>).  The membership type of OpenRaft is a type
  parameter; a log id of OpenRaft is its leader's term and node with the index.  The kernel of the
  model is total, so the branch of the source that catches a panic does not occur.
\<close>

section \<open>Views\<close>

record placement_view =
  pv_stage :: view_stage
  pv_state :: control_plane_state

definition empty_view :: placement_view where
  "empty_view = \<lparr> pv_stage = Empty_View, pv_state = default_state \<rparr>"

definition view_cluster :: "placement_view \<Rightarrow> cluster option" where
  "view_cluster view = state_cluster (pv_state view)"

definition view_applied :: "placement_view \<Rightarrow> meta_log_id option" where
  "view_applied view = (case pv_stage view of Empty_View \<Rightarrow> None | Applied_View applied _ \<Rightarrow> Some applied)"

record confirmed_stamp =
  st_history :: meta_log_id
  st_applied :: meta_log_id

record confirmed_view =
  cv_view :: placement_view
  cv_stamp :: confirmed_stamp

datatype unconfirmed_view =
    Unconfirmed_Empty
  | OtherHistory meta_log_id meta_log_id
  | Behind meta_log_id meta_log_id

definition view_covers :: "view_stage \<Rightarrow> confirmed_stamp \<Rightarrow> unconfirmed_view option" where
  "view_covers stage stamp =
     (case stage of
        Empty_View \<Rightarrow> Some Unconfirmed_Empty
      | Applied_View applied history \<Rightarrow>
          if history \<noteq> st_history stamp then Some (OtherHistory history (st_history stamp))
          else if applied < st_applied stamp then Some (Behind applied (st_applied stamp))
          else None)"

definition confirm_view :: "placement_view \<Rightarrow> confirmed_stamp \<Rightarrow> unconfirmed_view + confirmed_view" where
  "confirm_view view stamp =
     (case view_covers (pv_stage view) stamp of
        Some e \<Rightarrow> Inl e
      | None \<Rightarrow> Inr \<lparr> cv_view = view, cv_stamp = stamp \<rparr>)"

definition still_covers :: "confirmed_view \<Rightarrow> placement_view \<Rightarrow> bool" where
  "still_covers confirmed view = (view_covers (pv_stage view) (cv_stamp confirmed) = None)"

section \<open>The state machine\<close>

datatype meta_command =
    MetaNewHistory u64 u64 u64 history_leader history_cause
  | MetaControl control_command

datatype meta_response =
    MetaHistory
  | MetaHistoryMismatch u64
  | MetaControlResponse control_response

record 'm meta_machine =
  mm_control :: control_plane_state
  mm_history :: "history_event option"
  mm_last_applied :: "raft_log_id option"
  mm_last_membership :: "raft_log_id option \<times> 'm"

definition new_meta_machine :: "'m \<Rightarrow> 'm meta_machine" where
  "new_meta_machine membership =
     \<lparr> mm_control = default_state, mm_history = None, mm_last_applied = None, mm_last_membership = (None, membership) \<rparr>"

definition meta_log_id_of :: "raft_log_id \<Rightarrow> meta_log_id" where
  "meta_log_id_of log_id = MetaLogId (RaftLogId (rl_term log_id) (rl_leader log_id) (rl_index log_id))"

definition history_applies :: "u64 \<Rightarrow> raft_log_id \<Rightarrow> u64 \<Rightarrow> history_leader \<Rightarrow> bool" where
  "history_applies current log_id previous leader =
     (previous = current \<and> hl_term leader = rl_term log_id \<and> hl_node_id leader = rl_leader log_id)"

definition history_log_id :: "history_event \<Rightarrow> meta_log_id" where
  "history_log_id event =
     MetaLogId (RaftLogId (hl_term (he_leader event)) (hl_node_id (he_leader event)) (he_event_index event))"

definition meta_view :: "'m meta_machine \<Rightarrow> placement_view" where
  "meta_view mm =
     \<lparr> pv_stage = (case (mm_history mm, mm_last_applied mm) of
         (Some event, Some applied) \<Rightarrow> Applied_View (meta_log_id_of applied) (history_log_id event)
       | _ \<Rightarrow> Empty_View),
       pv_state = mm_control mm \<rparr>"

fun apply_meta_command :: "raft_log_id \<Rightarrow> meta_command \<Rightarrow> 'm meta_machine \<Rightarrow> 'm meta_machine \<times> meta_response" where
  "apply_meta_command log_id (MetaNewHistory history previous kept leader cause) mm =
     (let current = (case mm_history mm of None \<Rightarrow> 0 | Some event \<Rightarrow> he_id event) in
      if \<not> history_applies current log_id previous leader then (mm, MetaHistoryMismatch current)
      else (mm\<lparr> mm_history := Some \<lparr> he_id = history, he_event_index = rl_index log_id, he_previous = previous,
                 he_kept = kept, he_leader = leader, he_imported = None \<rparr>,
                mm_control := fst (begin_history (meta_log_id_of log_id) cause (mm_control mm)) \<rparr>,
            MetaHistory))"
| "apply_meta_command log_id (MetaControl command) mm =
     (let (control, response) = apply_control (meta_log_id_of log_id) command (mm_control mm)
      in (mm\<lparr> mm_control := control \<rparr>, MetaControlResponse response))"

datatype 'm meta_payload =
    Blank_Entry
  | Membership_Entry 'm
  | Stream_Entry stream_command
  | Meta_Entry meta_command

datatype meta_apply_response = Blank_Response | Membership_Response | Meta_Response meta_response

text \<open>A stream command in the meta log stops the apply, \<^verbatim>\<open>None\<close>.\<close>

fun apply_meta_entry ::
  "raft_log_id \<Rightarrow> 'm meta_payload \<Rightarrow> 'm meta_machine \<Rightarrow> ('m meta_machine \<times> meta_apply_response) option" where
  "apply_meta_entry log_id Blank_Entry mm = Some (mm, Blank_Response)"
| "apply_meta_entry log_id (Membership_Entry membership) mm =
     Some (mm\<lparr> mm_last_membership := (Some log_id, membership) \<rparr>, Membership_Response)"
| "apply_meta_entry log_id (Stream_Entry _) mm = None"
| "apply_meta_entry log_id (Meta_Entry command) mm =
     (let (mm', response) = apply_meta_command log_id command mm in Some (mm', Meta_Response response))"

text \<open>The loop of \<^verbatim>\<open>apply\<close> over a batch: the machine, the answers sent, and whether an entry stopped it.\<close>

fun apply_meta_batch ::
  "(raft_log_id \<times> 'm meta_payload) list \<Rightarrow> 'm meta_machine \<Rightarrow> 'm meta_machine \<times> meta_apply_response list \<times> bool" where
  "apply_meta_batch [] mm = (mm, [], False)"
| "apply_meta_batch ((log_id, payload) # entries) mm =
     (case apply_meta_entry log_id payload mm of
        None \<Rightarrow> (mm, [], True)
      | Some (mm', response) \<Rightarrow>
          let (mm'', responses, stopped) = apply_meta_batch entries (mm'\<lparr> mm_last_applied := Some log_id \<rparr>)
          in (mm'', response # responses, stopped))"

text \<open>What the batch publishes: the view after its last applied entry, when one applied.\<close>

definition published_view :: "(raft_log_id \<times> 'm meta_payload) list \<Rightarrow> 'm meta_machine \<Rightarrow> placement_view option" where
  "published_view entries mm =
     (let (mm', responses, _) = apply_meta_batch entries mm
      in if responses = [] then None else Some (meta_view mm'))"

end
