(* ===== verification/Meta_Log.thy ===== *)
theory Meta_Log
  imports Meta_Machine
begin

text \<open>
  What holds after any log of the meta group: the invariant of the control plane, the placement key
  as a compare-and-set that never accepts a plan made from another placement, and the life of a node
  record.
\<close>

section \<open>Logs\<close>

definition meta_replay :: "(raft_log_id \<times> 'm meta_payload) list \<Rightarrow> 'm meta_machine \<Rightarrow> 'm meta_machine" where
  "meta_replay log mm = fst (apply_meta_batch log mm)"

text \<open>The entries the meta group admits: no stream command, and commands whose sets and parameters
  have the types of the source.\<close>

fun payload_typed :: "'m meta_payload \<Rightarrow> bool" where
  "payload_typed Blank_Entry = True"
| "payload_typed (Membership_Entry _) = True"
| "payload_typed (Stream_Entry _) = False"
| "payload_typed (Meta_Entry (MetaNewHistory _ _ _ _ _)) = True"
| "payload_typed (Meta_Entry (MetaControl command)) = command_typed command"

definition meta_log_typed :: "(raft_log_id \<times> 'm meta_payload) list \<Rightarrow> bool" where
  "meta_log_typed log = list_all (\<lambda>(_, payload). payload_typed payload) log"

definition meta_step :: "raft_log_id \<Rightarrow> 'm meta_payload \<Rightarrow> 'm meta_machine \<Rightarrow> 'm meta_machine" where
  "meta_step log_id payload mm =
     (case apply_meta_entry log_id payload mm of None \<Rightarrow> mm | Some (mm', _) \<Rightarrow> mm'\<lparr> mm_last_applied := Some log_id \<rparr>)"

lemma meta_log_id_eq [simp]: "meta_log_id_of log_id = MetaLogId log_id"
  by (simp add: meta_log_id_of_def)

lemma meta_step_control [simp]:
  "mm_control (meta_step log_id Blank_Entry mm) = mm_control mm"
  "mm_control (meta_step log_id (Membership_Entry membership) mm) = mm_control mm"
  "mm_control (meta_step log_id (Meta_Entry (MetaControl command)) mm) =
     fst (apply_control (MetaLogId log_id) command (mm_control mm))"
  "mm_control (meta_step log_id (Meta_Entry (MetaNewHistory history previous kept leader cause)) mm) =
     (if history_applies (case mm_history mm of None \<Rightarrow> 0 | Some event \<Rightarrow> he_id event) log_id previous leader
      then fst (begin_history (MetaLogId log_id) cause (mm_control mm)) else mm_control mm)"
  by (simp_all add: meta_step_def Let_def case_prod_beta)

lemma meta_step_applied [simp]:
  "payload_typed payload \<Longrightarrow> mm_last_applied (meta_step log_id payload mm) = Some log_id"
  by (cases payload rule: payload_typed.cases) (simp_all add: meta_step_def Let_def case_prod_beta)

lemma meta_replay_Nil [simp]: "meta_replay [] mm = mm"
  by (simp add: meta_replay_def)

lemma meta_replay_Cons [simp]:
  "payload_typed payload \<Longrightarrow> meta_replay ((log_id, payload) # log) mm = meta_replay log (meta_step log_id payload mm)"
  by (cases payload) (auto simp: meta_replay_def meta_step_def split: option.splits prod.splits)

lemma meta_log_typed_simps [simp]:
  "meta_log_typed []"
  "meta_log_typed ((log_id, payload) # log) = (payload_typed payload \<and> meta_log_typed log)"
  "meta_log_typed (log @ log') = (meta_log_typed log \<and> meta_log_typed log')"
  by (auto simp: meta_log_typed_def)

lemma meta_replay_append: "meta_log_typed log \<Longrightarrow> meta_replay (log @ log') mm = meta_replay log' (meta_replay log mm)"
  by (induction log arbitrary: mm) auto

lemma meta_replay_induct [consumes 1, case_names Nil step]:
  assumes "meta_log_typed log" "P [] mm"
    and "\<And>log log_id payload. meta_log_typed log \<Longrightarrow> payload_typed payload \<Longrightarrow> P log (meta_replay log mm) \<Longrightarrow>
      P (log @ [(log_id, payload)]) (meta_step log_id payload (meta_replay log mm))"
  shows "P log (meta_replay log mm)"
  using assms(1)
proof (induction log rule: rev_induct)
  case (snoc e log)
  obtain log_id payload where e: "e = (log_id, payload)" by (cases e)
  with snoc have "P log (meta_replay log mm)" "payload_typed payload" "meta_log_typed log" by auto
  then show ?case using assms(3) by (simp add: e meta_replay_append)
qed (use assms(2) in simp)

section \<open>Invariants of the kernel over a log\<close>

locale control_invariant =
  fixes inv :: "control_plane_state \<Rightarrow> bool"
  assumes default_law: "inv default_state"
    and apply_law: "inv s \<Longrightarrow> state_ok s \<Longrightarrow> command_typed command \<Longrightarrow> inv (fst (apply_control at command s))"
    and history_law: "inv s \<Longrightarrow> state_ok s \<Longrightarrow> inv (fst (begin_history at cause s))"
begin

lemma step_keeps:
  assumes "inv (mm_control mm)" "state_ok (mm_control mm)" "payload_typed payload"
  shows "inv (mm_control (meta_step log_id payload mm)) \<and> state_ok (mm_control (meta_step log_id payload mm))"
  using assms by (cases payload rule: payload_typed.cases) (simp_all add: apply_law history_law apply_control_ok begin_history_ok)

lemma log_keeps:
  assumes "meta_log_typed log"
  shows "inv (mm_control (meta_replay log (new_meta_machine m))) \<and> state_ok (mm_control (meta_replay log (new_meta_machine m)))"
proof (rule meta_replay_induct[OF assms, where P = "\<lambda>_ mm. inv (mm_control mm) \<and> state_ok (mm_control mm)"])
  show "inv (mm_control (new_meta_machine m)) \<and> state_ok (mm_control (new_meta_machine m))"
    by (simp add: new_meta_machine_def default_law) (simp add: default_state_def)
qed (use step_keeps in blast)

end

interpretation control: control_invariant state_ok
proof unfold_locales
  show "state_ok default_state" by (simp add: default_state_def)
qed (simp_all add: apply_control_ok begin_history_ok)

section \<open>Placement keys\<close>

definition group_at :: "control_plane_state \<Rightarrow> raft_group_id \<Rightarrow> group_placement option" where
  "group_at s g = (case state_cluster s of None \<Rightarrow> None | Some c \<Rightarrow> cl_group c g)"

definition keyed :: "meta_log_id \<Rightarrow> group_placement option \<Rightarrow> bool" where
  "keyed at p = (\<exists>q. p = Some q \<and> gp_since q = PlacementEpoch at)"

lemma remove_roleless_frame [simp]:
  "cl_groups (fst (remove_roleless_decommissioning t c)) = cl_groups c"
  "cl_params (fst (remove_roleless_decommissioning t c)) = cl_params c"
  "cl_group (fst (remove_roleless_decommissioning t c)) = cl_group c"
  by (simp_all add: remove_roleless_decommissioning_def Let_def cl_group_def fun_eq_iff)

lemma commit_group: "cl_group (fst (commit at ch c)) g = cl_group c g \<or> keyed at (cl_group (fst (commit at ch c)) g)"
  by (cases ch) (auto simp: keyed_def Let_def case_prod_beta)

lemma apply_control_group:
  "group_at (fst (apply_control at command s)) g = group_at s g \<or> keyed at (group_at (fst (apply_control at command s)) g)"
proof (cases s)
  case (Bootstrapped c)
  then show ?thesis
    using commit_group[of at _ c g] by (auto simp: apply_control_def group_at_def case_prod_beta split: sum.splits)
next
  case (Forming registered')
  then show ?thesis
    by (auto simp: apply_control_def group_at_def keyed_def cl_group_def bootstrap_cluster_def map_of_bootstrap
      split: sum.splits forming_change.splits)
qed (simp add: apply_control_def)

lemma begin_history_group:
  "group_at (fst (begin_history at cause s)) g = group_at s g \<or> keyed at (group_at (fst (begin_history at cause s)) g)"
proof (cases s)
  case (Bootstrapped c)
  have "gp_since (rekey since p) = since" for since p by (cases p) simp_all
  then show ?thesis
    using map_of_map_snd[of "\<lambda>_. rekey (PlacementEpoch at)" "cl_groups c" g] Bootstrapped
    by (cases "map_of (cl_groups c) g") (simp_all add: begin_history_def group_at_def keyed_def cl_group_def)
qed (cases cause; simp add: begin_history_def group_at_def)+

lemma meta_step_group:
  assumes "payload_typed payload"
  shows "group_at (mm_control (meta_step log_id payload mm)) g = group_at (mm_control mm) g \<or>
    keyed (MetaLogId log_id) (group_at (mm_control (meta_step log_id payload mm)) g)"
  using assms apply_control_group begin_history_group by (cases payload rule: payload_typed.cases) simp_all

lemma meta_replay_group:
  assumes "meta_log_typed log"
  shows "group_at (mm_control (meta_replay log mm)) g = group_at (mm_control mm) g \<or>
    (\<exists>log_id \<in> set (map fst log). keyed (MetaLogId log_id) (group_at (mm_control (meta_replay log mm)) g))"
  using assms
proof (induction log arbitrary: mm)
  case (Cons e log)
  obtain log_id payload where e: "e = (log_id, payload)" by (cases e)
  with Cons.prems have p: "payload_typed payload" "meta_log_typed log" by auto
  from Cons.IH[OF p(2), of "meta_step log_id payload mm"] meta_step_group[OF p(1), of log_id mm g] show ?case
    by (auto simp: e p(1))
qed simp

lemma fresh_group [simp]: "group_at (mm_control (new_meta_machine m)) g = None"
  by (simp add: group_at_def new_meta_machine_def default_state_def)

lemma key_logged:
  assumes "meta_log_typed log" "group_at (mm_control (meta_replay log (new_meta_machine m))) g = Some p"
  shows "\<exists>log_id \<in> set (map fst log). gp_since p = PlacementEpoch (MetaLogId log_id)"
  using meta_replay_group[OF assms(1), of "new_meta_machine m" g] assms(2) by (auto simp: keyed_def)

lemma key_identifies:
  assumes typed: "meta_log_typed (pre @ post)" and sorted: "sorted_wrt (<) (map fst (pre @ post))"
    and p: "group_at (mm_control (meta_replay pre (new_meta_machine m))) g = Some p"
    and q: "group_at (mm_control (meta_replay (pre @ post) (new_meta_machine m))) g = Some q"
    and key: "gp_since q = gp_since p"
  shows "q = p"
proof -
  have t: "meta_log_typed pre" "meta_log_typed post" using typed by simp_all
  obtain i where i: "i \<in> set (map fst pre)" "gp_since p = PlacementEpoch (MetaLogId i)" using key_logged[OF t(1) p] by blast
  have "i < j" if "j \<in> set (map fst post)" for j using sorted that i(1) by (auto simp: sorted_wrt_append)
  then have "\<not> keyed (MetaLogId j) (Some q)" if "j \<in> set (map fst post)" for j using that i(2) key by (auto simp: keyed_def)
  then show ?thesis
    using meta_replay_group[OF t(2), of "meta_replay pre (new_meta_machine m)" g] p q t(1) by (auto simp: meta_replay_append)
qed

section \<open>The life of a node record\<close>

definition node_at :: "control_plane_state \<Rightarrow> node_id \<Rightarrow> node_record option" where
  "node_at s n = (case state_cluster s of None \<Rightarrow> None | Some c \<Rightarrow> cl_node c n)"

inductive life_step :: "node_record option \<Rightarrow> node_record option \<Rightarrow> bool" where
  same: "life_step r r"
| join: "life_step None (Some \<lparr> nr_lifecycle = Active, nr_since_ms = t, nr_root = slot \<rparr>)"
| change: "has_life (nr_lifecycle r) \<Longrightarrow> has_life l \<Longrightarrow> \<not> (nr_lifecycle r = Decommissioning \<and> l = Cordoned) \<Longrightarrow>
    life_step (Some r) (Some \<lparr> nr_lifecycle = l, nr_since_ms = t, nr_root = nr_root r \<rparr>)"
| remove: "has_life (nr_lifecycle r) \<Longrightarrow>
    life_step (Some r) (Some \<lparr> nr_lifecycle = Removed, nr_since_ms = t, nr_root = nr_root r \<rparr>)"
| release: "has_life (nr_lifecycle r) \<Longrightarrow> nr_root r = Bound root \<Longrightarrow> life_step (Some r) (Some (r\<lparr> nr_root := Released root \<rparr>))"
| rebind: "has_life (nr_lifecycle r) \<Longrightarrow> nr_root r = Released root \<Longrightarrow> root' \<noteq> root \<Longrightarrow>
    life_step (Some r) (Some (r\<lparr> nr_root := Bound root' \<rparr>))"
| vacate: "nr_lifecycle r = Removed \<Longrightarrow>
    life_step (Some r) (Some \<lparr> nr_lifecycle = Vacant, nr_since_ms = t, nr_root = Released (slot_root (nr_root r)) \<rparr>)"
| rejoin: "nr_lifecycle r = Vacant \<Longrightarrow> nr_root r = Released root \<Longrightarrow> root' \<noteq> root \<Longrightarrow>
    life_step (Some r) (Some \<lparr> nr_lifecycle = Active, nr_since_ms = t, nr_root = Bound root' \<rparr>)"

text \<open>A vacant id's slot names a released root.\<close>

fun vacant_ok :: "control_plane_state \<Rightarrow> bool" where
  "vacant_ok (Bootstrapped c) = (\<forall>n r. cl_node c n = Some r \<and> nr_lifecycle r = Vacant \<longrightarrow> nr_root r = Released (slot_root (nr_root r)))"
| "vacant_ok _ = True"

lemma remove_roleless_node:
  assumes "distinct (map fst (cl_nodes c))"
  shows "cl_node (fst (remove_roleless_decommissioning t c)) n = cl_node c n \<or>
    (\<exists>r. cl_node c n = Some r \<and> nr_lifecycle r = Decommissioning \<and>
      cl_node (fst (remove_roleless_decommissioning t c)) n = Some \<lparr> nr_lifecycle = Removed, nr_since_ms = t, nr_root = nr_root r \<rparr>)"
proof -
  define removed where "removed = set (map fst (filter
    (\<lambda>(n, r). nr_lifecycle r = Decommissioning \<and> \<not> has_any_role c n) (btree_iter (cl_nodes c))))"
  let ?f = "\<lambda>n r. if n \<in> removed then \<lparr> nr_lifecycle = Removed, nr_since_ms = t, nr_root = nr_root r \<rparr> else r"
  have eq: "cl_node (fst (remove_roleless_decommissioning t c)) n = map_option (?f n) (cl_node c n)"
    using map_of_map_snd[of ?f "cl_nodes c" n]
    unfolding remove_roleless_decommissioning_def Let_def removed_def[symmetric] by (simp add: cl_node_def)
  have dec: "nr_lifecycle r = Decommissioning" if "n \<in> removed" "cl_node c n = Some r" for r
  proof -
    from that(1) obtain b where "(n, b) \<in> set (cl_nodes c)" "nr_lifecycle b = Decommissioning" by (auto simp: removed_def)
    with that(2) show ?thesis using map_of_in_set[OF assms, of n b] by (simp add: cl_node_def)
  qed
  show ?thesis using eq dec by (cases "cl_node c n") simp_all
qed

lemma remove_decommissioning:
  "nr_lifecycle r = Decommissioning \<Longrightarrow>
    life_step (Some r) (Some \<lparr> nr_lifecycle = Removed, nr_since_ms = t, nr_root = nr_root r \<rparr>)"
  by (rule remove) simp

lemma commit_life:
  assumes ok: "cluster_ok c" and vacant: "vacant_ok (Bootstrapped c)" and ch: "change_ok c ch"
  shows "life_step (cl_node c n) (cl_node (fst (commit at ch c)) n)"
proof (cases ch)
  case (Change_Register k root t)
  consider "cl_node c k = None" | r where "cl_node c k = Some r" "nr_lifecycle r = Vacant"
    "register_slot k (Some (nr_root r)) root True = Inr (Bound root)"
    using ch Change_Register by auto
  then show ?thesis
  proof cases
    case 1
    with Change_Register show ?thesis by (auto simp: Let_def intro: same join)
  next
    case (2 r)
    then have "nr_root r = Released (slot_root (nr_root r))" using vacant by auto
    with 2 have "slot_root (nr_root r) \<noteq> root" by (cases "nr_root r") (auto simp: register_slot_def split: if_splits)
    with 2 Change_Register \<open>nr_root r = _\<close> show ?thesis by (auto simp: Let_def intro: same rejoin)
  qed
next
  case (Change_Converge g at' voters retired t)
  let ?c = "(insert_group g (Live (PlacementEpoch at) at' (Stable voters)) c)
    \<lparr> cl_retirements := insert_retirements at g retired (cl_retirements c) \<rparr>"
  have "distinct (map fst (cl_nodes ?c))" using ok by (simp add: cluster_parts)
  from remove_roleless_node[OF this, of t n] show ?thesis
    by (auto simp: Change_Converge Let_def case_prod_beta intro: same remove_decommissioning)
next
  case (Change_Lifecycle k r)
  then obtain old where old: "cl_node c k = Some old" "has_life (nr_lifecycle old)" "has_life (nr_lifecycle r)"
    "nr_root r = nr_root old" "\<not> (nr_lifecycle old = Decommissioning \<and> nr_lifecycle r = Cordoned)"
    using ch by auto
  have r: "r = \<lparr> nr_lifecycle = nr_lifecycle r, nr_since_ms = nr_since_ms r, nr_root = nr_root old \<rparr>" using old by simp
  have here: "life_step (Some old) (Some r)" using change[OF old(2,3,5), of "nr_since_ms r"] r by simp
  have "distinct (map fst (cl_nodes (insert_node k r c)))" using ok by (simp add: cluster_parts insert_node_def)
  from remove_roleless_node[OF this, of "nr_since_ms r" n] show ?thesis
    using here old remove[OF old(2)]
    by (auto simp: Change_Lifecycle case_prod_beta intro: same remove_decommissioning split: if_splits)
next
  case (Change_Rebind k r)
  with ch show ?thesis by (auto simp: Let_def intro: same rebind)
next
  case (Change_Release k r)
  with ch show ?thesis by (auto intro: same release)
next
  case (Change_Vacate k r)
  with ch show ?thesis by (auto intro: same vacate)
qed (simp_all add: same Let_def)

lemma life_step_vacant:
  "life_step r r' \<Longrightarrow> (\<And>q. r = Some q \<Longrightarrow> nr_lifecycle q = Vacant \<Longrightarrow> nr_root q = Released (slot_root (nr_root q))) \<Longrightarrow>
    r' = Some q' \<Longrightarrow> nr_lifecycle q' = Vacant \<Longrightarrow> nr_root q' = Released (slot_root (nr_root q'))"
  by (induction rule: life_step.induct) auto

lemma apply_control_life:
  assumes "state_ok s" "vacant_ok s" "command_typed command"
  shows "life_step (node_at s n) (node_at (fst (apply_control at command s)) n)"
proof (cases s)
  case (Bootstrapped c)
  show ?thesis
  proof (cases "plan_cluster c command")
    case (Inr ch)
    with commit_life[OF _ _ plan_cluster_ok[OF Inr], of n at] assms Bootstrapped show ?thesis
      by (simp add: apply_control_def node_at_def case_prod_beta)
  qed (simp add: Bootstrapped apply_control_def life_step.same)
next
  case (Forming registered')
  have "life_step None (cl_node (bootstrap_cluster at' registered' params nodes t) n)" for at' params nodes t
    using map_of_map_snd[of "\<lambda>_ r. \<lparr> nr_lifecycle = Active, nr_since_ms = t, nr_root = rg_root r \<rparr>" registered' n]
    by (cases "map_of registered' n") (auto simp: cl_node_def bootstrap_cluster_def intro: same join)
  then show ?thesis
    by (auto simp: Forming apply_control_def node_at_def intro: life_step.same split: sum.splits forming_change.splits)
qed (simp add: apply_control_def life_step.same)

lemma begin_history_life: "node_at (fst (begin_history at cause s)) n = node_at s n"
  by (cases s; cases cause) (simp_all add: begin_history_def node_at_def cl_node_def)

lemma vacant_ok_nodes:
  "vacant_ok s \<longleftrightarrow> (\<forall>n r. node_at s n = Some r \<and> nr_lifecycle r = Vacant \<longrightarrow> nr_root r = Released (slot_root (nr_root r)))"
  by (cases s) (simp_all add: node_at_def)

interpretation vacant: control_invariant vacant_ok
proof unfold_locales
  show "vacant_ok (fst (apply_control at command s))" if "vacant_ok s" "state_ok s" "command_typed command" for s command at
    using life_step_vacant[OF apply_control_life[OF that(2,1,3)]] that(1) unfolding vacant_ok_nodes by blast
  show "vacant_ok (fst (begin_history at cause s))" if "vacant_ok s" for s at cause
    using that by (simp add: vacant_ok_nodes begin_history_life)
qed (simp add: default_state_def)

end
