(* ===== verification/Control_Properties.thy ===== *)
theory Control_Properties
  imports Meta_Log
begin

text \<open>
  The properties of the control plane over any log of the meta group, and a small cluster their
  witnesses evaluate.
\<close>

section \<open>A sample cluster\<close>

definition sample_leader_id :: history_leader where
  "sample_leader_id = \<lparr> hl_term = 1, hl_node_id = 1 \<rparr>"

definition pair_nodes :: node_set where
  "pair_nodes = \<lparr> ns_min = 1, ns_rest = {2} \<rparr>"

definition sample_params :: cluster_params where
  "sample_params = \<lparr> cp_group_count = 2, cp_replication_factor = 1, cp_meta_voters = ns_single 1, cp_max_concurrent_moves = 1 \<rparr>"

definition sample_meta_log :: "(raft_log_id \<times> unit meta_payload) list" where
  "sample_meta_log =
     [(RaftLogId 1 1 1, Meta_Entry (MetaNewHistory 5 0 0 sample_leader_id Genesis)),
      (RaftLogId 1 1 2, Meta_Entry (MetaControl (RegisterNode 1 11 True 100))),
      (RaftLogId 1 1 3, Meta_Entry (MetaControl (RegisterNode 2 12 True 101))),
      (RaftLogId 1 1 4, Meta_Entry (MetaControl (Bootstrap sample_params pair_nodes 102)))]"

definition meta_entry_id :: "u64 \<Rightarrow> meta_log_id" where
  "meta_entry_id i = MetaLogId (RaftLogId 1 1 i)"

definition sample_cluster :: cluster where
  "sample_cluster =
     \<lparr> cl_params = sample_params,
       cl_nodes = [(1, \<lparr> nr_lifecycle = Active, nr_since_ms = 102, nr_root = Bound 11 \<rparr>),
                   (2, \<lparr> nr_lifecycle = Active, nr_since_ms = 102, nr_root = Bound 12 \<rparr>)],
       cl_groups = [(0, Seeded (PlacementEpoch (meta_entry_id 4)) (ns_single 1) 1),
                    (1, Seeded (PlacementEpoch (meta_entry_id 4)) (ns_single 2) 2)],
       cl_retirements = [] \<rparr>"

lemma pair_nodes_simps [simp]: "ns_ok pair_nodes" "ns_to_set pair_nodes = {1, 2}" "ns_iter pair_nodes = [1, 2]" "ns_len pair_nodes = 2"
  by (auto simp: pair_nodes_def ns_ok_def ns_to_set_def ns_iter_def ns_len_def sat_add_def u64_max_def)

lemma ns_single_simps [simp]: "ns_iter (ns_single i) = [i]" "ns_len (ns_single i) = 1"
  by (simp_all add: ns_single_def ns_iter_def ns_len_def sat_add_def u64_max_def)

lemma ns_from_first_single: "ns_from_first i [i] = ns_single i"
  by (simp add: ns_from_first_def ns_single_def)

lemma sample_bootstrap:
  "bootstrap_cluster (meta_entry_id 4)
     [(1, \<lparr> rg_since_ms = 100, rg_root = Bound 11 \<rparr>), (2, \<lparr> rg_since_ms = 101, rg_root = Bound 12 \<rparr>)]
     sample_params pair_nodes 102 = sample_cluster"
  by (simp add: bootstrap_cluster_def sample_cluster_def sample_params_def Let_def group_ids_def upt_rec[of 0 2] upt_rec[of 1 2]
    seed_voters_def initializer_def rotation_start_def cycle_window_def ns_from_first_single numeral_2_eq_2)

lemma sample_params_typed [simp]: "params_typed sample_params"
  by (simp add: sample_params_def params_typed_def)

lemma sample_meta_typed: "meta_log_typed sample_meta_log"
  by (simp add: sample_meta_log_def)

lemma sample_meta_control:
  "mm_control (meta_replay sample_meta_log (new_meta_machine ())) = Bootstrapped sample_cluster"
proof -
  have check: "check_bootstrap [(1, \<lparr> rg_since_ms = 100, rg_root = Bound 11 \<rparr>), (2, \<lparr> rg_since_ms = 101, rg_root = Bound 12 \<rparr>)]
      sample_params pair_nodes = None"
    by (simp add: check_bootstrap_def sample_params_def group_count_within_bound_def max_group_count_def)
  show ?thesis
    using sample_bootstrap check
    by (simp add: sample_meta_log_def new_meta_machine_def default_state_def history_applies_def sample_leader_id_def
      begin_history_def apply_control_def plan_forming_def meta_entry_id_def)
qed

lemma sample_clusters [simp]:
  "state_cluster (mm_control (meta_replay sample_meta_log (new_meta_machine ()))) = Some sample_cluster"
  "cl_group sample_cluster 0 = Some (Seeded (PlacementEpoch (meta_entry_id 4)) (ns_single 1) 1)"
  "cl_params sample_cluster = sample_params"
  "cl_node sample_cluster 1 = Some \<lparr> nr_lifecycle = Active, nr_since_ms = 102, nr_root = Bound 11 \<rparr>"
  by (simp_all add: sample_meta_control) (simp_all add: sample_cluster_def cl_group_def cl_node_def)

section \<open>The invariant\<close>

text \<open>C5.  After any log of the meta group every group of a bootstrapped cluster is placed: there is one
  placement for each group id, its current and its target voters are as many as the replication
  factor, and every node with a role in it is in a life.  No node owes a teardown in a group it has
  a role in, a decommissioning node always has a role, and a meta voter is always active or
  cordoned, so it is never decommissioned or removed.\<close>

theorem meta_log_keeps_placements:
  fixes log :: "(raft_log_id \<times> 'm meta_payload) list"
  assumes "meta_log_typed log" and "state_cluster (mm_control (meta_replay log (new_meta_machine m))) = Some c"
  shows "(map fst (cl_groups c) = [0 ..< cp_group_count (cl_params c)] \<and> cp_group_count (cl_params c) \<le> 4096) \<and>
    (\<forall>g p. cl_group c g = Some p \<longrightarrow>
      card (ns_to_set (current_voters p)) = cp_replication_factor (cl_params c) \<and>
      card (ns_to_set (target_voters p)) = cp_replication_factor (cl_params c) \<and>
      (\<forall>n. placement_role p n \<noteq> None \<longrightarrow> (\<exists>r. cl_node c n = Some r \<and> has_life (nr_lifecycle r)))) \<and>
    (\<forall>g n. cl_retirement c g n \<noteq> None \<longrightarrow> cl_role c g n = None \<and> (\<exists>r. cl_node c n = Some r \<and> has_life (nr_lifecycle r))) \<and>
    (\<forall>n r. cl_node c n = Some r \<and> nr_lifecycle r = Decommissioning \<longrightarrow> has_any_role c n) \<and>
    (\<forall>n \<in> ns_to_set (cp_meta_voters (cl_params c)). \<exists>r. cl_node c n = Some r \<and> nr_lifecycle r \<in> {Active, Cordoned})"
proof -
  have "state_ok (mm_control (meta_replay log (new_meta_machine m)))" using control.log_keeps[OF assms(1)] by blast
  with assms(2) have ok: "cluster_ok c" by (cases "mm_control (meta_replay log (new_meta_machine m))") simp_all
  then have groups: "groups_ok c" and owed: "owed_ok c" and typed: "params_typed (cl_params c)" by (simp_all add: cluster_ok_def)
  have c1: "map fst (cl_groups c) = [0 ..< cp_group_count (cl_params c)] \<and> cp_group_count (cl_params c) \<le> 4096"
    using ok by (simp add: cluster_parts group_ids_def max_group_count_def)
  have c2: "\<forall>g p. cl_group c g = Some p \<longrightarrow>
      card (ns_to_set (current_voters p)) = cp_replication_factor (cl_params c) \<and>
      card (ns_to_set (target_voters p)) = cp_replication_factor (cl_params c) \<and>
      (\<forall>n. placement_role p n \<noteq> None \<longrightarrow> (\<exists>r. cl_node c n = Some r \<and> has_life (nr_lifecycle r)))"
  proof (intro allI impI)
    fix g p assume p: "cl_group c g = Some p"
    let ?rf = "cp_replication_factor (cl_params c)"
    have p_ok: "placement_ok ?rf p" and lives: "\<And>n. n \<in> roles p \<Longrightarrow> node_lives c n"
      using groups p by (auto simp: groups_ok_def)
    have len: "ns_ok s \<Longrightarrow> ns_len s = ?rf \<Longrightarrow> card (ns_to_set s) = ?rf" for s
      using ns_len_exact[of s] typed by (simp add: params_typed_def u64_max_def)
    have "card (ns_to_set (current_voters p)) = ?rf" "card (ns_to_set (target_voters p)) = ?rf"
      using p_ok by (cases "(?rf, p)" rule: placement_ok.cases; simp add: len)+
    then show "card (ns_to_set (current_voters p)) = ?rf \<and> card (ns_to_set (target_voters p)) = ?rf \<and>
        (\<forall>n. placement_role p n \<noteq> None \<longrightarrow> (\<exists>r. cl_node c n = Some r \<and> has_life (nr_lifecycle r)))"
      using lives by (simp add: roles_def node_lives_def)
  qed
  have c3: "\<forall>g n. cl_retirement c g n \<noteq> None \<longrightarrow> cl_role c g n = None \<and> (\<exists>r. cl_node c n = Some r \<and> has_life (nr_lifecycle r))"
  proof (intro allI impI)
    fix g n assume rt: "cl_retirement c g n \<noteq> None"
    with owed obtain s a t where "cl_group c g = Some (Live s a t)" "n \<notin> roles (Live s a t)" "node_lives c n"
      unfolding owed_ok_def by blast
    then show "cl_role c g n = None \<and> (\<exists>r. cl_node c n = Some r \<and> has_life (nr_lifecycle r))"
      by (simp add: cl_role_def placement_role_None node_lives_def)
  qed
  have c4: "\<forall>n r. cl_node c n = Some r \<and> nr_lifecycle r = Decommissioning \<longrightarrow> has_any_role c n"
    and c5: "\<forall>n \<in> ns_to_set (cp_meta_voters (cl_params c)). \<exists>r. cl_node c n = Some r \<and> nr_lifecycle r \<in> {Active, Cordoned}"
    using ok by (auto simp: cluster_parts)
  show ?thesis by (intro conjI[OF c1] conjI[OF c2] conjI[OF c3] conjI[OF c4] c5)
qed

theorem meta_log_keeps_placements_witness:
  "\<exists>r. cl_node sample_cluster 1 = Some r \<and> nr_lifecycle r \<in> {Active, Cordoned}"
  using meta_log_keeps_placements[OF sample_meta_typed sample_clusters(1)] by (simp add: sample_params_def)

section \<open>The placement key\<close>

text \<open>C6.  The placement key is a compare-and-set with no repeats: when a move or a converge report names
  the key of the placement that an earlier point of the log shows and a later point accepts it, the
  group still has exactly that placement there, whatever was applied in between.\<close>

theorem placement_cas:
  fixes pre post :: "(raft_log_id \<times> 'm meta_payload) list"
  assumes "meta_log_typed (pre @ post)" and "sorted_wrt (<) (map fst (pre @ post))"
    and "state_cluster (mm_control (meta_replay pre (new_meta_machine m))) = Some c" and "cl_group c g = Some p"
    and "command = RequestMove g (gp_since p) to' t \<or> command = ReportConverged g (gp_since p) voters membership t"
    and "check_control (mm_control (meta_replay (pre @ post) (new_meta_machine m))) command = None"
  shows "\<exists>c'. state_cluster (mm_control (meta_replay (pre @ post) (new_meta_machine m))) = Some c' \<and> cl_group c' g = Some p"
proof (cases "mm_control (meta_replay (pre @ post) (new_meta_machine m))")
  case (Bootstrapped c')
  with assms(5,6) obtain q where q: "cl_group c' g = Some q" "gp_since q = gp_since p"
    by (auto simp: check_control_def plan_cluster_def plan_move_def plan_converge_def Let_def
      split: option.splits sum.splits if_splits group_placement.splits)
  have "q = p"
    by (rule key_identifies[OF assms(1,2), of m g]) (use assms(3,4) Bootstrapped q in \<open>simp_all add: group_at_def\<close>)
  with Bootstrapped q show ?thesis by simp
qed (use assms(5,6) in \<open>auto simp: check_control_def plan_forming_def\<close>)

theorem placement_cas_witness:
  "\<exists>c'. state_cluster (mm_control (meta_replay (sample_meta_log @ [(RaftLogId 1 1 5, Blank_Entry)]) (new_meta_machine ()))) = Some c' \<and>
     cl_group c' 0 = Some (Seeded (PlacementEpoch (meta_entry_id 4)) (ns_single 1) 1)"
proof (rule placement_cas[OF _ _ sample_clusters(1,2), where command = "ReportConverged 0 (PlacementEpoch (meta_entry_id 4)) (ns_single 1)
    (MembershipLogId (RaftLogId 1 1 2)) 200"])
  show "meta_log_typed (sample_meta_log @ [(RaftLogId 1 1 5, Blank_Entry)])" by (simp add: sample_meta_typed)
  show "sorted_wrt (<) (map fst (sample_meta_log @ [(RaftLogId 1 1 5, Blank_Entry)]))"
    by (simp add: sample_meta_log_def less_raft_log_id_def)
  show "check_control (mm_control (meta_replay (sample_meta_log @ [(RaftLogId 1 1 5, Blank_Entry)]) (new_meta_machine ())))
      (ReportConverged 0 (PlacementEpoch (meta_entry_id 4)) (ns_single 1) (MembershipLogId (RaftLogId 1 1 2)) 200) = None"
    by (simp add: meta_replay_append sample_meta_typed sample_meta_control check_control_def plan_cluster_def plan_converge_def
      check_reported_def check_life_def sample_params_def flip: One_nat_def)
qed simp

section \<open>The life of a node id\<close>

text \<open>C18.  Every entry moves a node's record along the life cycle of its id: a record never disappears, a
  removed node's id turns vacant only with its root released, and a new life of the id, like a new
  disk of a living one, begins only on a root other than the one released before it.\<close>

theorem node_records_live:
  fixes log :: "(raft_log_id \<times> 'm meta_payload) list"
  assumes "meta_log_typed (log @ [(log_id, payload)])"
  shows "life_step (node_at (mm_control (meta_replay log (new_meta_machine m))) n)
    (node_at (mm_control (meta_replay (log @ [(log_id, payload)]) (new_meta_machine m))) n)"
proof -
  have typed: "meta_log_typed log" "payload_typed payload" using assms by simp_all
  note ok = vacant.log_keeps[OF typed(1), of m]
  show ?thesis
    using typed(2) apply_control_life[OF conjunct2[OF ok] conjunct1[OF ok], of _ n "MetaLogId log_id"]
    by (cases payload rule: payload_typed.cases)
      (simp_all add: meta_replay_append[OF typed(1)] life_step.same begin_history_life)
qed

theorem node_records_live_witness:
  "life_step (node_at (mm_control (meta_replay sample_meta_log (new_meta_machine ()))) 1)
     (node_at (mm_control (meta_replay (sample_meta_log @ [(RaftLogId 1 1 5, Meta_Entry (MetaControl (ReleaseRoot 1 11)))])
        (new_meta_machine ()))) 1)"
  by (rule node_records_live) (simp add: sample_meta_typed)

end
