(* ===== verification/Control_Clock.thy ===== *)
theory Control_Clock
  imports Control_Invariant
begin

text \<open>
  The times of commands and records are display only: the dispatcher decides the same whatever they
  are.  Erasing every time from a state and a command commutes with applying the command.
\<close>

definition untimed_record :: "node_record \<Rightarrow> node_record" where
  "untimed_record r = r\<lparr> nr_since_ms := 0 \<rparr>"

definition untimed_registration :: "registration \<Rightarrow> registration" where
  "untimed_registration r = r\<lparr> rg_since_ms := 0 \<rparr>"

definition untimed_move :: "move \<Rightarrow> move" where
  "untimed_move mv = mv\<lparr> mv_since_ms := 0 \<rparr>"

fun untimed_target :: "target \<Rightarrow> target" where
  "untimed_target (Stable voters) = Stable voters"
| "untimed_target (Moving mv) = Moving (untimed_move mv)"

fun untimed_placement :: "group_placement \<Rightarrow> group_placement" where
  "untimed_placement (Seeded since voters first) = Seeded since voters first"
| "untimed_placement (Live since at t) = Live since at (untimed_target t)"

definition map_values :: "('v \<Rightarrow> 'w) \<Rightarrow> ('k \<times> 'v) list \<Rightarrow> ('k \<times> 'w) list" where
  "map_values f m = map (\<lambda>(k, v). (k, f v)) m"

definition untimed_cluster :: "cluster \<Rightarrow> cluster" where
  "untimed_cluster c = c\<lparr> cl_nodes := map_values untimed_record (cl_nodes c),
     cl_groups := map_values untimed_placement (cl_groups c) \<rparr>"

fun untimed_state :: "control_plane_state \<Rightarrow> control_plane_state" where
  "untimed_state (Forming registered') = Forming (map_values untimed_registration registered')"
| "untimed_state FormationCut = FormationCut"
| "untimed_state (Bootstrapped c) = Bootstrapped (untimed_cluster c)"

fun untimed_command :: "control_command \<Rightarrow> control_command" where
  "untimed_command (RegisterNode n root e _) = RegisterNode n root e 0"
| "untimed_command (Bootstrap params nodes _) = Bootstrap params nodes 0"
| "untimed_command (RequestMove g e to' _) = RequestMove g e to' 0"
| "untimed_command (ReportConverged g e voters at _) = ReportConverged g e voters at 0"
| "untimed_command (SetNodeLifecycle n l _) = SetNodeLifecycle n l 0"
| "untimed_command (ReportRemovalComplete n root _) = ReportRemovalComplete n root 0"
| "untimed_command command = command"

fun untimed_error :: "control_error \<Rightarrow> control_error" where
  "untimed_error (StalePlacement g p) = StalePlacement g (untimed_placement p)"
| "untimed_error e = e"

fun untimed_registered :: "registered \<Rightarrow> registered" where
  "untimed_registered Forming_Node = Forming_Node"
| "untimed_registered (Referenced r) = Referenced (untimed_record r)"
| "untimed_registered (Unreferenced r) = Unreferenced (untimed_record r)"

fun untimed_applied :: "control_applied \<Rightarrow> control_applied" where
  "untimed_applied (NodeRegistered r) = NodeRegistered (untimed_registered r)"
| "untimed_applied (RootReleased r) = RootReleased (untimed_record r)"
| "untimed_applied (RemovalCompleted r) = RemovalCompleted (untimed_record r)"
| "untimed_applied a = a"

fun untimed_change :: "change \<Rightarrow> change" where
  "untimed_change (Change_Nothing a) = Change_Nothing (untimed_applied a)"
| "untimed_change (Change_Register n root _) = Change_Register n root 0"
| "untimed_change (Change_Rebind n r) = Change_Rebind n (untimed_record r)"
| "untimed_change (Change_Release n r) = Change_Release n (untimed_record r)"
| "untimed_change (Change_Vacate n r) = Change_Vacate n (untimed_record r)"
| "untimed_change (Change_Move g at mv) = Change_Move g at (untimed_move mv)"
| "untimed_change (Change_Converge g at voters retired _) = Change_Converge g at voters retired 0"
| "untimed_change (Change_Lifecycle n r) = Change_Lifecycle n (untimed_record r)"
| "untimed_change (Change_MoveLimit l) = Change_MoveLimit l"
| "untimed_change (Change_TornDown g n) = Change_TornDown g n"

fun untimed_forming :: "forming_change \<Rightarrow> forming_change" where
  "untimed_forming (FormingNothing a) = FormingNothing (untimed_applied a)"
| "untimed_forming (FormingRegister n root _) = FormingRegister n root 0"
| "untimed_forming (FormingSlot n r a) = FormingSlot n (untimed_registration r) (untimed_applied a)"
| "untimed_forming (FormingBootstrap params nodes _) = FormingBootstrap params nodes 0"

section \<open>Lookups\<close>

lemma map_of_map_values [simp]: "map_of (map_values f m) k = map_option f (map_of m k)"
  by (induction m) (auto simp: map_values_def)

lemma update_map_values: "AList.update k (f v) (map_values f m) = map_values f (AList.update k v m)"
  by (induction m) (auto simp: map_values_def)

lemma set_map_values: "set (map_values f m) = (\<lambda>(k, v). (k, f v)) ` set m"
  by (simp add: map_values_def)

lemma untimed_record_simps [simp]:
  "nr_lifecycle (untimed_record r) = nr_lifecycle r" "nr_root (untimed_record r) = nr_root r"
  "nr_since_ms (untimed_record r) = 0"
  by (simp_all add: untimed_record_def)

lemma untimed_target_voters [simp]: "target_voters (untimed_placement p) = target_voters p"
  by (cases p; cases "gp_target p") (auto simp: untimed_move_def)

lemma untimed_current_voters [simp]: "current_voters (untimed_placement p) = current_voters p"
  by (cases p; cases "gp_target p") (auto simp: untimed_move_def)

lemma untimed_role [simp]: "placement_role (untimed_placement p) n = placement_role p n"
  by (cases p; cases "gp_target p") (auto simp: untimed_move_def)

lemma untimed_moving [simp]: "placement_moving (untimed_placement p) = None \<longleftrightarrow> placement_moving p = None"
  by (cases p; cases "gp_target p") auto

lemma untimed_since [simp]: "gp_since (untimed_placement p) = gp_since p"
  by (cases p) auto

lemma untimed_node [simp]: "cl_node (untimed_cluster c) n = map_option untimed_record (cl_node c n)"
  by (simp add: cl_node_def untimed_cluster_def)

lemma untimed_group [simp]: "cl_group (untimed_cluster c) g = map_option untimed_placement (cl_group c g)"
  by (simp add: cl_group_def untimed_cluster_def)

lemma untimed_simps [simp]:
  "cl_params (untimed_cluster c) = cl_params c" "cl_retirements (untimed_cluster c) = cl_retirements c"
  "cl_retirement (untimed_cluster c) g n = cl_retirement c g n"
  by (simp_all add: untimed_cluster_def cl_retirement_def)

lemma untimed_nodes: "cl_nodes (untimed_cluster c) = map_values untimed_record (cl_nodes c)"
  by (simp add: untimed_cluster_def)

lemma untimed_any_role [simp]: "has_any_role (untimed_cluster c) n = has_any_role c n"
  by (force simp: has_any_role_def list_ex_iff untimed_cluster_def set_map_values)

lemma length_filter_iter: "length (filter P (btree_iter m)) = length (filter P m)"
  by (metis btree_iter_mset mset_filter size_mset)

lemma untimed_count [simp]: "cl_moving (untimed_cluster c) = cl_moving c"
  unfolding cl_moving_def length_filter_iter
  by (simp add: untimed_cluster_def map_values_def filter_map comp_def case_prod_beta' del: not_None_eq)

lemma untimed_registered_of: "registered_of (untimed_cluster c) n (untimed_record r) = untimed_registered (registered_of c n r)"
  by (simp add: registered_of_def)

lemma untimed_check_target [simp]: "check_target (untimed_cluster c) g n voters = check_target c g n voters"
  by (cases "cl_node c n") (auto simp: check_target_def check_life_def)

lemma untimed_check_reported [simp]: "check_reported (untimed_cluster c) = check_reported c"
  by (auto simp: check_reported_def check_life_def fun_eq_iff split: option.splits)

section \<open>Planning and committing\<close>

abbreviation untimed_plan :: "control_error + change \<Rightarrow> control_error + change" where
  "untimed_plan \<equiv> map_sum untimed_error untimed_change"

lemma untimed_record_root [simp]: "(untimed_record r)\<lparr> nr_root := x \<rparr> = untimed_record (r\<lparr> nr_root := x \<rparr>)"
  by (simp add: untimed_record_def)

lemma untimed_record_make [simp]:
  "untimed_record \<lparr> nr_lifecycle = l, nr_since_ms = t, nr_root = x \<rparr> = \<lparr> nr_lifecycle = l, nr_since_ms = 0, nr_root = x \<rparr>"
  by (simp add: untimed_record_def)

lemma register_slot_error: "register_slot n slot root e = Inl err \<Longrightarrow> untimed_error err = err"
  by (auto simp: register_slot_def split: option.splits root_slot.splits if_splits)

lemma release_slot_error: "release_slot n slot root = Inl err \<Longrightarrow> untimed_error err = err"
  by (auto simp: release_slot_def split: if_splits)

lemma check_life_error: "check_life n r = Some err \<Longrightarrow> untimed_error err = err"
  by (auto simp: check_life_def split: node_lifecycle.splits)

lemma check_life_untimed [simp]: "check_life n (untimed_record r) = check_life n r"
  by (simp add: check_life_def)

lemma check_target_error: "check_target c g n voters = Some err \<Longrightarrow> untimed_error err = err"
  by (auto simp: check_target_def dest: check_life_error split: option.splits if_splits)

lemma check_reported_error: "check_reported c n = Some err \<Longrightarrow> untimed_error err = err"
  by (auto simp: check_reported_def dest: check_life_error split: option.splits)

lemma first_error_some: "first_error f xs = Some err \<Longrightarrow> \<exists>x. f x = Some err"
  by (induction xs) (auto split: option.splits)

lemmas plan_errors = register_slot_error release_slot_error check_life_error

lemma untimed_register: "plan_register (untimed_cluster c) n root e 0 = untimed_plan (plan_register c n root e t)"
  by (cases "cl_node c n") (auto simp: plan_register_def untimed_registered_of dest: plan_errors split: sum.splits)

lemma untimed_release: "plan_release (untimed_cluster c) n root = untimed_plan (plan_release c n root)"
  by (cases "cl_node c n") (auto simp: plan_release_def Let_def dest: plan_errors split: sum.splits option.splits)

lemma untimed_move: "plan_move (untimed_cluster c) g e to' 0 = untimed_plan (plan_move c g e to' t)"
proof (cases "cl_group c g")
  case (Some p)
  have err: "untimed_error err = err" if "first_error (\<lambda>n. check_target c g n voters) ns = Some err" for voters ns err
    using first_error_some[OF that] check_target_error by blast
  show ?thesis
  proof (cases p)
    case (Live since at tgt)
    then have u: "untimed_placement p = Live since at (untimed_target tgt)" by simp
    have v: "target_voters (Live since at (untimed_target tgt)) = target_voters (Live since at tgt)"
      "current_voters (Live since at (untimed_target tgt)) = current_voters (Live since at tgt)"
      using untimed_target_voters[of p] untimed_current_voters[of p] u Live by simp_all
    show ?thesis
      by (cases tgt) (auto simp: plan_move_def Some Live Let_def stale_def v[simplified] untimed_move_def dest: err split: option.splits)
  qed (simp add: plan_move_def Some)
qed (simp add: plan_move_def)

lemma untimed_converge:
  "plan_converge (untimed_cluster c) g e voters at 0 = untimed_plan (plan_converge c g e voters at t)"
proof (cases "cl_group c g")
  case (Some p)
  have err: "untimed_error err = err" if "first_error (check_reported c) ns = Some err" for ns err
    using first_error_some[OF that] check_reported_error by blast
  show ?thesis
    by (cases p; cases "gp_target p")
      (auto simp: plan_converge_def Some stale_def untimed_move_def dest: err split: option.splits)
qed (simp add: plan_converge_def)

lemma untimed_lifecycle: "plan_lifecycle (untimed_cluster c) n l 0 = untimed_plan (plan_lifecycle c n l t)"
  by (cases "cl_node c n")
    (auto simp: plan_lifecycle_def Let_def dest: plan_errors split: option.splits)

lemma untimed_torn_down: "plan_torn_down (untimed_cluster c) g n at = untimed_plan (plan_torn_down c g n at)"
  by (cases "cl_node c n") (auto simp: plan_torn_down_def dest: plan_errors split: option.splits)

lemma untimed_removal_complete:
  "plan_removal_complete (untimed_cluster c) n root 0 = untimed_plan (plan_removal_complete c n root t)"
  by (cases "cl_node c n") (auto simp: plan_removal_complete_def split: node_lifecycle.splits)

lemma untimed_plan_cluster: "plan_cluster (untimed_cluster c) (untimed_command command) = untimed_plan (plan_cluster c command)"
  by (cases command) (auto simp: plan_cluster_def untimed_register[symmetric] untimed_release untimed_move[symmetric]
    untimed_converge[symmetric] untimed_lifecycle[symmetric] untimed_torn_down untimed_removal_complete[symmetric]
    split: option.splits)

lemma untimed_insert_node: "insert_node n (untimed_record r) (untimed_cluster c) = untimed_cluster (insert_node n r c)"
  by (simp add: insert_node_def untimed_cluster_def update_map_values)

lemma untimed_insert_group:
  "insert_group g (untimed_placement p) (untimed_cluster c) = untimed_cluster (insert_group g p c)"
  by (simp add: insert_group_def untimed_cluster_def update_map_values)

lemma untimed_retirements: "(untimed_cluster c)\<lparr> cl_retirements := rs \<rparr> = untimed_cluster (c\<lparr> cl_retirements := rs \<rparr>)"
  by (simp add: untimed_cluster_def)

lemma untimed_remove:
  "remove_roleless_decommissioning 0 (untimed_cluster c) = map_prod untimed_cluster id (remove_roleless_decommissioning t c)"
proof -
  define removed where "removed = set (map fst (filter
    (\<lambda>(n, r). nr_lifecycle r = Decommissioning \<and> \<not> has_any_role c n) (btree_iter (cl_nodes c))))"
  have "set (map fst (filter (\<lambda>(n, r). nr_lifecycle r = Decommissioning \<and> \<not> has_any_role (untimed_cluster c) n)
      (btree_iter (cl_nodes (untimed_cluster c))))) = removed"
    by (force simp: removed_def untimed_nodes set_map_values)
  note eq = this
  have nodes: "map (\<lambda>(n, r). (n, if n \<in> removed then \<lparr> nr_lifecycle = Removed, nr_since_ms = 0, nr_root = nr_root r \<rparr> else r))
      (map_values untimed_record ns) =
    map_values untimed_record (map (\<lambda>(n, r).
      (n, if n \<in> removed then \<lparr> nr_lifecycle = Removed, nr_since_ms = t, nr_root = nr_root r \<rparr> else r)) ns)" for ns
    by (auto simp: map_values_def)
  show ?thesis
    unfolding remove_roleless_decommissioning_def Let_def removed_def[symmetric] eq
    unfolding untimed_nodes nodes untimed_simps by (simp add: untimed_cluster_def)
qed

lemma untimed_commit: "commit at (untimed_change ch) (untimed_cluster c) = map_prod untimed_cluster untimed_applied (commit at ch c)"
proof (cases ch)
  case (Change_Register n root t)
  then show ?thesis
    using untimed_insert_node[of n "\<lparr> nr_lifecycle = Active, nr_since_ms = t, nr_root = Bound root \<rparr>" c] by (simp add: Let_def)
next
  case (Change_Move g at' mv)
  then show ?thesis
    using untimed_insert_group[of g "Live (PlacementEpoch at) at' (Moving mv)" c] by (simp add: Let_def)
next
  case (Change_Converge g at' voters retired t)
  let ?c = "insert_group g (Live (PlacementEpoch at) at' (Stable voters)) c"
  have "insert_group g (Live (PlacementEpoch at) at' (Stable voters)) (untimed_cluster c) = untimed_cluster ?c"
    using untimed_insert_group[of g "Live (PlacementEpoch at) at' (Stable voters)" c] by simp
  then show ?thesis
    by (simp add: Change_Converge Let_def untimed_retirements untimed_remove[of _ t] case_prod_beta)
next
  case (Change_Lifecycle n r)
  then show ?thesis
    by (simp add: untimed_insert_node untimed_remove[of _ "nr_since_ms r"] case_prod_beta)
qed (simp_all add: untimed_insert_node Let_def untimed_registered_of untimed_retirements, simp add: untimed_cluster_def)

lemma untimed_check_bootstrap: "check_bootstrap (map_values f registered') params nodes = check_bootstrap registered' params nodes"
  by (simp add: check_bootstrap_def)

lemma check_bootstrap_error: "check_bootstrap registered' params nodes = Some err \<Longrightarrow> untimed_error err = err"
  by (auto simp: check_bootstrap_def split: option.splits if_splits)

lemma untimed_plan_forming:
  "plan_forming (map_values untimed_registration registered') (untimed_command command) =
    map_sum untimed_error untimed_forming (plan_forming registered' command)"
proof (cases command)
  case (RegisterNode n root e t)
  then show ?thesis
    by (cases "map_of registered' n")
      (auto simp: plan_forming_def untimed_registration_def dest: plan_errors split: sum.splits)
next
  case (ReleaseRoot n root)
  then show ?thesis
    by (cases "map_of registered' n")
      (auto simp: plan_forming_def untimed_registration_def Let_def dest: plan_errors split: sum.splits)
next
  case (Bootstrap params nodes t)
  then show ?thesis
    by (auto simp: plan_forming_def untimed_check_bootstrap dest: check_bootstrap_error split: option.splits)
qed (simp_all add: plan_forming_def)

lemma untimed_bootstrap:
  "bootstrap_cluster at (map_values untimed_registration registered') params nodes 0 =
    untimed_cluster (bootstrap_cluster at registered' params nodes t)"
  by (simp add: bootstrap_cluster_def untimed_cluster_def map_values_def Let_def untimed_registration_def case_prod_beta)

text \<open>C38.  No decision of the dispatcher reads a clock: erasing every time from the state and the command
  and then applying it gives what applying it and then erasing the times gives, state, answer and
  error alike.  Two replicas' logs that differ only in the proposers' clocks place every group alike.\<close>

theorem decisions_read_no_clock:
  "apply_control at (untimed_command command) (untimed_state s) =
    map_prod untimed_state (map_sum untimed_error untimed_applied) (apply_control at command s)"
proof (cases s)
  case (Bootstrapped c)
  then show ?thesis
    by (cases "plan_cluster c command")
      (simp_all add: apply_control_def untimed_plan_cluster untimed_commit case_prod_beta)
next
  case (Forming registered')
  show ?thesis
  proof (cases "plan_forming registered' command")
    case (Inr ch)
    have u: "plan_forming (map_values untimed_registration registered') (untimed_command command) = Inr (untimed_forming ch)"
      by (simp add: untimed_plan_forming Inr)
    show ?thesis
    proof (cases ch)
      case (FormingRegister n root t)
      then show ?thesis
        using Inr Forming u update_map_values[of n untimed_registration "\<lparr> rg_since_ms = t, rg_root = Bound root \<rparr>" registered']
        by (simp add: apply_control_def untimed_registration_def)
    next
      case (FormingBootstrap params nodes t)
      then show ?thesis using Inr Forming u untimed_bootstrap[of at registered' params nodes t] by (simp add: apply_control_def)
    qed (use Inr Forming u in \<open>simp_all add: apply_control_def update_map_values\<close>)
  qed (simp add: Forming apply_control_def untimed_plan_forming)
qed (simp add: apply_control_def)

end
