(* ===== verification/Decommission.thy ===== *)
theory Decommission
  imports Control_Invariant
begin

text \<open>
  The decommission planner (\<^verbatim>\<open>ursula-control/src/placement/decommission.rs\<close>): which moves the meta
  leader submits to empty decommissioning nodes.  The nested loops of the source are folds over the
  nodes and the groups with the planner's mutable variables as the state.
\<close>

section \<open>The planner\<close>

datatype node_eligibility = Eligible | DiskPressure | Unknown_Eligibility

datatype block_reason = NoEligibleTarget | TargetsUnderDiskPressure | Block_GroupNotLive | Unknown_Block

record blocked_move =
  bm_group :: raft_group_id
  bm_reason :: block_reason

record decommission_move =
  dm_group :: raft_group_id
  dm_expected :: placement_epoch
  dm_to :: voter_set

record decommission_plan =
  dp_moves :: "decommission_move list"
  dp_blocked :: "blocked_move list"

definition free_slots :: "u32 \<Rightarrow> u32 \<Rightarrow> u32" where
  "free_slots limit moving = (let free = limit - moving in if limit \<ge> 2 then free - 1 else free)"

definition better_target ::
  "(node_id, node_eligibility) btreemap \<Rightarrow> (node_id, usize) btreemap \<Rightarrow> node_id \<Rightarrow>
   (usize \<times> node_id) option \<Rightarrow> (usize \<times> node_id) option" where
  "better_target eligibility load node best =
     (if map_of eligibility node \<noteq> Some Eligible then best
      else let n = (case map_of load node of None \<Rightarrow> 0 | Some k \<Rightarrow> k) in
        case best of
          None \<Rightarrow> Some (n, node)
        | Some (best_count, best_node) \<Rightarrow>
            if n < best_count \<or> n = best_count \<and> node < best_node then Some (n, node) else best)"

definition choose_target ::
  "cluster \<Rightarrow> raft_group_id \<Rightarrow> voter_set \<Rightarrow> (node_id, node_eligibility) btreemap \<Rightarrow> (node_id, usize) btreemap \<Rightarrow>
   block_reason + node_id" where
  "choose_target c g voters eligibility load =
     (let qualifying = filter (\<lambda>node. \<not> ns_contains voters node \<and> check_target c g node voters = None)
            (map fst (btree_iter (cl_nodes c)))
      in case fold (better_target eligibility load) qualifying None of
           Some (_, node) \<Rightarrow> Inr node
         | None \<Rightarrow>
             Inl (if qualifying \<noteq> [] \<and> list_all (\<lambda>node. map_of eligibility node = Some DiskPressure) qualifying
                  then TargetsUnderDiskPressure else NoEligibleTarget))"

record planner =
  pl_plan :: decommission_plan
  pl_slots :: u32
  pl_load :: "(node_id, usize) btreemap"
  pl_handled :: "raft_group_id set"

definition push_blocked :: "raft_group_id \<Rightarrow> block_reason \<Rightarrow> planner \<Rightarrow> planner" where
  "push_blocked g reason st =
     st\<lparr> pl_plan := (pl_plan st)\<lparr> dp_blocked := dp_blocked (pl_plan st) @ [\<lparr> bm_group = g, bm_reason = reason \<rparr>] \<rparr> \<rparr>"

definition plan_stable_group ::
  "cluster \<Rightarrow> (node_id, node_eligibility) btreemap \<Rightarrow> node_id \<Rightarrow> raft_group_id \<Rightarrow> placement_epoch \<Rightarrow> voter_set \<Rightarrow> planner \<Rightarrow> planner" where
  "plan_stable_group c eligibility leaving' g since voters st =
     (let st = st\<lparr> pl_handled := insert g (pl_handled st) \<rparr> in
      case choose_target c g voters eligibility (pl_load st) of
        Inl reason \<Rightarrow> push_blocked g reason st
      | Inr target' \<Rightarrow>
          if pl_slots st = 0 then st
          else st\<lparr> pl_slots := pl_slots st - 1,
                   pl_load := (case map_of (pl_load st) target' of
                     None \<Rightarrow> pl_load st
                   | Some n \<Rightarrow> AList.update target' (sat_add n 1) (pl_load st)),
                   pl_plan := (pl_plan st)\<lparr> dp_moves := dp_moves (pl_plan st) @
                     [\<lparr> dm_group = g, dm_expected = since,
                        dm_to = ns_from_first target' (filter (\<lambda>voter. voter \<noteq> leaving') (ns_iter voters)) \<rparr>] \<rparr> \<rparr>)"

definition plan_group_of ::
  "cluster \<Rightarrow> (node_id, node_eligibility) btreemap \<Rightarrow> node_id \<Rightarrow> raft_group_id \<times> group_placement \<Rightarrow> planner \<Rightarrow> planner" where
  "plan_group_of c eligibility leaving' gp st =
     (case gp of (g, placement) \<Rightarrow>
        if g \<in> pl_handled st \<or> placement_role placement leaving' = None then st
        else case placement of
          Seeded _ _ _ \<Rightarrow> push_blocked g Block_GroupNotLive (st\<lparr> pl_handled := insert g (pl_handled st) \<rparr>)
        | Live _ _ (Moving _) \<Rightarrow> st
        | Live since _ (Stable voters) \<Rightarrow> plan_stable_group c eligibility leaving' g since voters st)"

definition role_count :: "cluster \<Rightarrow> node_id \<Rightarrow> usize" where
  "role_count c node = length (filter (\<lambda>(_, placement). placement_role placement node \<noteq> None) (btree_iter (cl_groups c)))"

definition plan_decommission :: "cluster \<Rightarrow> (node_id, node_eligibility) btreemap \<Rightarrow> decommission_plan" where
  "plan_decommission c eligibility =
     (let st = \<lparr> pl_plan = \<lparr> dp_moves = [], dp_blocked = [] \<rparr>,
                 pl_slots = free_slots (cp_max_concurrent_moves (cl_params c)) (cl_moving c),
                 pl_load = map (\<lambda>(node, _). (node, role_count c node)) (btree_iter (cl_nodes c)),
                 pl_handled = {} \<rparr>;
          leaving_nodes = map fst (filter (\<lambda>(_, record'). nr_lifecycle record' = Decommissioning) (btree_iter (cl_nodes c)))
      in pl_plan (fold (\<lambda>leaving' st. fold (plan_group_of c eligibility leaving') (btree_iter (cl_groups c)) st) leaving_nodes st))"

section \<open>What a planned move is\<close>

text \<open>The move replaces one decommissioning voter of a stable group by an eligible node outside the group
  that the kernel's target check accepts.\<close>

definition planned_move :: "cluster \<Rightarrow> (node_id, node_eligibility) btreemap \<Rightarrow> decommission_move \<Rightarrow> bool" where
  "planned_move c eligibility mv =
     (\<exists>at voters leaving' target' r.
        cl_group c (dm_group mv) = Some (Live (dm_expected mv) at (Stable voters)) \<and>
        leaving' \<in> ns_to_set voters \<and> cl_node c leaving' = Some r \<and> nr_lifecycle r = Decommissioning \<and>
        target' \<notin> ns_to_set voters \<and> check_target c (dm_group mv) target' voters = None \<and>
        map_of eligibility target' = Some Eligible \<and>
        dm_to mv = ns_from_first target' (filter (\<lambda>voter. voter \<noteq> leaving') (ns_iter voters)))"

lemma better_target_in:
  assumes "fold (better_target e l) ns best = Some (k, n)"
  shows "best = Some (k, n) \<or> n \<in> set ns \<and> map_of e n = Some Eligible"
  using assms
proof (induction ns arbitrary: best)
  case (Cons a ns)
  then have "better_target e l a best = Some (k, n) \<or> n \<in> set ns \<and> map_of e n = Some Eligible" by auto
  then show ?case by (auto simp: better_target_def Let_def split: if_splits option.splits)
qed simp

lemma choose_target_Inr:
  assumes "choose_target c g voters e l = Inr n"
  shows "n \<notin> ns_to_set voters" "check_target c g n voters = None" "map_of e n = Some Eligible"
proof -
  define qs where "qs = filter (\<lambda>node. \<not> ns_contains voters node \<and> check_target c g node voters = None)
    (map fst (btree_iter (cl_nodes c)))"
  obtain k where "fold (better_target e l) qs None = Some (k, n)"
    using assms unfolding choose_target_def Let_def qs_def[symmetric] by (auto split: option.splits)
  then have "n \<in> set qs" "map_of e n = Some Eligible" using better_target_in by fastforce+
  then show "n \<notin> ns_to_set voters" "check_target c g n voters = None" "map_of e n = Some Eligible"
    by (simp_all add: qs_def)
qed

definition planner_ok :: "cluster \<Rightarrow> (node_id, node_eligibility) btreemap \<Rightarrow> planner \<Rightarrow> bool" where
  "planner_ok c e st =
     (list_all (planned_move c e) (dp_moves (pl_plan st)) \<and> distinct (map dm_group (dp_moves (pl_plan st))) \<and>
      dm_group ` set (dp_moves (pl_plan st)) \<subseteq> pl_handled st \<and>
      length (dp_moves (pl_plan st)) + pl_slots st = free_slots (cp_max_concurrent_moves (cl_params c)) (cl_moving c))"

lemma plan_group_of_ok:
  assumes st: "planner_ok c e st" and group: "cl_group c g = Some p"
    and leaving: "cl_node c n = Some r" "nr_lifecycle r = Decommissioning"
  shows "planner_ok c e (plan_group_of c e n (g, p) st)"
proof (cases "g \<in> pl_handled st \<or> placement_role p n = None")
  case False
  show ?thesis
  proof (cases p)
    case (Seeded since voters first)
    with st False show ?thesis by (auto simp: plan_group_of_def planner_ok_def push_blocked_def)
  next
    case (Live since at t)
    show ?thesis
    proof (cases t)
      case (Stable voters)
      have role: "n \<in> ns_to_set voters" using False Live Stable by (auto split: if_splits)
      show ?thesis
      proof (cases "choose_target c g voters e (pl_load st)")
        case (Inl reason)
        with st False Live Stable show ?thesis
          by (auto simp: plan_group_of_def plan_stable_group_def planner_ok_def push_blocked_def)
      next
        case (Inr target')
        have "planned_move c e \<lparr> dm_group = g, dm_expected = since,
            dm_to = ns_from_first target' (filter (\<lambda>voter. voter \<noteq> n) (ns_iter voters)) \<rparr>"
          unfolding planned_move_def using choose_target_Inr[OF Inr] group Live Stable role leaving by auto
        with st False Live Stable Inr show ?thesis
          by (auto simp: plan_group_of_def plan_stable_group_def planner_ok_def Let_def)
      qed
    qed (use st Live in \<open>simp add: plan_group_of_def\<close>)
  qed
qed (use st in \<open>auto simp: plan_group_of_def\<close>)

lemma plan_decommission_ok:
  assumes ok: "cluster_ok c"
  shows "list_all (planned_move c e) (dp_moves (plan_decommission c e))"
    "distinct (map dm_group (dp_moves (plan_decommission c e)))"
    "length (dp_moves (plan_decommission c e)) \<le> free_slots (cp_max_concurrent_moves (cl_params c)) (cl_moving c)"
proof -
  have d: "distinct (map fst (cl_nodes c))" "distinct (map fst (cl_groups c))"
    using ok by (simp_all add: cluster_ok_def nodes_ok_def groups_ok_distinct)
  let ?leaving = "map fst (filter (\<lambda>(_, r). nr_lifecycle r = Decommissioning) (btree_iter (cl_nodes c)))"
  have inner: "planner_ok c e (fold (plan_group_of c e n) (btree_iter (cl_groups c)) st)"
    if n: "n \<in> set ?leaving" and st: "planner_ok c e st" for n st
  proof -
    from n d(1) obtain r where r: "cl_node c n = Some r" "nr_lifecycle r = Decommissioning" by (auto simp: cl_node_def)
    show ?thesis
    proof (rule fold_invariant[where Q = "\<lambda>gp. gp \<in> set (cl_groups c)" and P = "planner_ok c e"])
      fix gp st assume gp: "gp \<in> set (cl_groups c)" and st: "planner_ok c e st"
      obtain g p where "gp = (g, p)" by (cases gp)
      with gp d(2) plan_group_of_ok[OF st _ r] show "planner_ok c e (plan_group_of c e n gp st)" by (simp add: cl_group_def)
    qed (use st in simp_all)
  qed
  let ?start = "\<lparr> pl_plan = \<lparr> dp_moves = [], dp_blocked = [] \<rparr>,
    pl_slots = free_slots (cp_max_concurrent_moves (cl_params c)) (cl_moving c),
    pl_load = map (\<lambda>(node, _). (node, role_count c node)) (btree_iter (cl_nodes c)), pl_handled = {} \<rparr>"
  have "planner_ok c e (fold (\<lambda>n st. fold (plan_group_of c e n) (btree_iter (cl_groups c)) st) ?leaving ?start)"
    by (rule fold_invariant[where Q = "\<lambda>n. n \<in> set ?leaving" and P = "planner_ok c e"])
      (use inner in \<open>simp_all add: planner_ok_def\<close>)
  then show "list_all (planned_move c e) (dp_moves (plan_decommission c e))"
    "distinct (map dm_group (dp_moves (plan_decommission c e)))"
    "length (dp_moves (plan_decommission c e)) \<le> free_slots (cp_max_concurrent_moves (cl_params c)) (cl_moving c)"
    by (simp_all add: planner_ok_def plan_decommission_def Let_def)
qed

section \<open>The kernel accepts the plan\<close>

text \<open>The driver submits the planned moves one by one, each as the entry the meta log gives it.\<close>

fun submit_moves ::
  "(meta_log_id \<times> u64 \<times> decommission_move) list \<Rightarrow> control_plane_state \<Rightarrow> control_plane_state \<times> control_response list" where
  "submit_moves [] s = (s, [])"
| "submit_moves ((at, now_ms, mv) # mvs) s =
     (let (s', response) = apply_control at (RequestMove (dm_group mv) (dm_expected mv) (dm_to mv) now_ms) s;
          (s'', responses) = submit_moves mvs s'
      in (s'', response # responses))"

definition moving_count :: "(raft_group_id, group_placement) btreemap \<Rightarrow> nat" where
  "moving_count groups = length (filter (\<lambda>(_, placement). placement_moving placement \<noteq> None) groups)"

lemma cl_moving_count: "cl_moving c = min (moving_count (cl_groups c)) u32_max"
  unfolding cl_moving_def moving_count_def by (metis btree_iter_mset mset_filter size_mset)

lemma moving_count_update:
  "distinct (map fst groups) \<Longrightarrow> map_of groups g = Some p \<Longrightarrow> placement_moving p = None \<Longrightarrow> placement_moving q \<noteq> None \<Longrightarrow>
    moving_count (AList.update g q groups) = Suc (moving_count groups)"
  by (induction groups) (auto simp: moving_count_def split: if_splits)

lemma moving_count_le: "moving_count groups \<le> length groups"
  by (simp add: moving_count_def)

lemma groups_length: "groups_ok c \<Longrightarrow> length (cl_groups c) = cp_group_count (cl_params c)"
  unfolding groups_ok_def group_ids_def by (metis diff_zero length_map length_upt)

lemma groups_okD:
  "groups_ok c \<Longrightarrow> cl_group c g = Some p \<Longrightarrow> placement_ok (cp_replication_factor (cl_params c)) p"
  "groups_ok c \<Longrightarrow> cl_group c g = Some p \<Longrightarrow> n \<in> roles p \<Longrightarrow> node_lives c n"
  by (auto simp: groups_ok_def)

lemma cl_moving_exact: "cluster_ok c \<Longrightarrow> cl_moving c = moving_count (cl_groups c)"
  using moving_count_le[of "cl_groups c"] groups_length[of c]
  by (simp add: cl_moving_count cluster_ok_def max_group_count_def u32_max_def)

text \<open>What a planned move needs of a cluster: it is kept by the other moves of the pass.\<close>

definition still_planned :: "cluster \<Rightarrow> cluster \<Rightarrow> (node_id, node_eligibility) btreemap \<Rightarrow> decommission_move \<Rightarrow> bool" where
  "still_planned c c' e mv =
     (planned_move c e mv \<and> cl_group c' (dm_group mv) = cl_group c (dm_group mv))"

definition same_nodes :: "cluster \<Rightarrow> cluster \<Rightarrow> bool" where
  "same_nodes c c' = (cl_params c' = cl_params c \<and> cl_nodes c' = cl_nodes c \<and> cl_retirements c' = cl_retirements c)"

lemma same_nodes_check:
  assumes "same_nodes c c'"
  shows "check_target c' g n voters = check_target c g n voters"
proof -
  have "cl_node c' n = cl_node c n" "cl_retirement c' g n = cl_retirement c g n"
    using assms by (simp_all add: same_nodes_def cl_node_def cl_retirement_def)
  then show ?thesis unfolding check_target_def by (simp only:)
qed

lemma replace_voter:
  assumes "ns_ok voters" "leaving' \<in> ns_to_set voters" "target' \<notin> ns_to_set voters"
  shows "ns_to_set (ns_from_first target' (filter (\<lambda>voter. voter \<noteq> leaving') (ns_iter voters))) =
      insert target' (ns_to_set voters - {leaving'})"
    and "ns_len (ns_from_first target' (filter (\<lambda>voter. voter \<noteq> leaving') (ns_iter voters))) = ns_len voters"
proof -
  show set: "ns_to_set (ns_from_first target' (filter (\<lambda>voter. voter \<noteq> leaving') (ns_iter voters))) =
      insert target' (ns_to_set voters - {leaving'})"
    using assms(1) by auto
  have "card (insert target' (ns_to_set voters - {leaving'})) = card (ns_to_set voters)"
    using assms card_Suc_Diff1[of "ns_to_set voters" leaving'] by simp
  then show "ns_len (ns_from_first target' (filter (\<lambda>voter. voter \<noteq> leaving') (ns_iter voters))) = ns_len voters"
    using assms(1) by (simp only: ns_len_card ns_from_first_ok set)
qed

lemma planned_move_accepted:
  assumes ok: "cluster_ok c" and same: "same_nodes c c'" and mv: "still_planned c c' e mv"
    and slots: "cl_moving c' < cp_max_concurrent_moves (cl_params c)"
  shows "\<exists>at' moving. plan_move c' (dm_group mv) (dm_expected mv) (dm_to mv) t = Inr (Change_Move (dm_group mv) at' moving)"
proof -
  from mv obtain at voters leaving' target' r where
    group: "cl_group c (dm_group mv) = Some (Live (dm_expected mv) at (Stable voters))"
    and leaving: "leaving' \<in> ns_to_set voters" and target: "target' \<notin> ns_to_set voters"
    and check: "check_target c (dm_group mv) target' voters = None"
    and to': "dm_to mv = ns_from_first target' (filter (\<lambda>voter. voter \<noteq> leaving') (ns_iter voters))"
    unfolding still_planned_def planned_move_def by blast
  have groups: "groups_ok c" and owed: "owed_ok c" using ok by (simp_all add: cluster_ok_def)
  have vok: "ns_ok voters" and lives: "\<And>n. n \<in> ns_to_set voters \<Longrightarrow> node_lives c n"
    using groups_okD[OF groups group] by simp_all
  have "check_target c (dm_group mv) n voters = None" if "n \<in> ns_to_set voters" for n
  proof -
    have "cl_retirement c (dm_group mv) n = None" using owed_okD(1)[OF owed _ group, of n] that by fastforce
    with lives[OF that] that show ?thesis by (auto simp: check_target_None joins_def node_lives_def)
  qed
  with check have all: "first_error (\<lambda>n. check_target c' (dm_group mv) n voters) (ns_iter (dm_to mv)) = None"
    using vok by (auto simp: first_error_None same_nodes_check[OF same] to')
  have "target' \<in> ns_to_set (dm_to mv)" by (simp add: to')
  with target have "dm_to mv \<noteq> voters" by auto
  moreover have "cl_group c' (dm_group mv) = Some (Live (dm_expected mv) at (Stable voters))"
    using mv group by (simp add: still_planned_def)
  moreover have "cl_params c' = cl_params c" using same by (simp add: same_nodes_def)
  ultimately show ?thesis
    using all slots replace_voter(2)[OF vok leaving target] by (simp add: plan_move_def to')
qed

lemma submit_planned:
  assumes ok: "cluster_ok c" and same: "same_nodes c c'" and d: "distinct (map fst (cl_groups c'))"
    and mvs: "list_all (still_planned c c' e) (map (\<lambda>m. snd (snd m)) mvs)" "distinct (map (\<lambda>m. dm_group (snd (snd m))) mvs)"
    and count: "moving_count (cl_groups c') + length mvs \<le> cp_max_concurrent_moves (cl_params c)"
  shows "list_all (\<lambda>r. \<exists>since. r = Inr (MoveAccepted since)) (snd (submit_moves mvs (Bootstrapped c')))"
  using same d mvs count
proof (induction mvs arbitrary: c')
  case (Cons m mvs)
  obtain at t mv where m: "m = (at, t, mv)" by (cases m)
  have planned: "still_planned c c' e mv" and slots: "cl_moving c' < cp_max_concurrent_moves (cl_params c)"
    using Cons.prems m by (auto simp: cl_moving_count)
  from planned_move_accepted[OF ok Cons.prems(1) planned slots] obtain at' moving where
    plan: "plan_move c' (dm_group mv) (dm_expected mv) (dm_to mv) t = Inr (Change_Move (dm_group mv) at' moving)" by blast
  let ?p = "Live (PlacementEpoch at) at' (Moving moving)"
  let ?c = "insert_group (dm_group mv) ?p c'"
  from planned obtain a voters where group: "cl_group c' (dm_group mv) = Some (Live (dm_expected mv) a (Stable voters))"
    by (auto simp: still_planned_def planned_move_def)
  have step: "apply_control at (RequestMove (dm_group mv) (dm_expected mv) (dm_to mv) t) (Bootstrapped c') =
      (Bootstrapped ?c, Inr (MoveAccepted (PlacementEpoch at)))"
    using plan group by (simp add: apply_control_def plan_cluster_def Let_def)
  have "moving_count (cl_groups ?c) = Suc (moving_count (cl_groups c'))"
    using moving_count_update[OF Cons.prems(2), of "dm_group mv" _ ?p] group by (simp add: insert_group_def cl_group_def)
  moreover have "dm_group (snd (snd x)) \<noteq> dm_group mv" if "x \<in> set mvs" for x
    using Cons.prems(4) that m by force
  then have "list_all (still_planned c ?c e) (map (\<lambda>m. snd (snd m)) mvs)"
    using Cons.prems(3) m by (auto simp: list_all_iff still_planned_def)
  ultimately have "list_all (\<lambda>r. \<exists>since. r = Inr (MoveAccepted since)) (snd (submit_moves mvs (Bootstrapped ?c)))"
    using Cons.prems m by (intro Cons.IH) (auto simp: same_nodes_def insert_group_def)
  then show ?case by (simp add: m step case_prod_beta)
qed simp

lemma free_slots_bound: "n \<le> free_slots limit moving \<Longrightarrow> moving \<le> limit \<Longrightarrow> moving + n \<le> limit"
  by (auto simp: free_slots_def Let_def split: if_splits)

lemma free_slots_full: "limit \<le> moving \<Longrightarrow> free_slots limit moving = 0"
  by (simp add: free_slots_def)

text \<open>C15.  Every move of a decommission pass replaces one decommissioning voter of a stable group by an
  eligible node outside it, the pass plans at most the free move slots and no group twice, and the
  kernel accepts all of its moves when they are submitted in order, whatever log ids and times they
  get.\<close>

theorem decommission_pass_accepted:
  assumes "cluster_ok c" and "map (\<lambda>m. snd (snd m)) submitted = dp_moves (plan_decommission c eligibility)"
  shows "list_all (planned_move c eligibility) (dp_moves (plan_decommission c eligibility)) \<and>
    length submitted \<le> free_slots (cp_max_concurrent_moves (cl_params c)) (cl_moving c) \<and>
    list_all (\<lambda>r. \<exists>since. r = Inr (MoveAccepted since)) (snd (submit_moves submitted (Bootstrapped c)))"
proof -
  let ?moves = "dp_moves (plan_decommission c eligibility)" and ?limit = "cp_max_concurrent_moves (cl_params c)"
  note plan = plan_decommission_ok[OF assms(1), of eligibility]
  have len: "length submitted = length ?moves" using arg_cong[OF assms(2), of length] by simp
  have c1: "list_all (planned_move c eligibility) ?moves" by (rule plan(1))
  have slots: "length submitted \<le> free_slots ?limit (cl_moving c)" using plan(3) len by simp
  have c3: "list_all (\<lambda>r. \<exists>since. r = Inr (MoveAccepted since)) (snd (submit_moves submitted (Bootstrapped c)))"
  proof (cases "cl_moving c \<le> ?limit")
    case True
    have "distinct (map (\<lambda>m. dm_group (snd (snd m))) submitted)"
      using plan(2) unfolding assms(2)[symmetric] by (simp add: comp_def)
    moreover have "moving_count (cl_groups c) + length submitted \<le> ?limit"
      using free_slots_bound[OF slots True] cl_moving_exact[OF assms(1)] by simp
    moreover have "distinct (map fst (cl_groups c))" using assms(1) by (simp add: cluster_ok_def groups_ok_distinct)
    ultimately show ?thesis
      using plan(1) by (intro submit_planned[OF assms(1), where e = eligibility])
        (auto simp: same_nodes_def assms(2) list_all_iff still_planned_def)
  next
    case False
    then have "submitted = []" using slots by (simp add: free_slots_full)
    then show ?thesis by simp
  qed
  show ?thesis by (intro conjI c1 slots c3)
qed

text \<open>A cluster of two nodes whose only group is on the node that leaves.\<close>

definition draining_cluster :: cluster where
  "draining_cluster =
     \<lparr> cl_params = \<lparr> cp_group_count = 1, cp_replication_factor = 1, cp_meta_voters = ns_single 1, cp_max_concurrent_moves = 1 \<rparr>,
       cl_nodes = [(1, \<lparr> nr_lifecycle = Active, nr_since_ms = 0, nr_root = Bound 11 \<rparr>),
                   (2, \<lparr> nr_lifecycle = Decommissioning, nr_since_ms = 5, nr_root = Bound 12 \<rparr>)],
       cl_groups = [(0, Live (PlacementEpoch (MetaLogId (RaftLogId 1 1 6))) (MembershipLogId (RaftLogId 1 2 3)) (Stable (ns_single 2)))],
       cl_retirements = [] \<rparr>"

lemma draining_lookups:
  "cl_node draining_cluster n = (if n = 1 then Some \<lparr> nr_lifecycle = Active, nr_since_ms = 0, nr_root = Bound 11 \<rparr>
     else if n = 2 then Some \<lparr> nr_lifecycle = Decommissioning, nr_since_ms = 5, nr_root = Bound 12 \<rparr> else None)"
  "cl_group draining_cluster g = (if g = 0
     then Some (Live (PlacementEpoch (MetaLogId (RaftLogId 1 1 6))) (MembershipLogId (RaftLogId 1 2 3)) (Stable (ns_single 2))) else None)"
  "cl_retirement draining_cluster g n = None"
  by (simp_all add: draining_cluster_def cl_node_def cl_group_def cl_retirement_def)

lemma draining_role: "has_any_role draining_cluster n \<longleftrightarrow> n = 2"
  by (simp add: has_any_role_iff draining_cluster_def)

lemma draining_ok: "cluster_ok draining_cluster"
proof -
  have "params_typed (cl_params draining_cluster)" "cp_group_count (cl_params draining_cluster) \<le> max_group_count"
    "retirements_ok (cl_retirements draining_cluster)"
    by (simp_all add: params_typed_def draining_cluster_def max_group_count_def retirements_ok_iff)
  moreover have "nodes_ok draining_cluster"
    unfolding nodes_ok_def draining_lookups draining_role by (auto simp: draining_cluster_def split: if_splits)
  moreover have "groups_ok draining_cluster"
    unfolding groups_ok_def draining_lookups node_lives_def
    by (auto simp: draining_cluster_def group_ids_def ns_len_def ns_single_def sat_add_def u64_max_def ns_ok_def ns_to_set_def split: if_splits)
  ultimately show ?thesis by (simp add: cluster_ok_def owed_ok_def draining_lookups)
qed

lemma draining_plan:
  "dp_moves (plan_decommission draining_cluster [(1, Eligible)]) =
     [\<lparr> dm_group = 0, dm_expected = PlacementEpoch (MetaLogId (RaftLogId 1 1 6)), dm_to = ns_from_first 1 [] \<rparr>]"
  by (simp add: plan_decommission_def Let_def draining_cluster_def free_slots_def cl_moving_def btree_iter_def plan_group_of_def
    plan_stable_group_def choose_target_def check_target_def cl_node_def check_life_def cl_retirement_def better_target_def
    role_count_def ns_iter_def ns_single_def ns_to_set_def u32_max_def)

theorem decommission_pass_accepted_witness:
  "list_all (\<lambda>r. \<exists>since. r = Inr (MoveAccepted since))
     (snd (submit_moves [(MetaLogId (RaftLogId 1 1 7), 9,
       \<lparr> dm_group = 0, dm_expected = PlacementEpoch (MetaLogId (RaftLogId 1 1 6)), dm_to = ns_from_first 1 [] \<rparr>)]
       (Bootstrapped draining_cluster)))"
  using decommission_pass_accepted[OF draining_ok, of "[(MetaLogId (RaftLogId 1 1 7), 9,
       \<lparr> dm_group = 0, dm_expected = PlacementEpoch (MetaLogId (RaftLogId 1 1 6)), dm_to = ns_from_first 1 [] \<rparr>)]" "[(1, Eligible)]"]
  by (simp only: draining_plan list.map snd_conv simp_thms)

end
