(* ===== verification/Reconcile.thy ===== *)
theory Reconcile
  imports Control_State
begin

text \<open>
  The membership reconciler's planner (\<^verbatim>\<open>ursula-control/src/placement/reconcile.rs\<close>): the one step a
  group leader takes next toward its target.  The rules of \<^verbatim>\<open>rules.rs\<close> are all enforced, as they are
  outside the tests of the source.
\<close>

section \<open>Inputs and steps\<close>

datatype view_freshness = Unconfirmed | Confirmed

datatype recovery_gate_status =
    Gate_Open | AwaitingBarrier | Stalled | Gate_CatchingUp | Planned | LeadsPlan | Cutting

datatype peer_gate = Peer_Open | Peer_Closed | Peer_Unknown

fun of_status :: "recovery_gate_status \<Rightarrow> peer_gate" where
  "of_status Gate_Open = Peer_Open"
| "of_status _ = Peer_Closed"

datatype membership_config =
    Uniform voter_set "node_id set"
  | Joint voter_set voter_set "node_id set"

fun voter_configs :: "membership_config \<Rightarrow> voter_set list" where
  "voter_configs (Uniform voters _) = [voters]"
| "voter_configs (Joint old new _) = [old, new]"

fun config_learners :: "membership_config \<Rightarrow> node_id set" where
  "config_learners (Uniform _ learners) = learners"
| "config_learners (Joint _ _ learners) = learners"

definition is_voter :: "membership_config \<Rightarrow> node_id \<Rightarrow> bool" where
  "is_voter config node = list_ex (\<lambda>voters. ns_contains voters node) (voter_configs config)"

definition is_member :: "membership_config \<Rightarrow> node_id \<Rightarrow> bool" where
  "is_member config node = (is_voter config node \<or> node \<in> config_learners config)"

definition config_voters :: "membership_config \<Rightarrow> node_id set" where
  "config_voters config = (\<Union>voters \<in> set (voter_configs config). ns_to_set voters)"

definition config_members :: "membership_config \<Rightarrow> node_id set" where
  "config_members config = config_voters config \<union> config_learners config"

definition membership_answer_of :: "node_id \<Rightarrow> membership_config \<Rightarrow> membership_config \<Rightarrow> membership_answer" where
  "membership_answer_of node committed effective =
     (if is_voter committed node \<or> is_voter effective node then Voter_Answer
      else if is_member committed node \<or> is_member effective node then Learner_Answer
      else NotMember_Answer)"

datatype effective_membership =
    Committed_Membership membership_log_id membership_config
  | Uncommitted_Membership membership_log_id

record leader_view =
  lv_membership :: effective_membership
  lv_committed_index :: u64
  lv_matched :: "(node_id, u64 option) btreemap"
  lv_caught_up :: "node_id set"
  lv_live :: "node_id set"
  lv_handoff_ready :: "node_id set"
  lv_gates :: "(node_id, peer_gate) btreemap"
  lv_unlisted :: "node_id set"
  lv_view :: view_freshness

datatype leadership = NotLeading | Transferring node_id | StepPending_Leadership | Leading leader_view

record membership_view =
  mv_me :: node_id
  mv_leadership :: leadership

datatype target_stage = Seeded_Stage placement_epoch | Moving_Stage placement_epoch | Settled

record membership_target =
  mt_voters :: voter_set
  mt_learners :: "node_id set"
  mt_stage :: target_stage

definition of_placement :: "group_placement \<Rightarrow> membership_target" where
  "of_placement placement =
     \<lparr> mt_voters = target_voters placement, mt_learners = {},
       mt_stage = (case placement of
           Seeded since _ _ \<Rightarrow> Seeded_Stage since
         | Live since _ (Moving _) \<Rightarrow> Moving_Stage since
         | Live _ _ (Stable _) \<Rightarrow> Settled) \<rparr>"

record learner_lag =
  ll_node :: node_id
  ll_matched :: "u64 option"

datatype wait_reason =
    NotLeader
  | TransferPending
  | StepPending
  | MembershipUncommitted
  | NotAMember
  | NoLiveQuorum
  | TargetSettled
  | CatchingUp u64 "learner_lag list"
  | PeerNotListed "node_id set"
  | GateClosed "node_id set"
  | GateUnknown "node_id set"
  | NoHandoffTarget
  | Unknown_Wait

datatype membership_step =
    AddLearners membership_log_id "node_id set"
  | ChangeVoters membership_log_id voter_set
  | RemoveLearners membership_log_id "node_id set"
  | TransferLeadership node_id
  | ConfirmView
  | Converged_Step voter_set
  | Wait wait_reason

datatype step_kind =
    Kind_AddLearners | Kind_ChangeVoters | Kind_RemoveLearners | Kind_TransferLeadership | Kind_ConfirmView
  | Kind_ReportConverged | Unknown_Step

fun kind_of :: "membership_step \<Rightarrow> step_kind option" where
  "kind_of (AddLearners _ _) = Some Kind_AddLearners"
| "kind_of (ChangeVoters _ _) = Some Kind_ChangeVoters"
| "kind_of (RemoveLearners _ _) = Some Kind_RemoveLearners"
| "kind_of (TransferLeadership _) = Some Kind_TransferLeadership"
| "kind_of ConfirmView = Some Kind_ConfirmView"
| "kind_of (Converged_Step _) = Some Kind_ReportConverged"
| "kind_of (Wait _) = None"

section \<open>The planner\<close>

definition gates_needed :: "leader_view \<Rightarrow> membership_target \<Rightarrow> node_id set" where
  "gates_needed leader target' =
     (case lv_membership leader of
        Committed_Membership _ (Uniform voters _) \<Rightarrow>
          (case mt_stage target' of
             Moving_Stage _ \<Rightarrow>
               set (filter (\<lambda>node. \<not> ns_contains voters node \<and> node \<notin> lv_unlisted leader \<and> node \<in> lv_caught_up leader)
                 (ns_iter (mt_voters target')))
           | _ \<Rightarrow> {})
      | _ \<Rightarrow> {})"

definition handoff_target :: "leader_view \<Rightarrow> node_id \<Rightarrow> node_id list \<Rightarrow> node_id option" where
  "handoff_target leader me nodes =
     find (\<lambda>node. node \<in> lv_handoff_ready leader) (filter (\<lambda>node. node \<noteq> me) nodes)"

definition live_count :: "voter_set \<Rightarrow> node_id set \<Rightarrow> usize" where
  "live_count voters live = length (filter (\<lambda>node. node \<in> live) (ns_iter voters))"

definition has_live_majority :: "voter_set \<Rightarrow> node_id set \<Rightarrow> bool" where
  "has_live_majority voters live = (sat_mul (live_count voters live) 2 > ns_len voters)"

definition joint_exit :: "voter_set \<Rightarrow> voter_set \<Rightarrow> node_id set \<Rightarrow> voter_set \<Rightarrow> voter_set option" where
  "joint_exit old new live target' =
     (case (has_live_majority old live, has_live_majority new live) of
        (False, False) \<Rightarrow> None
      | (True, False) \<Rightarrow> Some old
      | (False, True) \<Rightarrow> Some new
      | (True, True) \<Rightarrow>
          if new = target' then Some new
          else if old = target' then Some old
          else if live_count old live \<noteq> live_count new live
          then Some (if live_count old live > live_count new live then old else new)
          else let shared = (\<lambda>side. length (filter (\<lambda>node. ns_contains target' node) (ns_iter side)))
               in Some (if shared old > shared new then old else new))"

definition plan_joint_exit ::
  "node_id \<Rightarrow> membership_log_id \<Rightarrow> voter_set \<Rightarrow> voter_set \<Rightarrow> node_id set \<Rightarrow> leader_view \<Rightarrow> membership_target \<Rightarrow> membership_step" where
  "plan_joint_exit me expected old new live leader target' =
     (case joint_exit old new live (mt_voters target') of
        None \<Rightarrow> Wait NoLiveQuorum
      | Some exit \<Rightarrow>
          if ns_contains exit me then ChangeVoters expected exit
          else case handoff_target leader me (ns_iter exit) of
            Some to' \<Rightarrow> TransferLeadership to'
          | None \<Rightarrow> Wait NoHandoffTarget)"

definition not_ready :: "node_id set \<Rightarrow> leader_view \<Rightarrow> wait_reason" where
  "not_ready add leader =
     (let unlisted = add \<inter> lv_unlisted leader;
          caught_up = filter (\<lambda>node. node \<in> lv_caught_up leader) (sorted_list_of_set add);
          closed = set (filter (\<lambda>node. map_of (lv_gates leader) node = Some Peer_Closed) caught_up);
          unknown = set (filter (\<lambda>node. map_of (lv_gates leader) node \<noteq> Some Peer_Open) caught_up)
      in if unlisted \<noteq> {} then PeerNotListed unlisted
         else if closed \<noteq> {} then GateClosed closed
         else if unknown \<noteq> {} then GateUnknown unknown
         else CatchingUp (lv_committed_index leader)
           (map (\<lambda>node. \<lparr> ll_node = node, ll_matched = Option.bind (map_of (lv_matched leader) node) id \<rparr>)
             (filter (\<lambda>node. node \<notin> lv_caught_up leader) (sorted_list_of_set add))))"

record current_config =
  cc_me :: node_id
  cc_expected :: membership_log_id
  cc_voters :: voter_set
  cc_learners :: "node_id set"
  cc_live :: "node_id set"

text \<open>The learners a report or a settled group still adjusts.\<close>

definition plan_learners :: "current_config \<Rightarrow> membership_target \<Rightarrow> membership_step" where
  "plan_learners current target' =
     (let extra = cc_learners current - mt_learners target';
          absent = Set.filter (\<lambda>node. \<not> ns_contains (cc_voters current) node \<and> node \<notin> cc_learners current) (mt_learners target')
      in if extra \<noteq> {} then RemoveLearners (cc_expected current) extra
         else if absent \<noteq> {} then AddLearners (cc_expected current) absent
         else Converged_Step (cc_voters current))"

text \<open>The voter change once every target is a member and the view is confirmed.\<close>

definition plan_voters :: "current_config \<Rightarrow> leader_view \<Rightarrow> membership_target \<Rightarrow> membership_step" where
  "plan_voters current leader target' =
     (let me = cc_me current; voters = cc_voters current; expected = cc_expected current;
          add = filter (\<lambda>node. \<not> ns_contains voters node) (ns_iter (mt_voters target'));
          dropped = filter (\<lambda>node. \<not> ns_contains (mt_voters target') node) (ns_iter voters);
          y = find (\<lambda>node. node \<notin> lv_unlisted leader \<and> node \<in> lv_caught_up leader \<and>
                map_of (lv_gates leader) node = Some Peer_Open) add
      in if ns_len voters = 1 \<and> ns_len (mt_voters target') = 1
         then case y of
             Some y \<Rightarrow> ChangeVoters expected (ns_single y)
           | None \<Rightarrow> Wait (not_ready (set add) leader)
         else
           let others = filter (\<lambda>node. node \<noteq> me) dropped;
               x = (case find (\<lambda>node. node \<notin> cc_live current) others of
                      Some x \<Rightarrow> Some x
                    | None \<Rightarrow> (case others of [] \<Rightarrow> None | x # _ \<Rightarrow> Some x));
               needs_x = (ns_len voters \<ge> ns_len (mt_voters target'));
               needs_y = (ns_len voters \<le> ns_len (mt_voters target'))
           in if needs_x \<and> x = None
              then case handoff_target leader me (filter (\<lambda>node. ns_contains (mt_voters target') node) (ns_iter voters)) of
                  Some to' \<Rightarrow> TransferLeadership to'
                | None \<Rightarrow> Wait NoHandoffTarget
              else if needs_y \<and> y = None then Wait (not_ready (set add) leader)
              else
                let next = ns_to_set voters;
                    next = (case (needs_x, x) of (True, Some x) \<Rightarrow> next - {x} | _ \<Rightarrow> next);
                    next = (case (needs_y, y) of (True, Some y) \<Rightarrow> insert y next | _ \<Rightarrow> next)
                in ChangeVoters expected (ns_from_first me (sorted_list_of_set next)))"

definition plan_uniform :: "current_config \<Rightarrow> leader_view \<Rightarrow> membership_target \<Rightarrow> membership_step" where
  "plan_uniform current leader target' =
     (let voters = cc_voters current;
          seeded = (case mt_stage target' of Seeded_Stage _ \<Rightarrow> True | _ \<Rightarrow> False);
          missing = set (filter (\<lambda>node. \<not> ns_contains voters node \<and> node \<notin> cc_learners current) (ns_iter (mt_voters target')))
      in if voters = mt_voters target' \<or> seeded then plan_learners current target'
         else if mt_stage target' = Settled then Wait TargetSettled
         else if missing \<noteq> {} then AddLearners (cc_expected current) missing
         else if lv_view leader = Unconfirmed then ConfirmView
         else plan_voters current leader target')"

definition plan_membership_step :: "membership_view \<Rightarrow> membership_target \<Rightarrow> membership_step" where
  "plan_membership_step view target' =
     (case mv_leadership view of
        NotLeading \<Rightarrow> Wait NotLeader
      | Transferring _ \<Rightarrow> Wait TransferPending
      | StepPending_Leadership \<Rightarrow> Wait StepPending
      | Leading leader \<Rightarrow>
          (case lv_membership leader of
             Uncommitted_Membership _ \<Rightarrow> Wait MembershipUncommitted
           | Committed_Membership expected config \<Rightarrow>
               let me = mv_me view; live = insert me (lv_live leader) in
               if \<not> is_voter config me then Wait NotAMember
               else case config of
                 Joint old new _ \<Rightarrow> plan_joint_exit me expected old new live leader target'
               | Uniform voters learners \<Rightarrow>
                   plan_uniform \<lparr> cc_me = me, cc_expected = expected, cc_voters = voters, cc_learners = learners,
                     cc_live = live \<rparr> leader target'))"

section \<open>What a voter change is\<close>

lemmas plan_membership_parts = plan_membership_step_def plan_uniform_def plan_learners_def plan_joint_exit_def

lemma find_Some_in: "find P xs = Some v \<Longrightarrow> v \<in> set xs \<and> P v"
  by (induction xs) (auto split: if_splits)

lemma handoff_target_in: "handoff_target leader me nodes = Some n \<Longrightarrow> n \<in> set nodes \<and> n \<noteq> me \<and> n \<in> lv_handoff_ready leader"
  by (auto simp: handoff_target_def dest!: find_Some_in)

text \<open>The learners a step may promote: listed, caught up, and with an open gate.\<close>

definition promotable :: "leader_view \<Rightarrow> node_id \<Rightarrow> bool" where
  "promotable leader node =
     (node \<notin> lv_unlisted leader \<and> node \<in> lv_caught_up leader \<and> map_of (lv_gates leader) node = Some Peer_Open)"

text \<open>How far a config's voters are from the target's.\<close>

definition voter_distance :: "voter_set \<Rightarrow> voter_set \<Rightarrow> nat" where
  "voter_distance a b = card (ns_to_set a - ns_to_set b) + card (ns_to_set b - ns_to_set a)"

lemma voter_distance_0: "ns_ok a \<Longrightarrow> ns_ok b \<Longrightarrow> voter_distance a b = 0 \<longleftrightarrow> a = b"
  by (auto simp: voter_distance_def ns_eq_iff)

lemma distance_swap:
  assumes "ns_ok a" "ns_ok b" "ns_to_set a' = ns_to_set a - X \<union> Y"
    and "X \<subseteq> ns_to_set a - ns_to_set b" "Y \<subseteq> ns_to_set b - ns_to_set a" "X \<union> Y \<noteq> {}"
  shows "voter_distance a' b < voter_distance a b"
proof -
  have eq: "ns_to_set a' - ns_to_set b = (ns_to_set a - ns_to_set b) - X" "ns_to_set b - ns_to_set a' = (ns_to_set b - ns_to_set a) - Y"
    using assms(3-5) by auto
  have fin: "finite (ns_to_set a - ns_to_set b)" "finite (ns_to_set b - ns_to_set a)" using assms(1,2) by simp_all
  have le: "card (A - B) \<le> card A" if "finite A" for A B :: "node_id set" using that by (simp add: card_mono)
  have lt: "card (A - B) < card A" if "finite A" "B \<subseteq> A" "B \<noteq> {}" for A B :: "node_id set"
    using that by (intro psubset_card_mono) auto
  show ?thesis
    using assms(4-6) fin le lt unfolding voter_distance_def eq by (cases "X = {}") (simp_all add: add_less_le_mono add_le_less_mono)
qed

text \<open>The step drops the voters of \<open>X\<close> and promotes those of \<open>Y\<close>, at most one each.\<close>

lemma plan_voters_change:
  assumes "plan_voters current leader target' = ChangeVoters expected voters'"
    and ok: "ns_ok (cc_voters current)" "ns_ok (mt_voters target')" and me: "cc_me current \<in> ns_to_set (cc_voters current)"
  obtains X Y where "ns_ok voters'" "expected = cc_expected current"
    "ns_to_set voters' = ns_to_set (cc_voters current) - X \<union> Y"
    "X \<subseteq> ns_to_set (cc_voters current) - ns_to_set (mt_voters target')" "card X \<le> 1"
    "Y \<subseteq> ns_to_set (mt_voters target') - ns_to_set (cc_voters current)" "card Y \<le> 1"
    "X \<union> Y \<noteq> {}" "\<forall>y \<in> Y. promotable leader y"
    "cc_me current \<in> X \<longrightarrow> ns_len (cc_voters current) = 1 \<and> ns_len (mt_voters target') = 1"
proof -
  let ?V = "ns_to_set (cc_voters current)" and ?T = "ns_to_set (mt_voters target')"
  let ?me = "cc_me current"
  define add where "add = filter (\<lambda>node. \<not> ns_contains (cc_voters current) node) (ns_iter (mt_voters target'))"
  define others where
    "others = filter (\<lambda>node. node \<noteq> ?me) (filter (\<lambda>node. \<not> ns_contains (mt_voters target') node) (ns_iter (cc_voters current)))"
  define y where "y = find (promotable leader) add"
  define x where "x = (case find (\<lambda>node. node \<notin> cc_live current) others of
      Some x \<Rightarrow> Some x | None \<Rightarrow> (case others of [] \<Rightarrow> None | x # _ \<Rightarrow> Some x))"
  define drops where "drops \<longleftrightarrow> ns_len (cc_voters current) \<ge> ns_len (mt_voters target')"
  define adds where "adds \<longleftrightarrow> ns_len (cc_voters current) \<le> ns_len (mt_voters target')"
  note plan = assms(1)[unfolded plan_voters_def Let_def, folded promotable_def add_def others_def, folded y_def x_def, folded drops_def adds_def]
  have y_in: "v \<in> ?T - ?V \<and> promotable leader v" if "y = Some v" for v
    using that ok by (auto simp: y_def add_def dest!: find_Some_in)
  have x_in: "v \<in> ?V - ?T \<and> v \<noteq> ?me" if "x = Some v" for v
  proof -
    have "v \<in> set others"
      using that by (auto simp: x_def split: option.splits list.splits dest!: find_Some_in)
    then show ?thesis using ok by (simp add: others_def)
  qed
  show thesis
  proof (cases "ns_len (cc_voters current) = 1 \<and> ns_len (mt_voters target') = 1")
    case True
    then obtain v where v: "y = Some v" "voters' = ns_single v" "expected = cc_expected current"
      using plan by (auto split: option.splits)
    have "card ?V = 1" "card ?T = 1" using True ok by (simp_all add: ns_len_card u64_max_def min_def split: if_splits)
    then have "?V = {?me}" "?T = {v}" using me y_in[OF v(1)] by (auto simp: card_1_singleton_iff)
    then show thesis using v y_in[OF v(1)] True by (intro that[of "{?me}" "{v}"]) auto
  next
    case False
    define X where "X = (if drops then set_option x else {})"
    define Y where "Y = (if adds then set_option y else {})"
    have some: "drops \<longrightarrow> x \<noteq> None" "adds \<longrightarrow> y \<noteq> None"
      and step: "voters' = ns_from_first ?me (sorted_list_of_set (?V - X \<union> Y))" "expected = cc_expected current"
      using plan False ok by (auto simp: X_def Y_def split: if_splits option.splits)
    have XY: "X \<subseteq> ?V - ?T - {?me}" "card X \<le> 1" "Y \<subseteq> ?T - ?V" "card Y \<le> 1" "\<forall>v \<in> Y. promotable leader v"
      using x_in y_in by (cases x; cases y; auto simp: X_def Y_def)+
    have "X \<union> Y \<noteq> {}" using some by (cases drops) (auto simp: X_def Y_def drops_def adds_def)
    moreover have "finite (?V - X \<union> Y)" "?me \<in> ?V - X \<union> Y" using XY ok me by (auto intro: finite_subset[of Y ?T])
    ultimately show thesis using XY step by (intro that[of X Y]) (auto simp: insert_absorb)
  qed
qed

lemma plan_membership_change:
  assumes "plan_membership_step view target' = ChangeVoters e voters'" "mv_leadership view = Leading leader"
    and "lv_membership leader = Committed_Membership expected (Uniform voters learners)"
  obtains live since where "mt_stage target' = Moving_Stage since" "voters \<noteq> mt_voters target'" "lv_view leader = Confirmed"
    "mv_me view \<in> ns_to_set voters" "set (filter (\<lambda>node. node \<notin> ns_to_set voters) (ns_iter (mt_voters target'))) \<subseteq> learners"
    "plan_voters \<lparr> cc_me = mv_me view, cc_expected = expected, cc_voters = voters, cc_learners = learners, cc_live = live \<rparr> leader target'
       = ChangeVoters e voters'"
  using assms
  by (cases "mt_stage target'"; cases "lv_view leader")
    (auto simp: plan_membership_step_def plan_uniform_def plan_learners_def is_voter_def Let_def filter_empty_conv split: if_splits)

section \<open>A group on the move\<close>

text \<open>Node 1 leads the group of nodes 1, 2 and 3 and moves it to nodes 1, 2 and 4; node 4 is a learner
  that caught up and whose gate is open.\<close>

definition moving_leader :: leader_view where
  "moving_leader = \<lparr> lv_membership = Committed_Membership (MembershipLogId (RaftLogId 2 1 8)) (Uniform (ns_from_first 1 [2, 3]) {4}),
     lv_committed_index = 9, lv_matched = [(4, Some 9)], lv_caught_up = {4}, lv_live = {2, 3}, lv_handoff_ready = {2},
     lv_gates = [(4, Peer_Open)], lv_unlisted = {}, lv_view = Confirmed \<rparr>"

definition sample_membership :: membership_view where
  "sample_membership = \<lparr> mv_me = 1, mv_leadership = Leading moving_leader \<rparr>"

definition sample_target :: membership_target where
  "sample_target = \<lparr> mt_voters = ns_from_first 1 [2, 4], mt_learners = {},
     mt_stage = Moving_Stage (PlacementEpoch (MetaLogId (RaftLogId 1 1 5))) \<rparr>"

lemma ns_iter_eqI: "ns_ok s \<Longrightarrow> sorted_wrt (<) xs \<Longrightarrow> set xs = ns_to_set s \<Longrightarrow> ns_iter s = xs"
  by (metis ns_iter_set ns_iter_sorted strict_sorted_equal)

lemma sample_iters: "ns_iter (ns_from_first 1 [2, 3]) = [1, 2, 3]" "ns_iter (ns_from_first 1 [2, 4]) = [1, 2, 4]"
  by (rule ns_iter_eqI; simp)+

lemma sample_lens: "ns_len (ns_from_first 1 [2, 3]) = 3" "ns_len (ns_from_first 1 [2, 4]) = 3"
  by (simp_all add: ns_len_card u64_max_def)

lemma sample_differ: "ns_from_first 1 [2, 3] \<noteq> ns_from_first 1 [2, 4]"
proof
  assume "ns_from_first 1 [2, 3] = ns_from_first 1 [2, 4 :: node_id]"
  then have "ns_iter (ns_from_first 1 [2, 3]) = ns_iter (ns_from_first 1 [2, 4])" by simp
  then show False unfolding sample_iters by simp
qed

lemma sample_next: "ns_from_first 1 (sorted_list_of_set (insert 4 ({1, 2, 3} - {3}))) = ns_from_first 1 [2, 4]"
  by (subst ns_eq_iff) (auto simp: set_insort_key)

lemma sample_change: "plan_membership_step sample_membership sample_target =
    ChangeVoters (MembershipLogId (RaftLogId 2 1 8)) (ns_from_first 1 [2, 4])"
  using sample_next
  by (simp add: plan_membership_step_def plan_uniform_def plan_voters_def sample_membership_def moving_leader_def sample_target_def
    is_voter_def sample_iters sample_lens sample_differ del: One_nat_def)

lemma sample_leads: "mv_leadership sample_membership = Leading moving_leader"
    "lv_membership moving_leader = Committed_Membership (MembershipLogId (RaftLogId 2 1 8)) (Uniform (ns_from_first 1 [2, 3]) {4})"
  by (simp_all only: sample_membership_def moving_leader_def membership_view.select_convs leader_view.select_convs)

lemma sample_target_ok: "ns_ok (mt_voters sample_target)"
  by (simp add: sample_target_def)

section \<open>Properties\<close>

text \<open>C7.  A planned voter change is safe.  From a committed uniform config it happens only under a moving
  target and a confirmed view, is keyed by the config it was planned from, drops at most one voter and
  only one outside the target, promotes at most one node and only a learner of the target that caught
  up, is listed and has an open gate, and keeps the leader a voter except when the only voter of a
  group is replaced by another single one.\<close>

theorem voter_change_safe:
  assumes "plan_membership_step view target' = ChangeVoters e voters'" and "mv_leadership view = Leading leader"
    and "lv_membership leader = Committed_Membership expected (Uniform voters learners)"
    and "ns_ok voters" "ns_ok (mt_voters target')"
  shows "e = expected \<and> ns_ok voters' \<and> (\<exists>since. mt_stage target' = Moving_Stage since) \<and> lv_view leader = Confirmed \<and>
    card (ns_to_set voters - ns_to_set voters') \<le> 1 \<and> (ns_to_set voters - ns_to_set voters') \<inter> ns_to_set (mt_voters target') = {} \<and>
    card (ns_to_set voters' - ns_to_set voters) \<le> 1 \<and>
    ns_to_set voters' - ns_to_set voters \<subseteq> {n \<in> ns_to_set (mt_voters target') \<inter> learners.
      n \<in> lv_caught_up leader \<and> n \<notin> lv_unlisted leader \<and> map_of (lv_gates leader) n = Some Peer_Open} \<and>
    (mv_me view \<in> ns_to_set voters' \<or> ns_len voters = 1 \<and> ns_len (mt_voters target') = 1)"
proof -
  obtain live since where p: "mt_stage target' = Moving_Stage since" "lv_view leader = Confirmed" "mv_me view \<in> ns_to_set voters"
      "ns_to_set (mt_voters target') - ns_to_set voters \<subseteq> learners"
      "plan_voters \<lparr> cc_me = mv_me view, cc_expected = expected, cc_voters = voters, cc_learners = learners, cc_live = live \<rparr> leader target'
       = ChangeVoters e voters'"
    by (rule plan_membership_change[OF assms(1-3)]) (use assms(5) in auto)
  obtain X Y where q: "ns_ok voters'" "e = expected" "ns_to_set voters' = ns_to_set voters - X \<union> Y"
      "X \<subseteq> ns_to_set voters - ns_to_set (mt_voters target')" "card X \<le> 1"
      "Y \<subseteq> ns_to_set (mt_voters target') - ns_to_set voters" "card Y \<le> 1" "\<forall>y \<in> Y. promotable leader y"
      "mv_me view \<in> X \<longrightarrow> ns_len voters = 1 \<and> ns_len (mt_voters target') = 1"
    by (rule plan_voters_change[OF p(5)]) (use assms(4,5) p(3) in auto)
  have "ns_to_set voters - ns_to_set voters' = X" "ns_to_set voters' - ns_to_set voters = Y" using q(3,4,6) by auto
  then show ?thesis using p q by (auto simp: promotable_def)
qed

theorem voter_change_safe_witness:
  "(\<exists>since. mt_stage sample_target = Moving_Stage since) \<and> lv_view moving_leader = Confirmed \<and>
     card (ns_to_set (ns_from_first 1 [2, 3]) - ns_to_set (ns_from_first 1 [2, 4])) \<le> 1"
  using voter_change_safe[OF sample_change sample_leads ns_from_first_ok sample_target_ok] by blast

text \<open>A voter change that some leading replica plans from a committed config, whatever else it sees.\<close>

definition plans_voters :: "membership_target \<Rightarrow> membership_config \<Rightarrow> voter_set \<Rightarrow> bool" where
  "plans_voters target' config voters' =
     (\<exists>view leader expected e. mv_leadership view = Leading leader \<and>
        lv_membership leader = Committed_Membership expected config \<and>
        plan_membership_step view target' = ChangeVoters e voters')"

lemma voter_step_closer:
  assumes "plans_voters target' (Uniform voters learners) voters'" "ns_ok voters" "ns_ok (mt_voters target')"
  shows "ns_ok voters' \<and> voter_distance voters' (mt_voters target') < voter_distance voters (mt_voters target')"
proof -
  obtain view leader expected e where s: "mv_leadership view = Leading leader"
      "lv_membership leader = Committed_Membership expected (Uniform voters learners)"
      "plan_membership_step view target' = ChangeVoters e voters'"
    using assms(1) by (auto simp: plans_voters_def)
  obtain live where p: "mv_me view \<in> ns_to_set voters"
      "plan_voters \<lparr> cc_me = mv_me view, cc_expected = expected, cc_voters = voters, cc_learners = learners, cc_live = live \<rparr> leader target'
       = ChangeVoters e voters'"
    by (rule plan_membership_change[OF s(3,1,2)]) auto
  obtain X Y where q: "ns_ok voters'" "ns_to_set voters' = ns_to_set voters - X \<union> Y"
      "X \<subseteq> ns_to_set voters - ns_to_set (mt_voters target')" "Y \<subseteq> ns_to_set (mt_voters target') - ns_to_set voters" "X \<union> Y \<noteq> {}"
    by (rule plan_voters_change[OF p(2)]) (use assms p(1) in auto)
  then show ?thesis using distance_swap[OF assms(2,3) q(2-5)] by simp
qed















lemma find_ready: "(\<And>v. v \<in> set xs \<Longrightarrow> P v) \<Longrightarrow> find P xs = None \<Longrightarrow> xs = []"
  by (cases xs) (auto split: if_splits)

lemma plan_voters_ready:
  assumes ok: "ns_ok (cc_voters current)" "ns_ok (mt_voters target')"
    and len: "ns_len (cc_voters current) < u64_max" "ns_len (mt_voters target') < u64_max"
    and me: "cc_me current \<in> ns_to_set (mt_voters target')" and "cc_voters current \<noteq> mt_voters target'"
    and ready: "\<And>n. n \<in> ns_to_set (mt_voters target') - ns_to_set (cc_voters current) \<Longrightarrow> promotable leader n"
  shows "\<exists>voters'. plan_voters current leader target' = ChangeVoters (cc_expected current) voters'"
proof -
  let ?V = "ns_to_set (cc_voters current)" and ?T = "ns_to_set (mt_voters target')"
  define add where "add = filter (\<lambda>node. \<not> ns_contains (cc_voters current) node) (ns_iter (mt_voters target'))"
  define others where "others = filter (\<lambda>node. node \<noteq> cc_me current)
     (filter (\<lambda>node. \<not> ns_contains (mt_voters target') node) (ns_iter (cc_voters current)))"
  have sets: "set add = ?T - ?V" "set others = ?V - ?T" using ok me by (auto simp: add_def others_def)
  have ne: "?V \<noteq> ?T" using assms(6) ns_eq_iff[OF ok] by simp
  have lens: "ns_len (cc_voters current) = card ?V" "ns_len (mt_voters target') = card ?T" using ns_len_exact ok len by auto
  have y: "find (promotable leader) add = None \<Longrightarrow> card ?T < card ?V"
    using find_ready[of add "promotable leader"] ready sets ne ok by (auto intro!: psubset_card_mono)
  have x: "others = [] \<Longrightarrow> card ?V < card ?T"
    using sets ne ok by (auto intro!: psubset_card_mono)
  show ?thesis
    unfolding plan_voters_def Let_def add_def[symmetric] others_def[symmetric] promotable_def[symmetric] lens
    using x y by (auto split: option.splits list.splits)
qed

text \<open>C12.  Reconciliation advances: when a leader with a confirmed view that stays in a moving target leads
  a committed uniform config, and the targets outside the voters are learners that caught up, are
  listed and have open gates, its next step is a voter change, keyed by that config, that brings the
  voters strictly closer to the target.\<close>

theorem ready_leader_advances:
  assumes "mv_leadership view = Leading leader" "lv_membership leader = Committed_Membership expected (Uniform voters learners)"
    and "ns_ok voters" "ns_ok (mt_voters target')" "ns_len voters < u64_max" "ns_len (mt_voters target') < u64_max"
    and "mv_me view \<in> ns_to_set voters \<inter> ns_to_set (mt_voters target')" "voters \<noteq> mt_voters target'"
    and "mt_stage target' = Moving_Stage since" "lv_view leader = Confirmed"
    and "ns_to_set (mt_voters target') - ns_to_set voters \<subseteq> {n \<in> learners.
      n \<in> lv_caught_up leader \<and> n \<notin> lv_unlisted leader \<and> map_of (lv_gates leader) n = Some Peer_Open}"
  shows "\<exists>voters'. plan_membership_step view target' = ChangeVoters expected voters' \<and>
    voter_distance voters' (mt_voters target') < voter_distance voters (mt_voters target')"
proof -
  define current where "current = \<lparr> cc_me = mv_me view, cc_expected = expected, cc_voters = voters, cc_learners = learners,
    cc_live = insert (mv_me view) (lv_live leader) \<rparr>"
  have "set (filter (\<lambda>node. \<not> ns_contains voters node \<and> node \<notin> learners) (ns_iter (mt_voters target'))) = {}"
    using assms(4,11) by auto
  then have "plan_membership_step view target' = plan_voters current leader target'"
    using assms(1,2,7-10)
    by (simp add: plan_membership_step_def plan_uniform_def is_voter_def Let_def current_def del: set_filter)
  moreover have "\<exists>voters'. plan_voters current leader target' = ChangeVoters expected voters'"
    using plan_voters_ready[of current target' leader] assms(3-8,11) by (auto simp: current_def promotable_def)
  ultimately obtain voters' where step: "plan_membership_step view target' = ChangeVoters expected voters'" by auto
  then have "plans_voters target' (Uniform voters learners) voters'" using assms(1,2) by (auto simp: plans_voters_def)
  with step show ?thesis using voter_step_closer assms(3,4) by blast
qed

theorem ready_leader_advances_witness:
  "\<exists>voters'. plan_membership_step sample_membership sample_target = ChangeVoters (MembershipLogId (RaftLogId 2 1 8)) voters' \<and>
     voter_distance voters' (mt_voters sample_target) < voter_distance (ns_from_first 1 [2, 3]) (mt_voters sample_target)"
proof (rule ready_leader_advances[OF sample_leads ns_from_first_ok sample_target_ok])
  show "ns_from_first 1 [2, 3] \<noteq> mt_voters sample_target"
    by (simp add: sample_target_def sample_differ del: One_nat_def)
  show "ns_len (ns_from_first 1 [2, 3]) < u64_max" "ns_len (mt_voters sample_target) < u64_max"
    by (simp_all add: sample_target_def sample_lens u64_max_def del: One_nat_def)
qed (simp_all add: sample_target_def sample_membership_def moving_leader_def)

end
