(* ===== verification/Catch_Up.thy ===== *)
theory Catch_Up
  imports Reconcile
begin

text \<open>
  When a learner has caught up (\<^verbatim>\<open>ursula-control/src/placement/reconcile/catch_up.rs\<close>): the rounds a leader
  follows its learners with, and what being caught up promises over a whole history of observations.
\<close>

section \<open>Rounds\<close>

record round =
  rd_target :: u64
  rd_started_ms :: u64
  rd_kept_up :: bool

type_synonym catch_up_rounds = "(node_id, round) btreemap"

definition default_rounds :: catch_up_rounds where
  "default_rounds = []"

definition observe_round :: "u64 \<Rightarrow> u64 \<Rightarrow> u64 \<Rightarrow> u64 option \<Rightarrow> round \<Rightarrow> round" where
  "observe_round now_ms bound_ms committed matched r =
     (let elapsed = now_ms - rd_started_ms r in
      if (case matched of None \<Rightarrow> False | Some m \<Rightarrow> m \<ge> rd_target r)
      then \<lparr> rd_target = committed, rd_started_ms = now_ms, rd_kept_up = (elapsed \<le> bound_ms) \<rparr>
      else if elapsed > bound_ms then r\<lparr> rd_kept_up := False \<rparr>
      else r)"

definition entry_round :: "u64 \<Rightarrow> u64 \<Rightarrow> node_id \<Rightarrow> catch_up_rounds \<Rightarrow> round" where
  "entry_round now_ms committed learner rounds =
     (case map_of rounds learner of
        Some r \<Rightarrow> r
      | None \<Rightarrow> \<lparr> rd_target = committed, rd_started_ms = now_ms, rd_kept_up = False \<rparr>)"

definition observe_learners ::
  "u64 \<Rightarrow> u64 \<Rightarrow> u64 \<Rightarrow> (node_id, u64 option) btreemap \<Rightarrow> node_id set \<Rightarrow> catch_up_rounds \<Rightarrow> catch_up_rounds \<times> node_id set" where
  "observe_learners now_ms bound_ms committed matched learners rounds =
     fold (\<lambda>learner (rounds, caught_up).
         let r = observe_round now_ms bound_ms committed (Option.bind (map_of matched learner) id)
               (entry_round now_ms committed learner rounds)
         in (AList.update learner r rounds, if rd_kept_up r then insert learner caught_up else caught_up))
       (sorted_list_of_set learners) (filter (\<lambda>(node, _). node \<in> learners) rounds, {})"

section \<open>What one observation does\<close>

lemma observe_fold:
  fixes step :: "node_id \<Rightarrow> round \<Rightarrow> round" and now committed :: u64
  assumes "distinct ls"
  defines "f \<equiv> \<lambda>l (rounds, caught). let r = step l (entry_round now committed l rounds)
    in (AList.update l r rounds, if rd_kept_up r then insert l caught else caught)"
  shows "map_of (fst (fold f ls (rounds, caught))) l =
      (if l \<in> set ls then Some (step l (entry_round now committed l rounds)) else map_of rounds l) \<and>
    snd (fold f ls (rounds, caught)) = caught \<union> {l \<in> set ls. rd_kept_up (step l (entry_round now committed l rounds))}"
  using assms(1)
proof (induction ls arbitrary: rounds caught)
  case (Cons a ls)
  define rounds' where "rounds' = AList.update a (step a (entry_round now committed a rounds)) rounds"
  have entry: "k \<noteq> a \<Longrightarrow> entry_round now committed k rounds' = entry_round now committed k rounds" for k
    by (simp add: entry_round_def rounds'_def update_conv')
  have kept: "{k \<in> set ls. rd_kept_up (step k (entry_round now committed k rounds'))} =
      {k \<in> set ls. rd_kept_up (step k (entry_round now committed k rounds))}"
    using entry Cons.prems by (metis (mono_tags, lifting) distinct.simps(2))
  have at_a: "map_of rounds' a = Some (step a (entry_round now committed a rounds))" "k \<noteq> a \<Longrightarrow> map_of rounds' k = map_of rounds k" for k
    by (simp_all add: rounds'_def update_conv')
  have first: "fold f (a # ls) (rounds, caught) =
      fold f ls (rounds', if rd_kept_up (step a (entry_round now committed a rounds)) then insert a caught else caught)"
    by (simp add: f_def rounds'_def Let_def)
  show ?case
    unfolding first using Cons.IH[of rounds'] Cons.prems entry kept at_a by (cases "l = a") auto
qed simp

lemma observe_lookup:
  assumes "finite learners"
  shows "map_of (fst (observe_learners now bound committed matched learners rounds)) l =
      (if l \<in> learners then Some (observe_round now bound committed (Option.bind (map_of matched l) id) (entry_round now committed l rounds))
       else None)"
    and "snd (observe_learners now bound committed matched learners rounds) =
      {l \<in> learners. rd_kept_up (observe_round now bound committed (Option.bind (map_of matched l) id) (entry_round now committed l rounds))}"
proof -
  let ?kept = "filter (\<lambda>(node, _). node \<in> learners) rounds"
  have look: "map_of ?kept k = (if k \<in> learners then map_of rounds k else None)" for k
    by (induction rounds) auto
  have entry: "k \<in> learners \<Longrightarrow> entry_round now committed k ?kept = entry_round now committed k rounds" for k
    by (simp add: entry_round_def look)
  note f = observe_fold[of "sorted_list_of_set learners" "\<lambda>l. observe_round now bound committed (Option.bind (map_of matched l) id)"
    now committed ?kept "{}"]
  show "map_of (fst (observe_learners now bound committed matched learners rounds)) l =
      (if l \<in> learners then Some (observe_round now bound committed (Option.bind (map_of matched l) id) (entry_round now committed l rounds))
       else None)"
    using f[of l] assms entry look by (simp add: observe_learners_def)
  show "snd (observe_learners now bound committed matched learners rounds) =
      {l \<in> learners. rd_kept_up (observe_round now bound committed (Option.bind (map_of matched l) id) (entry_round now committed l rounds))}"
    using f[of l] assms entry by (auto simp: observe_learners_def)
qed

section \<open>Histories of observations\<close>

record observation =
  ob_now :: u64
  ob_committed :: u64
  ob_matched :: "(node_id, u64 option) btreemap"
  ob_learners :: "node_id set"

definition observe_at :: "u64 \<Rightarrow> observation \<Rightarrow> catch_up_rounds \<Rightarrow> catch_up_rounds \<times> node_id set" where
  "observe_at bound ob = observe_learners (ob_now ob) bound (ob_committed ob) (ob_matched ob) (ob_learners ob)"

definition rounds_after :: "u64 \<Rightarrow> observation list \<Rightarrow> catch_up_rounds" where
  "rounds_after bound obs = fold (\<lambda>ob rounds. fst (observe_at bound ob rounds)) obs default_rounds"

text \<open>The learner stayed one from observation \<open>h\<close> on, and matched at observation \<open>i\<close> the index committed at
  observation \<open>h\<close>, within the bound.\<close>

definition matched_within :: "u64 \<Rightarrow> observation list \<Rightarrow> node_id \<Rightarrow> nat \<Rightarrow> nat \<Rightarrow> bool" where
  "matched_within bound obs l h i =
     (h \<le> i \<and> i < length obs \<and> (\<forall>k. h \<le> k \<longrightarrow> k < length obs \<longrightarrow> l \<in> ob_learners (obs ! k)) \<and>
      (\<exists>m. map_of (ob_matched (obs ! i)) l = Some (Some m) \<and> ob_committed (obs ! h) \<le> m) \<and>
      ob_now (obs ! i) - ob_now (obs ! h) \<le> bound)"

definition round_ok :: "u64 \<Rightarrow> observation list \<Rightarrow> node_id \<Rightarrow> round \<Rightarrow> bool" where
  "round_ok bound obs l r =
     (\<exists>i < length obs. rd_target r = ob_committed (obs ! i) \<and> rd_started_ms r = ob_now (obs ! i) \<and>
        (\<forall>k. i \<le> k \<longrightarrow> k < length obs \<longrightarrow> l \<in> ob_learners (obs ! k)) \<and>
        (rd_kept_up r \<longrightarrow> ob_now (last obs) - ob_now (obs ! i) \<le> bound \<and> (\<exists>h. matched_within bound obs l h i)))"

lemma matched_within_snoc:
  "matched_within bound obs l h i \<Longrightarrow> l \<in> ob_learners ob \<Longrightarrow> matched_within bound (obs @ [ob]) l h i"
  by (auto simp: matched_within_def nth_append less_Suc_eq)

text \<open>One observation keeps what a round says of the history; a round entered now says it of the
  observation itself.\<close>

lemma observe_round_ok:
  assumes "l \<in> ob_learners ob"
    and r: "round_ok bound obs l r \<or> r = \<lparr> rd_target = ob_committed ob, rd_started_ms = ob_now ob, rd_kept_up = False \<rparr>"
  shows "round_ok bound (obs @ [ob]) l (observe_round (ob_now ob) bound (ob_committed ob) (Option.bind (map_of (ob_matched ob) l) id) r)"
proof -
  let ?obs = "obs @ [ob]" and ?n = "length obs"
  obtain i where i: "i < length ?obs" "rd_target r = ob_committed (?obs ! i)" "rd_started_ms r = ob_now (?obs ! i)"
      "\<forall>k. i \<le> k \<longrightarrow> k < length ?obs \<longrightarrow> l \<in> ob_learners (?obs ! k)"
    and kept: "rd_kept_up r \<longrightarrow> (\<exists>h. matched_within bound ?obs l h i)"
  proof (cases "round_ok bound obs l r")
    case True
    then obtain i where "i < ?n" "rd_target r = ob_committed (obs ! i)" "rd_started_ms r = ob_now (obs ! i)"
      "\<forall>k. i \<le> k \<longrightarrow> k < ?n \<longrightarrow> l \<in> ob_learners (obs ! k)" "rd_kept_up r \<longrightarrow> (\<exists>h. matched_within bound obs l h i)"
      by (auto simp: round_ok_def)
    then show thesis using assms(1) by (intro that[of i]) (auto simp: nth_append less_Suc_eq intro: matched_within_snoc)
  next
    case False
    then show thesis using r assms(1) by (intro that[of ?n]) (auto simp: nth_append)
  qed
  show ?thesis
  proof (cases "case Option.bind (map_of (ob_matched ob) l) id of None \<Rightarrow> False | Some m \<Rightarrow> m \<ge> rd_target r")
    case True
    then obtain m where "map_of (ob_matched ob) l = Some (Some m)" "rd_target r \<le> m"
      by (auto split: option.splits simp: bind_eq_Some_conv)
    then have "ob_now ob - rd_started_ms r \<le> bound \<longrightarrow> matched_within bound ?obs l i ?n"
      using i by (auto simp: matched_within_def)
    then show ?thesis
      unfolding round_ok_def observe_round_def Let_def if_P[OF True] using assms(1) by (intro exI[of _ ?n]) (auto simp: nth_append)
  next
    case False
    then show ?thesis
      unfolding round_ok_def observe_round_def Let_def if_not_P[OF False] using i kept by (intro exI[of _ i]) auto
  qed
qed

lemma rounds_after_snoc: "rounds_after bound (obs @ [ob]) = fst (observe_at bound ob (rounds_after bound obs))"
  by (simp add: rounds_after_def)

lemma entry_after_ok:
  assumes "\<And>l r. map_of (rounds_after bound obs) l = Some r \<Longrightarrow> round_ok bound obs l r"
  shows "round_ok bound obs l (entry_round now committed l (rounds_after bound obs)) \<or>
    entry_round now committed l (rounds_after bound obs) = \<lparr> rd_target = committed, rd_started_ms = now, rd_kept_up = False \<rparr>"
  using assms by (auto simp: entry_round_def split: option.splits)

lemma rounds_after_ok:
  assumes "\<forall>ob \<in> set obs. finite (ob_learners ob)" "map_of (rounds_after bound obs) l = Some r"
  shows "round_ok bound obs l r"
  using assms
proof (induction obs arbitrary: l r rule: rev_induct)
  case (snoc ob obs)
  then show ?case
    using observe_round_ok[OF _ entry_after_ok, of l ob bound obs]
    by (simp add: rounds_after_snoc observe_at_def observe_lookup split: if_splits)
qed (simp add: rounds_after_def default_rounds_def)

section \<open>Properties\<close>

text \<open>C10.  A learner that counts as caught up is recent: over any history of observations, at whatever
  times, it has stayed a learner since an observation \<open>h\<close>, matched at a later observation \<open>i\<close> the index
  that was committed at \<open>h\<close>, at most the bound after it, and \<open>i\<close> is at most the bound ago.\<close>

theorem caught_up_recent:
  assumes "\<forall>ob' \<in> set (obs @ [ob]). finite (ob_learners ob')" and "l \<in> snd (observe_at bound ob (rounds_after bound obs))"
  shows "\<exists>h i m. h \<le> i \<and> i \<le> length obs \<and> (\<forall>k. h \<le> k \<longrightarrow> k \<le> length obs \<longrightarrow> l \<in> ob_learners ((obs @ [ob]) ! k)) \<and>
    map_of (ob_matched ((obs @ [ob]) ! i)) l = Some (Some m) \<and> ob_committed ((obs @ [ob]) ! h) \<le> m \<and>
    ob_now ((obs @ [ob]) ! i) - ob_now ((obs @ [ob]) ! h) \<le> bound \<and> ob_now ob - ob_now ((obs @ [ob]) ! i) \<le> bound"
proof -
  obtain r where r: "map_of (rounds_after bound (obs @ [ob])) l = Some r" "rd_kept_up r"
    using assms by (auto simp: rounds_after_snoc observe_at_def observe_lookup)
  have "round_ok bound (obs @ [ob]) l r" by (rule rounds_after_ok[OF assms(1) r(1)])
  then obtain h i where "matched_within bound (obs @ [ob]) l h i" "ob_now ob - ob_now ((obs @ [ob]) ! i) \<le> bound"
    using r(2) by (auto simp: round_ok_def)
  then show ?thesis unfolding matched_within_def by (auto simp: less_Suc_eq_le)
qed

definition sample_observations :: "observation list" where
  "sample_observations = [\<lparr> ob_now = 0, ob_committed = 5, ob_matched = [(4, Some 3)], ob_learners = {4} \<rparr>]"

definition sample_observation :: observation where
  "sample_observation = \<lparr> ob_now = 10, ob_committed = 8, ob_matched = [(4, Some 6)], ob_learners = {4} \<rparr>"

lemma sample_caught_up: "4 \<in> snd (observe_at 3000 sample_observation (rounds_after 3000 sample_observations))"
  by (simp add: sample_observation_def sample_observations_def rounds_after_def default_rounds_def observe_at_def observe_lookup
    entry_round_def observe_round_def)

theorem caught_up_recent_witness:
  "\<exists>h i m. h \<le> i \<and> i \<le> length sample_observations \<and>
     map_of (ob_matched ((sample_observations @ [sample_observation]) ! i)) 4 = Some (Some m) \<and>
     ob_committed ((sample_observations @ [sample_observation]) ! h) \<le> m"
  using caught_up_recent[OF _ sample_caught_up] by (auto simp: sample_observations_def sample_observation_def)

text \<open>The rule is not vacuous: a learner that matches, within the bound, the target of its running round is
  caught up at once, however far the commit index moved on meanwhile.\<close>

lemma matched_round_catches_up:
  assumes "finite (ob_learners ob)" "l \<in> ob_learners ob" "map_of rounds l = Some r"
    and "map_of (ob_matched ob) l = Some (Some m)" "rd_target r \<le> m" "ob_now ob - rd_started_ms r \<le> bound"
  shows "l \<in> snd (observe_at bound ob rounds)"
  using assms by (simp add: observe_at_def observe_lookup entry_round_def observe_round_def)

end
