(* ===== verification/Gc_Path.thy ===== *)
theory Gc_Path
  imports Validate Hot_Buffer
begin

text \<open>
  The object keys of the cold store and the guard of the cold GC worker, from
  \<^verbatim>\<open>crates/ursula-runtime/src/cold_store.rs\<close>: how the chunks, packs and external payloads of a bucket are
  named, and which of the paths in a queued entry the worker may delete.  The clock reading and the
  nonce a new key carries, and the function that places a stream in a group, are arguments.
  \<^verbatim>\<open>format!("{:016x}")\<close>, \<^verbatim>\<open>from_str_radix\<close>, \<^verbatim>\<open>strip_prefix\<close> and \<^verbatim>\<open>strip_suffix\<close> are the standard library's.
\<close>

section \<open>Hexadecimal text\<close>

definition u128_max :: nat where
  "u128_max = 0xffffffffffffffffffffffffffffffff"

fun lower_hex :: "nat \<Rightarrow> string" where
  "lower_hex n = (if n < 16 then [hex_digit n] else lower_hex (n div 16) @ [hex_digit (n mod 16)])"

declare lower_hex.simps [simp del]

definition format_hex :: "nat \<Rightarrow> nat \<Rightarrow> string" where
  "format_hex width n = replicate (width - length (lower_hex n)) (CHR ''0'') @ lower_hex n"

definition to_digit16 :: "char \<Rightarrow> nat option" where
  "to_digit16 c =
     (if CHR ''0'' \<le> c \<and> c \<le> CHR ''9'' then Some (of_char c - 48)
      else if CHR ''a'' \<le> c \<and> c \<le> CHR ''f'' then Some (of_char c - 87)
      else if CHR ''A'' \<le> c \<and> c \<le> CHR ''F'' then Some (of_char c - 55)
      else None)"

definition is_ascii_hexdigit :: "char \<Rightarrow> bool" where
  "is_ascii_hexdigit c \<longleftrightarrow> to_digit16 c \<noteq> None"

text \<open>Digits are accumulated with a check for overflow at each; an optional plus sign comes first, and a
  number has a digit.\<close>

fun radix16_digits :: "nat \<Rightarrow> nat \<Rightarrow> string \<Rightarrow> nat option" where
  "radix16_digits limit acc [] = Some acc"
| "radix16_digits limit acc (c # s) =
     (case to_digit16 c of
        None \<Rightarrow> None
      | Some d \<Rightarrow> if acc * 16 + d > limit then None else radix16_digits limit (acc * 16 + d) s)"

definition from_str_radix16 :: "nat \<Rightarrow> string \<Rightarrow> nat option" where
  "from_str_radix16 limit s =
     (let digits = (if prefix ''+'' s then tl s else s)
      in if digits = [] then None else radix16_digits limit 0 digits)"

definition strip_prefix :: "string \<Rightarrow> string \<Rightarrow> string option" where
  "strip_prefix p s = (if prefix p s then Some (drop (length p) s) else None)"

definition strip_suffix :: "string \<Rightarrow> string \<Rightarrow> string option" where
  "strip_suffix p s = (if suffix p s then Some (take (length s - length p) s) else None)"

section \<open>Object keys\<close>

definition display_stream_id :: "bucket_stream_id \<Rightarrow> string" where
  "display_stream_id stream_id = bsi_bucket stream_id @ ''/'' @ bsi_stream stream_id"

definition cold_chunk_prefix :: "bucket_stream_id \<Rightarrow> string" where
  "cold_chunk_prefix stream_id = display_stream_id stream_id @ ''/chunks/''"

definition cold_chunk_dir :: "bucket_stream_id \<Rightarrow> u64 \<Rightarrow> string" where
  "cold_chunk_dir stream_id generation = cold_chunk_prefix stream_id @ format_hex 16 generation @ ''/''"

definition cold_external_dir :: "bucket_stream_id \<Rightarrow> string" where
  "cold_external_dir stream_id = display_stream_id stream_id @ ''/external/''"

definition cold_pack_dir :: "string \<Rightarrow> u32 \<Rightarrow> string" where
  "cold_pack_dir bucket_id raft_group_id = bucket_id @ ''/_packs/'' @ format_hex 8 raft_group_id @ ''/''"

definition cold_bucket_prefix :: "string \<Rightarrow> string" where
  "cold_bucket_prefix bucket_id = bucket_id @ ''/''"

definition new_cold_chunk_path_in_generation ::
    "nat \<Rightarrow> u64 \<Rightarrow> bucket_stream_id \<Rightarrow> u64 \<Rightarrow> u64 \<Rightarrow> u64 \<Rightarrow> string" where
  "new_cold_chunk_path_in_generation unix_nanos nonce stream_id generation start_offset end_offset =
     cold_chunk_dir stream_id generation @ format_hex 16 start_offset @ ''-'' @ format_hex 16 end_offset @ ''-'' @
     format_hex 32 unix_nanos @ ''-'' @ format_hex 16 nonce @ ''.bin''"

definition new_cold_pack_path :: "nat \<Rightarrow> u64 \<Rightarrow> string \<Rightarrow> u32 \<Rightarrow> string" where
  "new_cold_pack_path unix_nanos nonce bucket_id raft_group_id =
     cold_pack_dir bucket_id raft_group_id @ format_hex 32 unix_nanos @ ''-'' @ format_hex 16 nonce @ ''.bin''"

definition new_external_payload_path :: "nat \<Rightarrow> u64 \<Rightarrow> bucket_stream_id \<Rightarrow> string" where
  "new_external_payload_path unix_nanos nonce stream_id =
     display_stream_id stream_id @ ''/external/'' @ format_hex 32 unix_nanos @ ''-'' @ format_hex 16 nonce @ ''.bin''"

definition hex_fields_with_suffix :: "string \<Rightarrow> string \<Rightarrow> nat list \<Rightarrow> bool" where
  "hex_fields_with_suffix name suffix' widths =
     (case strip_suffix suffix' name of
        None \<Rightarrow> False
      | Some stem \<Rightarrow>
          let fields = split_at_char (CHR ''-'') stem
          in length fields = length widths \<and>
             list_all (\<lambda>(field, width). length field = width \<and> list_all is_ascii_hexdigit field) (zip fields widths))"

definition is_cold_chunk_file_name :: "string \<Rightarrow> bool" where
  "is_cold_chunk_file_name name = hex_fields_with_suffix name ''.bin'' [16, 16, 32, 16]"

definition is_external_payload_file_name :: "string \<Rightarrow> bool" where
  "is_external_payload_file_name name = hex_fields_with_suffix name ''.bin'' [32, 16]"

definition cold_chunk_file_range :: "string \<Rightarrow> (u64 \<times> u64) option" where
  "cold_chunk_file_range name =
     (if \<not> is_cold_chunk_file_name name then None
      else case split_at_char (CHR ''-'') name of
             start # end' # _ \<Rightarrow>
               (case (from_str_radix16 u64_max start, from_str_radix16 u64_max end') of
                  (Some s, Some e) \<Rightarrow> Some (s, e)
                | _ \<Rightarrow> None)
           | _ \<Rightarrow> None)"

section \<open>The guard of the cold GC worker\<close>

datatype cold_gc_path_kind =
    ExclusiveChunk bucket_stream_id u64
  | Pack u32
  | External bucket_stream_id

datatype cold_gc_refusal =
    ForeignPath u32 u64 string string
  | ForeignStream u32 u64 string bucket_stream_id

definition gc_pack :: "string list \<Rightarrow> cold_gc_path_kind option" where
  "gc_pack dirs =
     (case dirs of
        [kind, group'] \<Rightarrow> if kind = ''_packs'' then map_option Pack (from_str_radix16 u32_max group') else None
      | _ \<Rightarrow> None)"

definition gc_stream_id :: "string \<Rightarrow> string \<Rightarrow> bucket_stream_id option" where
  "gc_stream_id bucket_id stream =
     (let stream_id = BucketStreamId bucket_id stream
      in if validate_stream_id stream_id = None then Some stream_id else None)"

definition gc_exclusive_chunk :: "string \<Rightarrow> string list \<Rightarrow> cold_gc_path_kind option" where
  "gc_exclusive_chunk bucket_id dirs =
     (case dirs of
        [stream, kind, generation] \<Rightarrow>
          if kind = ''chunks''
          then (case (gc_stream_id bucket_id stream, from_str_radix16 u64_max generation) of
                  (Some stream_id, Some g) \<Rightarrow> Some (ExclusiveChunk stream_id g)
                | _ \<Rightarrow> None)
          else None
      | _ \<Rightarrow> None)"

definition gc_external :: "string \<Rightarrow> string list \<Rightarrow> cold_gc_path_kind option" where
  "gc_external bucket_id dirs =
     (case dirs of
        [stream, kind] \<Rightarrow> if kind = ''external'' then map_option External (gc_stream_id bucket_id stream) else None
      | _ \<Rightarrow> None)"

fun gc_dir :: "string \<Rightarrow> cold_gc_path_kind \<Rightarrow> string" where
  "gc_dir bucket_id (ExclusiveChunk stream_id generation) = cold_chunk_dir stream_id generation"
| "gc_dir bucket_id (Pack raft_group_id) = cold_pack_dir bucket_id raft_group_id"
| "gc_dir bucket_id (External stream_id) = cold_external_dir stream_id"

fun gc_accepts_file_name :: "cold_gc_path_kind \<Rightarrow> string \<Rightarrow> bool" where
  "gc_accepts_file_name (ExclusiveChunk _ _) name = is_cold_chunk_file_name name"
| "gc_accepts_file_name (Pack _) name = is_external_payload_file_name name"
| "gc_accepts_file_name (External _) name = is_external_payload_file_name name"

fun gc_owner :: "(bucket_stream_id \<Rightarrow> u32) \<Rightarrow> cold_gc_path_kind \<Rightarrow> u32" where
  "gc_owner locate (Pack raft_group_id) = raft_group_id"
| "gc_owner locate (ExclusiveChunk stream_id _) = locate stream_id"
| "gc_owner locate (External stream_id) = locate stream_id"

definition or_else :: "'a option \<Rightarrow> 'a option \<Rightarrow> 'a option" where
  "or_else a b = (case a of Some x \<Rightarrow> Some x | None \<Rightarrow> b)"

definition gc_path_parse :: "string \<Rightarrow> string \<Rightarrow> cold_gc_path_kind option" where
  "gc_path_parse bucket_id path =
     (if validate_bucket_id bucket_id \<noteq> None then None
      else case strip_prefix (cold_bucket_prefix bucket_id) path of
             None \<Rightarrow> None
           | Some rest \<Rightarrow>
               let segments = split_at_char (CHR ''/'') rest; name = last segments; dirs = butlast segments
               in case or_else (or_else (gc_pack dirs) (gc_exclusive_chunk bucket_id dirs)) (gc_external bucket_id dirs) of
                    None \<Rightarrow> None
                  | Some kind \<Rightarrow>
                      if gc_dir bucket_id kind @ name = path \<and> gc_accepts_file_name kind name then Some kind else None)"

definition check_cold_gc_path ::
    "u32 \<Rightarrow> cold_gc_entry \<Rightarrow> string \<Rightarrow> (bucket_stream_id \<Rightarrow> u32) \<Rightarrow> cold_gc_refusal + cold_gc_path_kind" where
  "check_cold_gc_path raft_group_id entry path locate =
     (case gc_path_parse (gc_bucket_id entry) path of
        Some kind \<Rightarrow>
          if gc_owner locate kind = raft_group_id then Inr kind
          else Inl (ForeignPath raft_group_id (gc_seq entry) (gc_bucket_id entry) path)
      | None \<Rightarrow> Inl (ForeignPath raft_group_id (gc_seq entry) (gc_bucket_id entry) path))"

definition check_cold_gc_stream ::
    "u32 \<Rightarrow> cold_gc_entry \<Rightarrow> bucket_stream_id \<Rightarrow> (bucket_stream_id \<Rightarrow> u32) \<Rightarrow> cold_gc_refusal + unit" where
  "check_cold_gc_stream raft_group_id entry stream_id locate =
     (if bsi_bucket stream_id = gc_bucket_id entry \<and> validate_bucket_id (bsi_bucket stream_id) = None \<and>
         validate_stream_id stream_id = None \<and> locate stream_id = raft_group_id
      then Inr ()
      else Inl (ForeignStream raft_group_id (gc_seq entry) (gc_bucket_id entry) stream_id))"

text \<open>The objects a bucket can have: streams of the bucket with an accepted name, and numbers of their
  width.\<close>

fun kind_of_bucket :: "string \<Rightarrow> cold_gc_path_kind \<Rightarrow> bool" where
  "kind_of_bucket b (ExclusiveChunk i generation) \<longleftrightarrow> bsi_bucket i = b \<and> validate_stream_id i = None \<and> generation \<le> u64_max"
| "kind_of_bucket b (Pack group') \<longleftrightarrow> group' \<le> u32_max"
| "kind_of_bucket b (External i) \<longleftrightarrow> bsi_bucket i = b \<and> validate_stream_id i = None"

section \<open>Numbers are read back\<close>

lemma hex_digit_value: "d < 16 \<Longrightarrow> to_digit16 (hex_digit d) = Some d"
proof -
  have "list_all (\<lambda>d. to_digit16 (hex_digit d) = Some d) [0..<16]" by code_simp
  then show "d < 16 \<Longrightarrow> ?thesis" by (simp add: list_all_iff)
qed

lemma hex_digit_0: "CHR ''0'' = hex_digit 0"
  by code_simp

lemma radix16_append:
  "radix16_digits limit acc (s @ t) =
     (case radix16_digits limit acc s of None \<Rightarrow> None | Some v \<Rightarrow> radix16_digits limit v t)"
  by (induction limit acc s rule: radix16_digits.induct) (auto split: option.splits)

lemma radix16_limit: "radix16_digits limit acc s = Some v \<Longrightarrow> acc \<le> limit \<Longrightarrow> v \<le> limit"
  by (induction limit acc s rule: radix16_digits.induct) (auto split: option.splits if_splits)

lemma radix16_zeros: "radix16_digits limit 0 (replicate k (CHR ''0'')) = Some 0"
  by (induction k) (simp_all add: hex_digit_0 hex_digit_value)

lemma radix16_lower_hex: "n \<le> limit \<Longrightarrow> radix16_digits limit 0 (lower_hex n) = Some n"
proof (induction n rule: lower_hex.induct)
  case (1 n)
  show ?case
  proof (cases "n < 16")
    case True
    then show ?thesis using 1(2) by (simp add: lower_hex.simps[of n] hex_digit_value)
  next
    case False
    have "n div 16 \<le> limit" using 1(2) div_le_dividend order_trans by blast
    with False have "radix16_digits limit 0 (lower_hex (n div 16)) = Some (n div 16)" by (rule 1(1))
    moreover have "n div 16 * 16 + n mod 16 = n" by simp
    ultimately show ?thesis using False 1(2)
      by (simp add: lower_hex.simps[of n] radix16_append hex_digit_value)
  qed
qed

lemma lower_hex_ne: "lower_hex n \<noteq> []"
  by (simp add: lower_hex.simps[of n])

lemma lower_hex_digits: "c \<in> set (lower_hex n) \<Longrightarrow> is_ascii_hexdigit c"
  by (induction n rule: lower_hex.induct)
    (subst (asm) (2) lower_hex.simps, auto simp: is_ascii_hexdigit_def hex_digit_value split: if_splits)

lemma lower_hex_length: "n < 16 ^ Suc k \<Longrightarrow> length (lower_hex n) \<le> Suc k"
proof (induction k arbitrary: n)
  case (Suc k)
  have "n div 16 < 16 ^ Suc k" using Suc.prems by (simp add: less_mult_imp_div_less mult.commute)
  then show ?case using Suc.IH[of "n div 16"] by (simp add: lower_hex.simps[of n])
qed (simp add: lower_hex.simps)

lemma format_hex_digits: "c \<in> set (format_hex w n) \<Longrightarrow> is_ascii_hexdigit c"
  using lower_hex_digits by (auto simp: format_hex_def is_ascii_hexdigit_def hex_digit_0 hex_digit_value)

lemma format_hex_length: "n < 16 ^ w \<Longrightarrow> 0 < w \<Longrightarrow> length (format_hex w n) = w"
  using lower_hex_length[of n "w - 1"] by (simp add: format_hex_def)

lemma not_hex: "\<not> is_ascii_hexdigit (CHR ''/'')" "\<not> is_ascii_hexdigit (CHR ''-'')" "\<not> is_ascii_hexdigit (CHR ''+'')"
  by code_simp+

lemma format_hex_read: "n \<le> limit \<Longrightarrow> from_str_radix16 limit (format_hex w n) = Some n"
proof -
  assume "n \<le> limit"
  then have "radix16_digits limit 0 (format_hex w n) = Some n"
    by (simp add: format_hex_def radix16_append radix16_zeros radix16_lower_hex)
  moreover have "\<not> prefix ''+'' (format_hex w n)"
    using format_hex_digits[of "CHR ''+''" w n] not_hex by (auto simp: prefix_def)
  moreover have "format_hex w n \<noteq> []" by (simp add: format_hex_def lower_hex_ne)
  ultimately show ?thesis by (simp add: from_str_radix16_def)
qed

lemma from_str_radix16_limit: "from_str_radix16 limit s = Some v \<Longrightarrow> v \<le> limit"
  by (auto simp: from_str_radix16_def Let_def dest: radix16_limit split: if_splits)

section \<open>Names of files\<close>

lemma split_at_char_chars: "c \<in> set s \<Longrightarrow> c = d \<or> (\<exists>p \<in> set (split_at_char d s). c \<in> set p)"
proof (induction s)
  case (Cons x s)
  then show ?case using split_at_char_ne[of d s] by (cases "split_at_char d s") auto
qed simp

lemma strip_suffix_Some: "strip_suffix p s = Some t \<longleftrightarrow> s = t @ p"
  by (auto simp: strip_suffix_def suffix_def)

lemma strip_prefix_Some: "strip_prefix p s = Some t \<longleftrightarrow> s = p @ t"
  by (auto simp: strip_prefix_def prefix_def)

lemma file_name_chars:
  assumes "hex_fields_with_suffix name ''.bin'' widths"
  shows "CHR ''/'' \<notin> set name"
proof -
  obtain stem where stem: "name = stem @ ''.bin''" and
    fields: "length (split_at_char (CHR ''-'') stem) = length widths"
    "list_all (\<lambda>(field, width). length field = width \<and> list_all is_ascii_hexdigit field) (zip (split_at_char (CHR ''-'') stem) widths)"
    using assms by (auto simp: hex_fields_with_suffix_def strip_suffix_Some Let_def split: option.splits)
  have "list_all is_ascii_hexdigit p" if "p \<in> set (split_at_char (CHR ''-'') stem)" for p
    using that fields by (fastforce simp: in_set_conv_nth list_all_iff set_zip)
  then show ?thesis using split_at_char_chars[of "CHR ''/''" stem "CHR ''-''"] not_hex stem by (auto simp: list_all_iff)
qed

lemma accepted_name_chars: "gc_accepts_file_name kind name \<Longrightarrow> CHR ''/'' \<notin> set name"
  by (cases kind) (auto simp: is_cold_chunk_file_name_def is_external_payload_file_name_def dest: file_name_chars)

lemma accepted_stream_chars: "validate_stream_id i = None \<Longrightarrow> CHR ''/'' \<notin> set (bsi_stream i)"
  by (auto simp: validate_stream_id_def validate_path_segment_def Let_def split: option.splits if_splits)

lemma format_hex_no_slash: "CHR ''/'' \<notin> set (format_hex w n)"
  using format_hex_digits not_hex by blast

lemma format_hex_no_dash: "CHR ''-'' \<notin> set (format_hex w n)"
  using format_hex_digits not_hex by blast

lemmas split_segments = split_at_char_append split_at_char_whole format_hex_no_slash format_hex_no_dash

section \<open>The guard accepts the keys and nothing else\<close>

lemma gc_stream_id_Some: "gc_stream_id b s = Some i \<longleftrightarrow> i = BucketStreamId b s \<and> validate_stream_id i = None"
  by (auto simp: gc_stream_id_def Let_def)

lemma gc_kinds_of_bucket:
  "gc_pack dirs = Some kind \<Longrightarrow> kind_of_bucket b kind"
  "gc_exclusive_chunk b dirs = Some kind \<Longrightarrow> kind_of_bucket b kind"
  "gc_external b dirs = Some kind \<Longrightarrow> kind_of_bucket b kind"
  by (auto simp: gc_pack_def gc_exclusive_chunk_def gc_external_def gc_stream_id_Some
      dest!: from_str_radix16_limit split: list.splits if_splits option.splits)

lemma gc_path_parse_sound:
  assumes "gc_path_parse b path = Some kind"
  shows "validate_bucket_id b = None \<and> kind_of_bucket b kind \<and>
    (\<exists>name. path = gc_dir b kind @ name \<and> gc_accepts_file_name kind name)"
  using assms gc_kinds_of_bucket
  by (fastforce simp: gc_path_parse_def or_else_def Let_def split: option.splits if_splits)

text \<open>The directories of a key, and that no earlier shape of the parser takes them.\<close>

fun gc_dirs :: "cold_gc_path_kind \<Rightarrow> string list" where
  "gc_dirs (ExclusiveChunk i generation) = [bsi_stream i, ''chunks'', format_hex 16 generation]"
| "gc_dirs (Pack group') = [''_packs'', format_hex 8 group']"
| "gc_dirs (External i) = [bsi_stream i, ''external'']"

lemma external_not_group: "from_str_radix16 u32_max ''external'' = None"
  by (simp add: from_str_radix16_def to_digit16_def less_eq_char_def u32_max_def)

lemma gc_stream_id_self: "validate_stream_id i = None \<Longrightarrow> gc_stream_id (bsi_bucket i) (bsi_stream i) = Some i"
  by (simp add: gc_stream_id_Some)

lemma gc_dirs_shape:
  assumes "kind_of_bucket b kind"
  shows "or_else (or_else (gc_pack (gc_dirs kind)) (gc_exclusive_chunk b (gc_dirs kind))) (gc_external b (gc_dirs kind)) = Some kind"
proof (cases kind)
  case (External i)
  have "gc_pack (gc_dirs kind) = None" using External by (simp add: gc_pack_def external_not_group)
  then show ?thesis using assms External gc_stream_id_self[of i]
    by (simp add: or_else_def gc_exclusive_chunk_def gc_external_def)
qed (use assms gc_stream_id_self in \<open>auto simp: or_else_def gc_pack_def gc_exclusive_chunk_def format_hex_read\<close>)

lemma gc_dir_segments:
  assumes "kind_of_bucket b kind" "CHR ''/'' \<notin> set name"
  obtains rest where "gc_dir b kind @ name = cold_bucket_prefix b @ rest" "split_at_char (CHR ''/'') rest = gc_dirs kind @ [name]"
proof (cases kind)
  case (ExclusiveChunk i generation)
  let ?rest = "bsi_stream i @ CHR ''/'' # ''chunks'' @ CHR ''/'' # format_hex 16 generation @ CHR ''/'' # name"
  have "split_at_char (CHR ''/'') ?rest = gc_dirs kind @ [name]"
    using assms ExclusiveChunk accepted_stream_chars[of i] by (simp add: split_segments)
  then show ?thesis using that[of ?rest] assms ExclusiveChunk
    by (simp add: cold_chunk_dir_def cold_chunk_prefix_def display_stream_id_def cold_bucket_prefix_def)
next
  case (Pack group')
  let ?rest = "''_packs'' @ CHR ''/'' # format_hex 8 group' @ CHR ''/'' # name"
  have "split_at_char (CHR ''/'') ?rest = gc_dirs kind @ [name]" using assms Pack by (simp add: split_segments)
  then show ?thesis using that[of ?rest] assms Pack by (simp add: cold_pack_dir_def cold_bucket_prefix_def)
next
  case (External i)
  let ?rest = "bsi_stream i @ CHR ''/'' # ''external'' @ CHR ''/'' # name"
  have "split_at_char (CHR ''/'') ?rest = gc_dirs kind @ [name]"
    using assms External accepted_stream_chars[of i] by (simp add: split_segments)
  then show ?thesis using that[of ?rest] assms External
    by (simp add: cold_external_dir_def display_stream_id_def cold_bucket_prefix_def)
qed

lemma gc_path_parse_complete:
  assumes "validate_bucket_id b = None" "kind_of_bucket b kind" "gc_accepts_file_name kind name"
  shows "gc_path_parse b (gc_dir b kind @ name) = Some kind"
proof -
  obtain rest where rest: "gc_dir b kind @ name = cold_bucket_prefix b @ rest"
    "split_at_char (CHR ''/'') rest = gc_dirs kind @ [name]"
    using gc_dir_segments[OF assms(2) accepted_name_chars[OF assms(3)]] .
  have "strip_prefix (cold_bucket_prefix b) (gc_dir b kind @ name) = Some rest" using rest(1) by (simp add: strip_prefix_Some)
  then show ?thesis using assms rest(2) gc_dirs_shape[OF assms(2)] by (simp add: gc_path_parse_def Let_def)
qed

lemma gc_path_parse_iff:
  "gc_path_parse b path = Some kind \<longleftrightarrow> validate_bucket_id b = None \<and> kind_of_bucket b kind \<and>
     (\<exists>name. path = gc_dir b kind @ name \<and> gc_accepts_file_name kind name)"
  using gc_path_parse_sound gc_path_parse_complete by blast

section \<open>Keys the store writes\<close>

lemma strip_suffix_append: "strip_suffix p (s @ p) = Some s"
  by (simp add: strip_suffix_Some)

lemma payload_name_accepted:
  assumes "nanos \<le> u128_max" "nonce \<le> u64_max"
  shows "is_external_payload_file_name (format_hex 32 nanos @ ''-'' @ format_hex 16 nonce @ ''.bin'')"
proof -
  have "length (format_hex 32 nanos) = 32" "length (format_hex 16 nonce) = 16"
    using assms by (simp_all add: format_hex_length u128_max_def u64_max_def)
  then show ?thesis
    using strip_suffix_append[of "''.bin''" "format_hex 32 nanos @ ''-'' @ format_hex 16 nonce"]
    by (simp add: is_external_payload_file_name_def hex_fields_with_suffix_def split_segments list_all_iff format_hex_digits)
qed

lemma chunk_name_range:
  assumes "nanos \<le> u128_max" "nonce \<le> u64_max" "start \<le> u64_max" "end' \<le> u64_max"
  shows "is_cold_chunk_file_name
        (format_hex 16 start @ ''-'' @ format_hex 16 end' @ ''-'' @ format_hex 32 nanos @ ''-'' @ format_hex 16 nonce @ ''.bin'') \<and>
      cold_chunk_file_range
        (format_hex 16 start @ ''-'' @ format_hex 16 end' @ ''-'' @ format_hex 32 nanos @ ''-'' @ format_hex 16 nonce @ ''.bin'') =
      Some (start, end')"
proof -
  have "length (format_hex 32 nanos) = 32" "length (format_hex 16 n) = 16" if "n \<le> u64_max" for n
    using assms that by (simp_all add: format_hex_length u128_max_def u64_max_def)
  then have "is_cold_chunk_file_name
      (format_hex 16 start @ ''-'' @ format_hex 16 end' @ ''-'' @ format_hex 32 nanos @ ''-'' @ format_hex 16 nonce @ ''.bin'')"
    using assms strip_suffix_append[of "''.bin''"
        "format_hex 16 start @ ''-'' @ format_hex 16 end' @ ''-'' @ format_hex 32 nanos @ ''-'' @ format_hex 16 nonce"]
    by (simp add: is_cold_chunk_file_name_def hex_fields_with_suffix_def split_segments list_all_iff format_hex_digits)
  then show ?thesis using assms by (simp add: cold_chunk_file_range_def split_segments format_hex_read)
qed

text \<open>Every key a store writes for an accepted bucket and stream is the key of its own object.\<close>

lemma new_keys_parsed:
  assumes "nanos \<le> u128_max" "nonce \<le> u64_max" "validate_bucket_id b = None"
  shows "group' \<le> u32_max \<Longrightarrow> gc_path_parse b (new_cold_pack_path nanos nonce b group') = Some (Pack group')"
    and "bsi_bucket i = b \<Longrightarrow> validate_stream_id i = None \<Longrightarrow>
      gc_path_parse b (new_external_payload_path nanos nonce i) = Some (External i)"
    and "bsi_bucket i = b \<Longrightarrow> validate_stream_id i = None \<Longrightarrow> generation \<le> u64_max \<Longrightarrow> start \<le> u64_max \<Longrightarrow> end' \<le> u64_max \<Longrightarrow>
      gc_path_parse b (new_cold_chunk_path_in_generation nanos nonce i generation start end') = Some (ExclusiveChunk i generation)"
  using assms gc_path_parse_complete[of b "Pack group'"] gc_path_parse_complete[of b "External i"]
    gc_path_parse_complete[of b "ExclusiveChunk i generation"] payload_name_accepted chunk_name_range
  by (simp_all add: new_cold_pack_path_def new_external_payload_path_def new_cold_chunk_path_in_generation_def
      cold_external_dir_def)

section \<open>Properties\<close>

text \<open>C33.  The cold GC guard lets a group delete its own objects of the entry's bucket and nothing else.
  A path of an entry is accepted as an object exactly when the entry's bucket has a name that create
  accepts, the object is a pack, or a chunk or external payload of a stream of that bucket with a name
  that create accepts, the executing group owns it, and the path is the directory the key functions
  build for it followed by a file name of its form.  Every key of such an object is accepted, and no
  path stands for two objects.\<close>

theorem cold_gc_deletes_own_keys:
  "check_cold_gc_path raft_group_id entry path locate = Inr kind \<longleftrightarrow>
     validate_bucket_id (gc_bucket_id entry) = None \<and> kind_of_bucket (gc_bucket_id entry) kind \<and>
     gc_owner locate kind = raft_group_id \<and>
     (\<exists>name. path = gc_dir (gc_bucket_id entry) kind @ name \<and> gc_accepts_file_name kind name)"
proof -
  have "check_cold_gc_path raft_group_id entry path locate = Inr kind \<longleftrightarrow>
      gc_path_parse (gc_bucket_id entry) path = Some kind \<and> gc_owner locate kind = raft_group_id"
    by (auto simp: check_cold_gc_path_def split: option.splits if_splits)
  then show ?thesis unfolding gc_path_parse_iff by blast
qed

definition gc_sample :: cold_gc_entry where
  "gc_sample = \<lparr> gc_seq = 1, gc_bucket_id = ''acme'', gc_not_before_ms = 0,
     gc_target = Paths [new_cold_pack_path 7 9 ''acme'' 3], gc_cold_generation = None, gc_defer_attempts = 0 \<rparr>"

theorem cold_gc_deletes_own_keys_witness:
  "check_cold_gc_path 3 gc_sample (cold_pack_dir ''acme'' 3 @ format_hex 32 7 @ ''-'' @ format_hex 16 9 @ ''.bin'') (\<lambda>_. 0) =
   Inr (Pack 3)"
proof -
  have "validate_bucket_id ''acme'' = None"
    by (simp add: validate_bucket_id_def bucket_id_byte_def is_ascii_lowercase_def is_ascii_digit_def less_eq_char_def)
  then have "validate_bucket_id (gc_bucket_id gc_sample) = None" "gc_bucket_id gc_sample = ''acme''"
    by (simp_all add: gc_sample_def)
  moreover have "is_external_payload_file_name (format_hex 32 7 @ ''-'' @ format_hex 16 9 @ ''.bin'')"
    by (rule payload_name_accepted) (simp_all add: u128_max_def u64_max_def)
  ultimately show ?thesis unfolding cold_gc_deletes_own_keys
    by (intro conjI exI[of _ "format_hex 32 7 @ ''-'' @ format_hex 16 9 @ ''.bin''"]) (simp_all only: gc_dir.simps
        gc_accepts_file_name.simps gc_owner.simps kind_of_bucket.simps, simp add: u32_max_def)
qed

end
