(* ===== verification/Hosting.thy ===== *)
theory Hosting
  imports Reconcile Meta_Machine
begin

text \<open>
  Placement-driven hosting (\<^verbatim>\<open>ursula-control/src/placement/hosting.rs\<close>): what a node runs and tears down,
  whether a replica counts as a voter, whom a node asks for a group's leader, and the teardown of one
  replica.  The vote of a group is a type parameter with its partial comparison; the rules of
  \<^verbatim>\<open>rules.rs\<close> are all enforced, as they are outside the tests of the source.
\<close>

section \<open>Standing and voters\<close>

datatype view_input = Unconfirmed_Input placement_view | Confirmed_Input confirmed_view

fun input_view :: "view_input \<Rightarrow> placement_view" where
  "input_view (Unconfirmed_Input view) = view"
| "input_view (Confirmed_Input confirmed) = cv_view confirmed"

datatype standing = Member_Standing | Removed_Standing

definition knows_removed :: "standing \<Rightarrow> cluster option \<Rightarrow> node_id \<Rightarrow> root_id \<Rightarrow> bool" where
  "knows_removed standing cluster' me root =
     (standing = Removed_Standing \<or>
      (case Option.bind cluster' (\<lambda>c. own_record c me root) of
         None \<Rightarrow> False
       | Some record' \<Rightarrow> \<not> has_life (nr_lifecycle record')))"

definition placed_role :: "standing \<Rightarrow> cluster \<Rightarrow> raft_group_id \<Rightarrow> node_id \<Rightarrow> root_id \<Rightarrow> replica_role option" where
  "placed_role standing c group' me root =
     (if knows_removed standing (Some c) me root \<or> own_record c me root = None then None else cl_role c group' me)"

datatype local_log = Unknown_Log | Empty_Log | Holding_Log | Retired_Log

fun is_held :: "local_log \<Rightarrow> bool" where
  "is_held Unknown_Log = True"
| "is_held Empty_Log = True"
| "is_held Holding_Log = True"
| "is_held Retired_Log = False"

datatype counts = Counts_Voter | Counts_NotVoter

datatype replica_membership = Closed_Replica | Open_Replica node_id "membership_config option"

definition counts_as_voter :: "replica_role option \<Rightarrow> replica_membership \<Rightarrow> bool \<Rightarrow> counts" where
  "counts_as_voter confirmed_role membership left =
     (let placed = (confirmed_role = Some Voter);
          member = (case membership of
              Closed_Replica \<Rightarrow> True
            | Open_Replica me effective \<Rightarrow> (case effective of None \<Rightarrow> False | Some config \<Rightarrow> is_voter config me))
      in if (placed \<or> member) \<and> \<not> left then Counts_Voter else Counts_NotVoter)"

section \<open>The left mark\<close>

record 'v left_mark =
  lm_left :: "'v option"
  lm_appends :: u64
  lm_highest :: "('v \<times> u64) option"

definition default_mark :: "'v left_mark" where
  "default_mark = \<lparr> lm_left = None, lm_appends = 0, lm_highest = None \<rparr>"

definition at_least :: "('v \<Rightarrow> 'v \<Rightarrow> ordering option) \<Rightarrow> 'v \<Rightarrow> 'v \<Rightarrow> bool" where
  "at_least partial_cmp vote floor' = (partial_cmp vote floor' \<in> {Some Greater_Ord, Some Equal_Ord})"

definition is_left :: "'v left_mark \<Rightarrow> bool" where
  "is_left mark = (lm_left mark \<noteq> None)"

definition ask :: "'v left_mark \<Rightarrow> u64" where
  "ask mark = lm_appends mark"

definition appended :: "('v \<Rightarrow> 'v \<Rightarrow> ordering option) \<Rightarrow> 'v \<Rightarrow> 'v left_mark \<Rightarrow> 'v left_mark" where
  "appended partial_cmp vote mark =
     (let appends = sat_add (lm_appends mark) 1;
          left = (case lm_left mark of
              Some left \<Rightarrow> if at_least partial_cmp vote left then None else Some left
            | None \<Rightarrow> None);
          raised = (case lm_highest mark of
              Some (highest, _) \<Rightarrow> partial_cmp highest vote \<noteq> Some Greater_Ord
            | None \<Rightarrow> True)
      in \<lparr> lm_left = left, lm_appends = appends, lm_highest = (if raised then Some (vote, appends) else lm_highest mark) \<rparr>)"

definition followed :: "('v \<Rightarrow> 'v \<Rightarrow> ordering option) \<Rightarrow> u64 \<Rightarrow> 'v \<Rightarrow> 'v left_mark \<Rightarrow> bool" where
  "followed partial_cmp asked vote mark =
     (case lm_highest mark of None \<Rightarrow> False | Some (highest, at) \<Rightarrow> at > asked \<and> at_least partial_cmp highest vote)"

definition answered :: "('v \<Rightarrow> 'v \<Rightarrow> ordering option) \<Rightarrow> u64 \<Rightarrow> membership_answer \<Rightarrow> 'v \<Rightarrow> 'v left_mark \<Rightarrow> 'v left_mark" where
  "answered partial_cmp asked answer vote mark =
     (if answer = Voter_Answer then mark
      else if followed partial_cmp asked vote mark then mark
      else if (case lm_left mark of None \<Rightarrow> True | Some left \<Rightarrow> at_least partial_cmp vote left)
      then mark\<lparr> lm_left := Some vote \<rparr>
      else mark)"

section \<open>Teardowns\<close>

datatype teardown_step = Fence | Unregister | Stop | AwaitIdle | AskAgain | Retire | ForgetMetrics

datatype teardown = Asking | Running teardown_step

datatype teardown_event = Answered "membership_answer option" | StepDone | Cancel

datatype teardown_end = Retired_End | Readmitted | Cancelled

datatype teardown_outcome = Continue teardown | Ended teardown_end

datatype teardown_stage = Ask_Stage | Fence_Stage | Unknown_Stage

definition teardown_start :: teardown where
  "teardown_start = Asking"

fun teardown_stage_of :: "teardown \<Rightarrow> teardown_stage" where
  "teardown_stage_of Asking = Ask_Stage"
| "teardown_stage_of (Running _) = Fence_Stage"

fun teardown_advance :: "teardown \<Rightarrow> teardown_event \<Rightarrow> teardown_outcome" where
  "teardown_advance Asking Cancel = Ended Cancelled"
| "teardown_advance Asking (Answered answer) =
     (if answer = Some NotMember_Answer then Continue (Running Fence) else Continue Asking)"
| "teardown_advance (Running AskAgain) (Answered answer) =
     (if answer = Some NotMember_Answer then Continue (Running Retire) else Ended Readmitted)"
| "teardown_advance (Running Fence) StepDone = Continue (Running Unregister)"
| "teardown_advance (Running Unregister) StepDone = Continue (Running Stop)"
| "teardown_advance (Running Stop) StepDone = Continue (Running AwaitIdle)"
| "teardown_advance (Running AwaitIdle) StepDone = Continue (Running AskAgain)"
| "teardown_advance (Running Retire) StepDone = Continue (Running ForgetMetrics)"
| "teardown_advance (Running ForgetMetrics) StepDone = Ended Retired_End"
| "teardown_advance t _ = Continue t"

section \<open>The hosting plan\<close>

record local_replica =
  lr_log :: local_log
  lr_counts :: counts
  lr_teardown :: "teardown option"

definition admissible :: "local_replica \<Rightarrow> bool" where
  "admissible replica = (is_held (lr_log replica) \<and> \<not> (case lr_teardown replica of Some (Running _) \<Rightarrow> True | _ \<Rightarrow> False))"

record hosting_input =
  hi_me :: node_id
  hi_root :: root_id
  hi_standing :: standing
  hi_view :: view_input
  hi_local :: "(raft_group_id, local_replica) btreemap"

datatype admission = Open_Admission | Create_Admission

datatype hosting_step =
    ConfirmView_Step
  | TearDown raft_group_id
  | CancelTeardown raft_group_id
  | ReportTornDown_Step raft_group_id meta_log_id

record hosting_plan =
  hp_admitted :: "(raft_group_id, admission) btreemap"
  hp_steps :: "hosting_step list"
  hp_unplaced :: "raft_group_id set"

definition default_plan :: hosting_plan where
  "default_plan = \<lparr> hp_admitted = [], hp_steps = [], hp_unplaced = {} \<rparr>"

definition admit :: "raft_group_id \<Rightarrow> admission \<Rightarrow> hosting_plan \<Rightarrow> hosting_plan" where
  "admit group' admission plan = plan\<lparr> hp_admitted := AList.update group' admission (hp_admitted plan) \<rparr>"

definition push_step :: "hosting_step \<Rightarrow> hosting_plan \<Rightarrow> hosting_plan" where
  "push_step step plan = plan\<lparr> hp_steps := hp_steps plan @ [step] \<rparr>"

definition unplace :: "raft_group_id \<Rightarrow> hosting_plan \<Rightarrow> hosting_plan" where
  "unplace group' plan = plan\<lparr> hp_unplaced := insert group' (hp_unplaced plan) \<rparr>"

definition plan_removed_one :: "raft_group_id \<times> local_replica \<Rightarrow> hosting_plan \<Rightarrow> hosting_plan" where
  "plan_removed_one = (\<lambda>(group', replica) plan.
     let plan = (if admissible replica \<and> lr_counts replica = Counts_Voter then unplace group' (admit group' Open_Admission plan) else plan)
     in if lr_teardown replica = Some Asking then push_step (CancelTeardown group') plan else plan)"

definition plan_removed :: "(raft_group_id, local_replica) btreemap \<Rightarrow> hosting_plan" where
  "plan_removed local = fold plan_removed_one (btree_iter local) default_plan"

definition plan_held_one :: "placement_view \<Rightarrow> node_id \<Rightarrow> root_id \<Rightarrow> raft_group_id \<times> local_replica \<Rightarrow> hosting_plan \<Rightarrow> hosting_plan" where
  "plan_held_one view me root = (\<lambda>(group', replica) plan.
     let plan = (if admissible replica then admit group' Open_Admission plan else plan)
     in case view_cluster view of
          Some c \<Rightarrow>
            if is_held (lr_log replica) \<and> placed_role Member_Standing c group' me root = None then unplace group' plan else plan
        | None \<Rightarrow> plan)"

definition plan_held :: "placement_view \<Rightarrow> node_id \<Rightarrow> root_id \<Rightarrow> (raft_group_id, local_replica) btreemap \<Rightarrow> hosting_plan" where
  "plan_held view me root local = fold (plan_held_one view me root) (btree_iter local) default_plan"

definition plan_group :: "cluster \<Rightarrow> node_id \<Rightarrow> raft_group_id \<Rightarrow> local_replica option \<Rightarrow> hosting_plan \<Rightarrow> hosting_plan" where
  "plan_group c me group' replica plan =
     (let held = (case replica of None \<Rightarrow> False | Some r \<Rightarrow> is_held (lr_log r));
          teardown = Option.bind replica lr_teardown;
          plan = (if (case replica of None \<Rightarrow> False | Some r \<Rightarrow> admissible r) then admit group' Open_Admission plan else plan)
      in case cl_role c group' me of
           None \<Rightarrow>
             let plan = (if held then unplace group' plan else plan) in
             (case (map_option lr_log replica, teardown) of
                (Some Empty_Log, None) \<Rightarrow> push_step (TearDown group') plan
              | (Some Holding_Log, None) \<Rightarrow> push_step (TearDown group') plan
              | (Some Unknown_Log, Some Asking) \<Rightarrow> push_step (CancelTeardown group') plan
              | (None, None) \<Rightarrow>
                  (case cl_retirement c group' me of
                     Some record' \<Rightarrow> push_step (ReportTornDown_Step group' (rt_created_at record')) plan
                   | None \<Rightarrow> plan)
              | (Some Retired_Log, None) \<Rightarrow>
                  (case cl_retirement c group' me of
                     Some record' \<Rightarrow> push_step (ReportTornDown_Step group' (rt_created_at record')) plan
                   | None \<Rightarrow> plan)
              | _ \<Rightarrow> plan)
         | Some role \<Rightarrow>
             let plan = (if teardown = Some Asking then push_step (CancelTeardown group') plan else plan) in
             if role \<in> {Voter, Incoming} \<and> \<not> held \<and> teardown = None then admit group' Create_Admission plan else plan)"

definition hosted_groups :: "cluster \<Rightarrow> node_id \<Rightarrow> (raft_group_id, local_replica) btreemap \<Rightarrow> raft_group_id set" where
  "hosted_groups c me local =
     set (map fst local) \<union>
     set (map fst (filter (\<lambda>(_, placement). placement_role placement me \<noteq> None) (cl_groups c))) \<union>
     set (map fst (filter (\<lambda>(_, records). map_of records me \<noteq> None) (cl_retirements c)))"

definition plan_member :: "node_id \<Rightarrow> root_id \<Rightarrow> placement_view \<Rightarrow> (raft_group_id, local_replica) btreemap \<Rightarrow> hosting_plan" where
  "plan_member me root view local =
     (case view_cluster view of
        None \<Rightarrow> plan_held view me root local
      | Some c \<Rightarrow>
          if own_record c me root = None then plan_held view me root local
          else fold (\<lambda>group'. plan_group c me group' (map_of local group')) (sorted_list_of_set (hosted_groups c me local)) default_plan)"

definition plan_hosting :: "hosting_input \<Rightarrow> hosting_plan" where
  "plan_hosting input =
     (let me = hi_me input; root = hi_root input; local = hi_local input in
      if knows_removed (hi_standing input) (view_cluster (input_view (hi_view input))) me root then plan_removed local
      else case hi_view input of
          Confirmed_Input confirmed \<Rightarrow> plan_member me root (cv_view confirmed) local
        | Unconfirmed_Input view \<Rightarrow>
            let plan = plan_held view me root local;
                confirmed = plan_member me root view local
            in if btree_iter (hp_admitted confirmed) \<noteq> btree_iter (hp_admitted plan) \<or> hp_steps confirmed \<noteq> hp_steps plan
               then plan\<lparr> hp_steps := ConfirmView_Step # hp_steps plan \<rparr>
               else plan)"

section \<open>Seeds and leader candidates\<close>

datatype seed_role_of = Initializer_Seed | Voter_Seed

definition shown_seed_role :: "placement_view \<Rightarrow> node_id \<Rightarrow> raft_group_id \<Rightarrow> seed_role_of option" where
  "shown_seed_role view me group' =
     (case Option.bind (view_cluster view) (\<lambda>c. cl_group c group') of
        None \<Rightarrow> None
      | Some (Seeded _ voters initializer') \<Rightarrow>
          if initializer' = me then Some Initializer_Seed
          else if ns_contains voters me then Some Voter_Seed
          else None
      | Some (Live _ _ _) \<Rightarrow> None)"

definition seed_role :: "confirmed_view \<Rightarrow> node_id \<Rightarrow> raft_group_id \<Rightarrow> seed_role_of option" where
  "seed_role view me group' = shown_seed_role (cv_view view) me group'"

type_synonym candidate_tiers = "node_id set list"

definition candidates_push :: "node_id \<Rightarrow> node_id set \<Rightarrow> candidate_tiers \<Rightarrow> candidate_tiers" where
  "candidates_push me nodes tiers =
     (let tier = Set.filter (\<lambda>node. node \<noteq> me \<and> \<not> list_ex (\<lambda>t. node \<in> t) tiers) nodes
      in if tier = {} then tiers else tiers @ [tier])"

fun not_hosted_hint :: "usize \<Rightarrow> (node_id \<Rightarrow> bool) \<Rightarrow> candidate_tiers \<Rightarrow> node_id option" where
  "not_hosted_hint turn reachable [] = None"
| "not_hosted_hint turn reachable (tier # tiers) =
     (let nodes = filter reachable (sorted_list_of_set tier) in
      if nodes = [] then not_hosted_hint turn reachable tiers else Some (nodes ! (turn mod length nodes)))"

definition candidates_iter :: "candidate_tiers \<Rightarrow> node_id list" where
  "candidates_iter tiers = concat (map sorted_list_of_set tiers)"

datatype candidates_of = Group_Candidates raft_group_id | Meta_Candidates voter_set

definition leader_candidates ::
  "node_id \<Rightarrow> candidates_of \<Rightarrow> placement_view \<Rightarrow> membership_config option \<Rightarrow> node_id set \<Rightarrow> candidate_tiers" where
  "leader_candidates me of' view membership peers =
     (let first = (case of' of
          Group_Candidates group' \<Rightarrow>
            (case Option.bind (view_cluster view) (\<lambda>c. cl_group c group') of
               None \<Rightarrow> []
             | Some placement \<Rightarrow>
                 (case placement_moving placement of
                    Some moving \<Rightarrow>
                      candidates_push me (ns_to_set (mv_to moving))
                        (candidates_push me (ns_to_set (mv_from moving))
                          (candidates_push me (Set.filter (ns_contains (mv_to moving)) (ns_to_set (mv_from moving))) []))
                  | None \<Rightarrow> candidates_push me (ns_to_set (current_voters placement)) []))
        | Meta_Candidates claimed \<Rightarrow>
            (case (membership, view_cluster view) of
               (Some config, _) \<Rightarrow> candidates_push me (config_voters config) []
             | (None, Some c) \<Rightarrow> candidates_push me (ns_to_set (cp_meta_voters (cl_params c))) []
             | (None, None) \<Rightarrow> candidates_push me (ns_to_set claimed) []));
          others = (case membership of
              Some config \<Rightarrow> candidates_push me (config_members config) first
            | None \<Rightarrow> first)
      in candidates_push me peers others)"

section \<open>What a plan contains\<close>

text \<open>Every step of the plan satisfies \<open>S\<close> and every admission \<open>A\<close>.\<close>

definition plan_within :: "(hosting_step \<Rightarrow> bool) \<Rightarrow> (raft_group_id \<Rightarrow> admission \<Rightarrow> bool) \<Rightarrow> hosting_plan \<Rightarrow> bool" where
  "plan_within S A plan \<longleftrightarrow>
     (\<forall>step \<in> set (hp_steps plan). S step) \<and> (\<forall>g a. map_of (hp_admitted plan) g = Some a \<longrightarrow> A g a)"

lemma plan_within_default [simp]: "plan_within S A default_plan"
  by (simp add: plan_within_def default_plan_def)

lemma plan_within_admit: "plan_within S A plan \<Longrightarrow> A g a \<Longrightarrow> plan_within S A (admit g a plan)"
  by (auto simp: plan_within_def admit_def update_conv' split: if_splits)

lemma plan_within_push: "plan_within S A plan \<Longrightarrow> S step \<Longrightarrow> plan_within S A (push_step step plan)"
  by (auto simp: plan_within_def push_step_def)

lemma plan_within_unplace [simp]: "plan_within S A (unplace g plan) = plan_within S A plan"
  by (simp add: plan_within_def unplace_def)

lemma plan_within_fold:
  "plan_within S A plan \<Longrightarrow> (\<And>x p. x \<in> set xs \<Longrightarrow> plan_within S A p \<Longrightarrow> plan_within S A (f x p)) \<Longrightarrow> plan_within S A (fold f xs plan)"
  by (induction xs arbitrary: plan) auto

lemmas plan_within_intros = plan_within_admit plan_within_push

text \<open>A replica the node may open.\<close>

definition may_open :: "(raft_group_id, local_replica) btreemap \<Rightarrow> raft_group_id \<Rightarrow> bool" where
  "may_open local g \<longleftrightarrow> (\<exists>r. map_of local g = Some r \<and> admissible r)"

lemma plan_removed_within:
  assumes "distinct (map fst local)"
  shows "plan_within (\<lambda>step. \<exists>g r. step = CancelTeardown g \<and> map_of local g = Some r \<and> lr_teardown r = Some Asking)
    (\<lambda>g a. a = Open_Admission \<and> (\<exists>r. map_of local g = Some r \<and> admissible r \<and> lr_counts r = Counts_Voter)) (plan_removed local)"
  unfolding plan_removed_def
  by (rule plan_within_fold)
    (use assms in \<open>auto simp: plan_removed_one_def Let_def intro!: plan_within_intros exI\<close>)

lemma plan_held_within:
  assumes "distinct (map fst local)"
  shows "plan_within (\<lambda>step. False) (\<lambda>g a. a = Open_Admission \<and> may_open local g) (plan_held view me root local)"
  unfolding plan_held_def
  by (rule plan_within_fold)
    (use assms in \<open>auto simp: plan_held_one_def Let_def may_open_def intro!: plan_within_intros exI split: option.splits\<close>)

text \<open>What a confirmed bootstrapped view makes of one group.\<close>

definition member_step_ok :: "cluster \<Rightarrow> node_id \<Rightarrow> (raft_group_id, local_replica) btreemap \<Rightarrow> hosting_step \<Rightarrow> bool" where
  "member_step_ok c me local step =
     (case step of
        ConfirmView_Step \<Rightarrow> False
      | TearDown g \<Rightarrow> cl_role c g me = None \<and>
          (\<exists>r. map_of local g = Some r \<and> lr_log r \<in> {Empty_Log, Holding_Log} \<and> lr_teardown r = None)
      | CancelTeardown g \<Rightarrow> (\<exists>r. map_of local g = Some r \<and> lr_teardown r = Some Asking)
      | ReportTornDown_Step g at \<Rightarrow> cl_role c g me = None \<and> cl_retirement c g me = Some \<lparr> rt_created_at = at \<rparr> \<and>
          (\<forall>r. map_of local g = Some r \<longrightarrow> lr_log r = Retired_Log \<and> lr_teardown r = None))"

definition member_admission_ok :: "cluster \<Rightarrow> node_id \<Rightarrow> (raft_group_id, local_replica) btreemap \<Rightarrow> raft_group_id \<Rightarrow> admission \<Rightarrow> bool" where
  "member_admission_ok c me local g a =
     (case a of
        Open_Admission \<Rightarrow> may_open local g
      | Create_Admission \<Rightarrow> cl_role c g me \<in> {Some Voter, Some Incoming} \<and>
          (\<forall>r. map_of local g = Some r \<longrightarrow> lr_log r = Retired_Log \<and> lr_teardown r = None))"

lemma not_held [simp]: "\<not> is_held log \<longleftrightarrow> log = Retired_Log"
  by (cases log) simp_all

lemma plan_group_within:
  assumes "plan_within (member_step_ok c me local) (member_admission_ok c me local) plan"
  shows "plan_within (member_step_ok c me local) (member_admission_ok c me local) (plan_group c me g (map_of local g) plan)"
proof -
  have record': "rt_created_at record' = at \<Longrightarrow> record' = \<lparr> rt_created_at = at \<rparr>" for record' :: retirement and at by simp
  show ?thesis
    using assms unfolding plan_group_def Let_def
    by (auto intro!: plan_within_intros simp: member_step_ok_def member_admission_ok_def may_open_def
      split: option.splits local_log.splits teardown.splits)
qed

lemma plan_member_within:
  assumes "view_cluster view = Some c" "own_record c me root \<noteq> None"
  shows "plan_within (member_step_ok c me local) (member_admission_ok c me local) (plan_member me root view local)"
  using assms by (auto simp: plan_member_def intro!: plan_within_fold plan_group_within)

lemma plan_withinD:
  "plan_within S A plan \<Longrightarrow> step \<in> set (hp_steps plan) \<Longrightarrow> S step"
  "plan_within S A plan \<Longrightarrow> map_of (hp_admitted plan) g = Some a \<Longrightarrow> A g a"
  by (auto simp: plan_within_def)

section \<open>Leader candidates\<close>

lemma candidates_push_Union: "\<Union> (set (candidates_push me nodes tiers)) = \<Union> (set tiers) \<union> (nodes - {me} - \<Union> (set tiers))"
  by (auto simp: candidates_push_def Let_def list_ex_iff)

definition tiers_ok :: "node_id \<Rightarrow> candidate_tiers \<Rightarrow> bool" where
  "tiers_ok me tiers \<longleftrightarrow> {} \<notin> set tiers \<and> me \<notin> \<Union> (set tiers) \<and> sorted_wrt (\<lambda>a b. a \<inter> b = {}) tiers"

lemma candidates_push_ok: "tiers_ok me tiers \<Longrightarrow> tiers_ok me (candidates_push me nodes tiers)"
  by (fastforce simp: tiers_ok_def candidates_push_def Let_def sorted_wrt_append list_ex_iff)

lemma tiers_ok_Nil [simp]: "tiers_ok me []"
  by (simp add: tiers_ok_def)

text \<open>No tier is empty or names the asking node, no node is in two tiers, and every other peer and member
  is asked in the end.\<close>

lemma leader_candidates_ok: "tiers_ok me (leader_candidates me of' view membership peers)"
  by (auto simp: leader_candidates_def Let_def intro!: candidates_push_ok
    split: candidates_of.splits option.splits)

lemma leader_candidates_complete:
  "peers \<union> (case membership of None \<Rightarrow> {} | Some config \<Rightarrow> config_members config) - {me}
     \<subseteq> \<Union> (set (leader_candidates me of' view membership peers))"
  by (auto simp: leader_candidates_def Let_def candidates_push_Union split: option.splits)

section \<open>Votes that compare\<close>

text \<open>With votes in a linear order, an answer is ignored once an append at least as new arrived after the
  question, so a late answer never marks a voter left.\<close>

definition linear_cmp :: "'v :: linorder \<Rightarrow> 'v \<Rightarrow> ordering option" where
  "linear_cmp a b = Some (ord_cmp a b)"

lemma at_least_linear [simp]: "at_least linear_cmp a b \<longleftrightarrow> b \<le> a"
  by (auto simp: at_least_def linear_cmp_def)

lemma late_answer_ignored:
  assumes "lm_appends mark < u64_max" "v \<le> vote" "asked \<le> lm_appends mark"
    and "\<And>h at. lm_highest mark = Some (h, at) \<Longrightarrow> h > vote \<Longrightarrow> at > asked"
  shows "answered linear_cmp asked answer v (appended linear_cmp vote mark) = appended linear_cmp vote mark"
  using assms
  by (auto simp: answered_def followed_def appended_def Let_def linear_cmp_def sat_add_def split: option.splits)

section \<open>Properties\<close>

text \<open>C8.  Hosting is safe.  A plan admits no replica whose teardown passed its first step.  It creates a
  replica, or starts tearing one down, only when the node does not know itself removed and from a
  confirmed view that has bootstrapped and holds this run's own record: a creation needs the role of a
  voter or an incoming node and no held log, a teardown needs a known, unretired log of a group in
  which the node has no role.\<close>

theorem hosting_plan_safe:
  assumes "distinct (map fst (hi_local input))"
  shows "(\<forall>g a r s. map_of (hp_admitted (plan_hosting input)) g = Some a \<and> map_of (hi_local input) g = Some r \<longrightarrow>
      lr_teardown r \<noteq> Some (Running s)) \<and>
    (\<forall>g. map_of (hp_admitted (plan_hosting input)) g = Some Create_Admission \<or> TearDown g \<in> set (hp_steps (plan_hosting input)) \<longrightarrow>
      hi_standing input = Member_Standing \<and>
      (\<exists>confirmed c record'. hi_view input = Confirmed_Input confirmed \<and> view_cluster (cv_view confirmed) = Some c \<and>
        own_record c (hi_me input) (hi_root input) = Some record' \<and> has_life (nr_lifecycle record') \<and>
        (map_of (hp_admitted (plan_hosting input)) g = Some Create_Admission \<longrightarrow>
          cl_role c g (hi_me input) \<in> {Some Voter, Some Incoming} \<and>
          (\<forall>r. map_of (hi_local input) g = Some r \<longrightarrow> lr_log r = Retired_Log)) \<and>
        (TearDown g \<in> set (hp_steps (plan_hosting input)) \<longrightarrow>
          cl_role c g (hi_me input) = None \<and>
          (\<exists>r. map_of (hi_local input) g = Some r \<and> lr_log r \<in> {Empty_Log, Holding_Log}))))"
  (is "?running \<and> ?starts")
proof -
  let ?local = "hi_local input" and ?me = "hi_me input" and ?root = "hi_root input" and ?plan = "plan_hosting input"
  let ?removed = "knows_removed (hi_standing input) (view_cluster (input_view (hi_view input))) ?me ?root"
  let ?held = "\<lambda>p. plan_within (\<lambda>step. step = ConfirmView_Step \<or> (\<exists>g. step = CancelTeardown g))
    (\<lambda>g a. a = Open_Admission \<and> may_open ?local g) p"
  have weaken: "plan_within S A p \<Longrightarrow> (\<And>s. S s \<Longrightarrow> S' s) \<Longrightarrow> (\<And>g a. A g a \<Longrightarrow> A' g a) \<Longrightarrow> plan_within S' A' p" for S A S' A' p
    by (auto simp: plan_within_def)
  have held: "?held (plan_held view ?me ?root ?local)" for view
    by (rule weaken[OF plan_held_within[OF assms]]) auto
  consider (safe) "?held ?plan"
    | (member) confirmed c where "\<not> ?removed" "hi_view input = Confirmed_Input confirmed" "view_cluster (cv_view confirmed) = Some c"
        "own_record c ?me ?root \<noteq> None" "plan_within (member_step_ok c ?me ?local) (member_admission_ok c ?me ?local) ?plan"
  proof (cases ?removed)
    case True
    have "?held (plan_removed ?local)" by (rule weaken[OF plan_removed_within[OF assms]]) (auto simp: may_open_def)
    then show thesis using True that(1) by (simp add: plan_hosting_def)
  next
    case False
    show thesis
    proof (cases "hi_view input")
      case (Unconfirmed_Input view)
      then show thesis using held[of view] False that(1) by (auto simp: plan_hosting_def Let_def plan_within_def)
    next
      case (Confirmed_Input confirmed)
      then have plan: "?plan = plan_member ?me ?root (cv_view confirmed) ?local" using False by (simp add: plan_hosting_def)
      show thesis
      proof (cases "\<exists>c. view_cluster (cv_view confirmed) = Some c \<and> own_record c ?me ?root \<noteq> None")
        case True
        then show thesis using that(2) False Confirmed_Input plan plan_member_within by metis
      next
        case nothing: False
        then have "plan_member ?me ?root (cv_view confirmed) ?local = plan_held (cv_view confirmed) ?me ?root ?local"
          by (auto simp: plan_member_def split: option.splits)
        then show thesis using that(1) held plan by simp
      qed
    qed
  qed
  then show ?thesis
  proof cases
    case safe
    have "?running" using plan_withinD(2)[OF safe] by (fastforce simp: may_open_def admissible_def)
    moreover have ?starts using plan_withinD[OF safe] by fastforce
    ultimately show ?thesis ..
  next
    case member
    note within = plan_withinD[OF member(5)]
    have ?running using within(2) by (fastforce simp: may_open_def admissible_def member_admission_ok_def split: admission.splits)
    moreover have ?starts
    proof (intro allI impI)
      fix g assume "map_of (hp_admitted ?plan) g = Some Create_Admission \<or> TearDown g \<in> set (hp_steps ?plan)"
      have stand: "hi_standing input = Member_Standing"
        using member(1) by (cases "hi_standing input") (auto simp: knows_removed_def)
      obtain record' where own: "own_record c ?me ?root = Some record'" "has_life (nr_lifecycle record')"
        using member(1-4) by (auto simp: knows_removed_def)
      show "hi_standing input = Member_Standing \<and>
        (\<exists>confirmed c record'. hi_view input = Confirmed_Input confirmed \<and> view_cluster (cv_view confirmed) = Some c \<and>
        own_record c (hi_me input) (hi_root input) = Some record' \<and> has_life (nr_lifecycle record') \<and>
        (map_of (hp_admitted (plan_hosting input)) g = Some Create_Admission \<longrightarrow>
          cl_role c g (hi_me input) \<in> {Some Voter, Some Incoming} \<and>
          (\<forall>r. map_of (hi_local input) g = Some r \<longrightarrow> lr_log r = Retired_Log)) \<and>
        (TearDown g \<in> set (hp_steps (plan_hosting input)) \<longrightarrow>
          cl_role c g (hi_me input) = None \<and>
          (\<exists>r. map_of (hi_local input) g = Some r \<and> lr_log r \<in> {Empty_Log, Holding_Log})))"
        using stand own member(2,3) within(1)[of "TearDown g"] within(2)[of g Create_Admission]
        by (intro conjI exI[of _ confirmed] exI[of _ c] exI[of _ record']) (auto simp: member_step_ok_def member_admission_ok_def)
    qed
    ultimately show ?thesis ..
  qed
qed

text \<open>Node 1 is the stable voter of group 0, which it does not hold, and holds a log of group 1, which
  gives it no role.\<close>

definition hosting_cluster :: cluster where
  "hosting_cluster =
     \<lparr> cl_params = \<lparr> cp_group_count = 1, cp_replication_factor = 1, cp_meta_voters = ns_single 1, cp_max_concurrent_moves = 1 \<rparr>,
       cl_nodes = [(1, \<lparr> nr_lifecycle = Active, nr_since_ms = 0, nr_root = Bound 7 \<rparr>)],
       cl_groups = [(0, Live (PlacementEpoch (MetaLogId (RaftLogId 1 1 4))) (MembershipLogId (RaftLogId 1 1 1)) (Stable (ns_single 1)))],
       cl_retirements = [] \<rparr>"

definition hosting_sample :: hosting_input where
  "hosting_sample =
     \<lparr> hi_me = 1, hi_root = 7, hi_standing = Member_Standing,
       hi_view = Confirmed_Input \<lparr> cv_view = \<lparr> pv_stage = Applied_View (MetaLogId (RaftLogId 1 1 4)) (MetaLogId (RaftLogId 1 1 4)),
           pv_state = Bootstrapped hosting_cluster \<rparr>,
         cv_stamp = \<lparr> st_history = MetaLogId (RaftLogId 1 1 4), st_applied = MetaLogId (RaftLogId 1 1 4) \<rparr> \<rparr>,
       hi_local = [(1, \<lparr> lr_log = Holding_Log, lr_counts = Counts_NotVoter, lr_teardown = None \<rparr>)] \<rparr>"

lemma hosting_sample_groups: "sorted_list_of_set (hosted_groups hosting_cluster 1 (hi_local hosting_sample)) = [0, 1]"
proof -
  have "hosted_groups hosting_cluster 1 (hi_local hosting_sample) = {0, 1}"
    by (auto simp: hosted_groups_def hosting_cluster_def hosting_sample_def ns_single_def ns_to_set_def)
  then show ?thesis by simp
qed

lemma hosting_sample_plan: "TearDown 1 \<in> set (hp_steps (plan_hosting hosting_sample))"
  "map_of (hp_admitted (plan_hosting hosting_sample)) 0 = Some Create_Admission"
proof -
  have facts: "own_record hosting_cluster 1 7 = Some \<lparr> nr_lifecycle = Active, nr_since_ms = 0, nr_root = Bound 7 \<rparr>"
      "cl_role hosting_cluster 0 1 = Some Voter" "cl_role hosting_cluster 1 1 = None"
    by (simp_all add: own_record_def cl_node_def cl_role_def cl_group_def hosting_cluster_def)
  have "plan_hosting hosting_sample = fold (\<lambda>g. plan_group hosting_cluster 1 g (map_of (hi_local hosting_sample) g))
      (sorted_list_of_set (hosted_groups hosting_cluster 1 (hi_local hosting_sample))) default_plan"
    by (simp add: plan_hosting_def plan_member_def knows_removed_def view_cluster_def hosting_sample_def facts[simplified])
  then have plan: "plan_hosting hosting_sample = plan_group hosting_cluster 1 1 (map_of (hi_local hosting_sample) 1)
      (plan_group hosting_cluster 1 0 (map_of (hi_local hosting_sample) 0) default_plan)"
    by (simp only: hosting_sample_groups fold_simps)
  show "TearDown 1 \<in> set (hp_steps (plan_hosting hosting_sample))"
    "map_of (hp_admitted (plan_hosting hosting_sample)) 0 = Some Create_Admission"
    unfolding plan using facts
    by (simp_all add: plan_group_def hosting_sample_def admissible_def admit_def push_step_def unplace_def default_plan_def)
qed

theorem hosting_plan_safe_witness:
  "cl_role hosting_cluster 0 1 \<in> {Some Voter, Some Incoming} \<and> cl_role hosting_cluster 1 1 = None"
proof -
  have cluster': "hi_view hosting_sample = Confirmed_Input confirmed \<Longrightarrow> view_cluster (cv_view confirmed) = Some hosting_cluster" for confirmed
    by (auto simp: hosting_sample_def view_cluster_def)
  have me: "hi_me hosting_sample = 1" and keys: "distinct (map fst (hi_local hosting_sample))" by (simp_all add: hosting_sample_def)
  have "cl_role hosting_cluster 0 1 \<in> {Some Voter, Some Incoming}"
    using hosting_plan_safe[OF keys, THEN conjunct2, rule_format, of 0] hosting_sample_plan(2) cluster' unfolding me by fastforce
  moreover have "cl_role hosting_cluster 1 1 = None"
    using hosting_plan_safe[OF keys, THEN conjunct2, rule_format, of 1] hosting_sample_plan(1) cluster' unfolding me by fastforce
  ultimately show ?thesis ..
qed

section \<open>Teardown runs\<close>

text \<open>The teardown after a sequence of events; what follows its end is not read.\<close>

fun run_teardown :: "teardown \<Rightarrow> teardown_event list \<Rightarrow> teardown_outcome" where
  "run_teardown t [] = Continue t"
| "run_teardown t (e # es) = (case teardown_advance t e of Continue t' \<Rightarrow> run_teardown t' es | Ended x \<Rightarrow> Ended x)"

fun steps_left :: "teardown_step \<Rightarrow> nat" where
  "steps_left Fence = 4"
| "steps_left Unregister = 3"
| "steps_left Stop = 2"
| "steps_left AwaitIdle = 1"
| "steps_left _ = 0"

lemma running_retires:
  assumes "run_teardown (Running s) es = Ended Retired_End" "s \<notin> {Retire, ForgetMetrics}"
  shows "\<exists>ys zs. es = ys @ Answered (Some NotMember_Answer) # zs \<and> steps_left s \<le> count_list ys StepDone"
  using assms
proof (induction es arbitrary: s)
  case (Cons e es)
  show ?case
  proof (cases "s = AskAgain \<and> e = Answered (Some NotMember_Answer)")
    case True
    then show ?thesis by (intro exI[of _ "[]"] exI[of _ es]) simp
  next
    case False
    then obtain s' where s': "teardown_advance (Running s) e = Continue (Running s')" "s' \<notin> {Retire, ForgetMetrics}"
        "steps_left s \<le> steps_left s' + (if e = StepDone then 1 else 0)"
      using Cons.prems by (cases s; cases e) (auto split: if_splits)
    then obtain ys zs where "es = ys @ Answered (Some NotMember_Answer) # zs" "steps_left s' \<le> count_list ys StepDone"
      using Cons.IH[of s'] Cons.prems(1) by auto
    then show ?thesis using s'(3) by (intro exI[of _ "e # ys"] exI[of _ zs]) (auto split: if_splits)
  qed
qed simp

lemma running_not_cancelled: "run_teardown (Running s) es \<noteq> Ended Cancelled"
proof (induction es arbitrary: s)
  case (Cons e es)
  then show ?case by (cases s; cases e) auto
qed simp

text \<open>C9.  A log is retired only on two answers of a live leader that the node is no member: any sequence
  of events that takes a teardown from its start to its retired end has such an answer with no
  cancellation before it, and a second one after at least the four completions that fence,
  unregister, stop and idle the replica.\<close>

theorem teardown_needs_two_answers:
  assumes "run_teardown teardown_start es = Ended Retired_End"
  shows "\<exists>xs ys zs. es = xs @ Answered (Some NotMember_Answer) # ys @ Answered (Some NotMember_Answer) # zs \<and>
    Cancel \<notin> set xs \<and> 4 \<le> count_list ys StepDone"
  using assms unfolding teardown_start_def
proof (induction es)
  case (Cons e es)
  show ?case
  proof (cases "e = Answered (Some NotMember_Answer)")
    case True
    then have "run_teardown (Running Fence) es = Ended Retired_End" using Cons.prems by simp
    from running_retires[OF this] obtain ys zs where "es = ys @ Answered (Some NotMember_Answer) # zs" "4 \<le> count_list ys StepDone" by auto
    with True show ?thesis by (intro exI[of _ "[]"] exI[of _ ys] exI[of _ zs]) simp
  next
    case False
    then have "e \<noteq> Cancel" "run_teardown Asking es = Ended Retired_End" using Cons.prems by (cases e; auto)+
    then obtain xs ys zs where "es = xs @ Answered (Some NotMember_Answer) # ys @ Answered (Some NotMember_Answer) # zs"
        "Cancel \<notin> set xs" "4 \<le> count_list ys StepDone" using Cons.IH by auto
    with \<open>e \<noteq> Cancel\<close> show ?thesis by (intro exI[of _ "e # xs"] exI[of _ ys] exI[of _ zs]) simp
  qed
qed simp

theorem teardown_needs_two_answers_witness:
  "\<exists>xs ys zs. [Answered (Some NotMember_Answer), StepDone, StepDone, StepDone, StepDone, Answered (Some NotMember_Answer), StepDone, StepDone] =
     xs @ Answered (Some NotMember_Answer) # ys @ Answered (Some NotMember_Answer) # zs \<and> Cancel \<notin> set xs \<and> 4 \<le> count_list ys StepDone"
  by (rule teardown_needs_two_answers) (simp add: teardown_start_def)

end
