(* ===== verification/Control_Loop.thy ===== *)
theory Control_Loop
  imports Hosting Control_Invariant
begin

text \<open>
  The loop that ends a move: a group's leader reports its converged membership
  (\<^verbatim>\<open>ursula-raft/src/rejoin/reconcile.rs\<close> and \<^verbatim>\<open>ursula-raft/src/meta/status.rs\<close>), the meta group applies the report,
  and the nodes the move dropped tear their replicas down and report that.  The quorum barrier a leader
  passes before it sends the report, the submission to the meta leader and the clock are outside the
  model: a report that is not sent changes nothing.
\<close>

section \<open>The report\<close>






section \<open>Steps of a hosting plan\<close>










section \<open>The report of a move\<close>



section \<open>Properties\<close>







end
