(* ===== verification/Spec2Isabelle.thy ===== *)
theory Spec2Isabelle
  imports Append_Properties Log_Properties Cold_Compaction Flush_Planner Usage_Export Shard_Map Control_Properties Control_Clock Decommission Catch_Up
    Gc_Path Control_Loop
begin

text \<open>
  A verification development of Ursula, a replicated store of append-only streams
  (\<^verbatim>\<open>src/crates\<close>).

  \<^bold>\<open>The program.\<close>  Streams live in buckets and are spread over Raft groups.  Each group replicates a
  deterministic state machine (\<^verbatim>\<open>ursula-stream\<close>): clients append, close, read, snapshot and delete streams;
  appended bytes are held hot in memory and flushed to cold objects, which a queue reclaims; idempotent
  producers have their writes deduplicated; a usage ledger counts what each bucket holds.  A further Raft
  group, the meta group, replicates the control plane (\<^verbatim>\<open>ursula-control\<close>): which nodes exist and which
  nodes vote in which group.  Each node derives from that state what it runs, and each group's leader
  moves the group's voters toward their target.

  \<^bold>\<open>Shared ground.\<close>  \<^verbatim>\<open>Ursula_Prelude\<close> has the integers, collections of rules and generic lemmas;
  \<^verbatim>\<open>Btree_Map\<close> the ordered map of the standard library.  Integers are natural numbers with the saturation and the bounds
  of the source written out; the routing hash is over 64-bit words.  A \<^verbatim>\<open>BTreeMap\<close> or
  \<^verbatim>\<open>HashMap\<close> is an association list, a \<^verbatim>\<open>BTreeSet\<close> a set iterated in ascending order.  A \<^verbatim>\<open>Result\<close> is a sum with the error
  left.

  \<^bold>\<open>The stream state machine\<close> (\<^verbatim>\<open>ursula-stream/src\<close>, \<^verbatim>\<open>state_machine/\<close> beneath it).
  \<^item> \<^verbatim>\<open>Model\<close>: the data of \<^verbatim>\<open>model.rs\<close>, \<^verbatim>\<open>command.rs\<close>, \<^verbatim>\<open>response.rs\<close>, \<^verbatim>\<open>snapshot.rs\<close>, \<^verbatim>\<open>usage.rs\<close>, \<^verbatim>\<open>history.rs\<close>.
  \<^item> \<^verbatim>\<open>Validate\<close>: \<^verbatim>\<open>validate.rs\<close> and \<^verbatim>\<open>json_records.rs\<close>.  Normalising a content type is idempotent.
  \<^item> \<^verbatim>\<open>History_Token\<close>: \<^verbatim>\<open>history.rs\<close>.  Within one history incarnation tokens are unique, whatever
    the digest.
  \<^item> \<^verbatim>\<open>Hot_Buffer\<close>: \<^verbatim>\<open>hot_buffer.rs\<close>, refined to a map from offsets to bytes (locale \<^verbatim>\<open>offset_store\<close>).
  \<^item> \<^verbatim>\<open>Cold_Gc\<close>, \<^verbatim>\<open>Cold_State\<close>: \<^verbatim>\<open>cold_gc.rs\<close> (locale \<^verbatim>\<open>gc_worklist\<close>: no target is lost or dropped twice) and \<^verbatim>\<open>cold_state.rs\<close>.
  \<^item> \<^verbatim>\<open>Producer_Record\<close>, \<^verbatim>\<open>Producers\<close>: the decision table of a producer write and the records of a stream.  A
    tokened write applies at most once, a retry of the newest write gets its receipt, eviction gives the
    same records whatever the map's order and the unstable selection do, the cap holds.
  \<^item> \<^verbatim>\<open>Stream_Slot\<close>, \<^verbatim>\<open>Registry\<close>, \<^verbatim>\<open>Usage_Ledger\<close>, \<^verbatim>\<open>State_Machine\<close>: the state of one stream and of a group
    (locale \<^verbatim>\<open>slot_table\<close>).
  \<^item> \<^verbatim>\<open>Lifecycle\<close>, \<^verbatim>\<open>Append_Stream\<close>, \<^verbatim>\<open>Cold_Commands\<close>, \<^verbatim>\<open>Query\<close>, \<^verbatim>\<open>Persist\<close>, \<^verbatim>\<open>Usage_Export\<close>, \<^verbatim>\<open>Flush_Planner\<close>: the
    handlers of the files of the same names; \<^verbatim>\<open>Apply\<close> dispatches commands and log entries.
  \<^item> \<^verbatim>\<open>Machine_Frame\<close>, \<^verbatim>\<open>Kernel\<close>, \<^verbatim>\<open>Command_Steps\<close>, \<^verbatim>\<open>Slot_Steps\<close>, \<^verbatim>\<open>Machine_Invariants\<close>: what each helper
    leaves alone, every command as a sequence of a few kinds of steps (\<^verbatim>\<open>kstep\<close>), and the locale \<^verbatim>\<open>machine_invariant\<close>
    that carries an invariant proved per kind of step to every log whose imported entries satisfy a
    condition: any entry the code accepts for most invariants, sound references for those of the cold tier.
  \<^item> \<^verbatim>\<open>Append_Properties\<close>, \<^verbatim>\<open>Log_Properties\<close>: the outcome of an append on every branch, and what holds after any log:
    the invariants, the order of incarnations, the permanence of a purge, the progress of the sweep.
    \<^verbatim>\<open>Sample_Group\<close> is the group the witnesses evaluate.  \<^verbatim>\<open>Cold_Compaction\<close> shows that a refused compaction of
    shared chunks has already dropped the references it found.

  \<^bold>\<open>Routing.\<close>  \<^verbatim>\<open>Shard_Map\<close>: \<^verbatim>\<open>ursula-shard/src/lib.rs\<close>.  Every stream has a group and a core in range.

  \<^bold>\<open>The control plane\<close> (\<^verbatim>\<open>ursula-control/src/placement\<close>, with the vocabulary of
  \<^verbatim>\<open>ursula-proto/src/placement.rs\<close>).
  \<^item> \<^verbatim>\<open>Placement_Types\<close>, \<^verbatim>\<open>Control_State\<close>: log ids, nodes, node sets that are never empty, and \<^verbatim>\<open>state.rs\<close>,
    \<^verbatim>\<open>command.rs\<close>, \<^verbatim>\<open>seed.rs\<close>.
  \<^item> \<^verbatim>\<open>Control_Apply\<close>: \<^verbatim>\<open>apply.rs\<close>, planning and committing apart as in the source.
  \<^item> \<^verbatim>\<open>Control_Invariant\<close>, \<^verbatim>\<open>Meta_Machine\<close>, \<^verbatim>\<open>Meta_Log\<close>, \<^verbatim>\<open>Control_Properties\<close>: the invariant of a cluster, the meta group's
    machine (\<^verbatim>\<open>ursula-raft/src/meta/state_machine.rs\<close>) with \<^verbatim>\<open>view.rs\<close>, and what holds after any meta log (locale
    \<^verbatim>\<open>control_invariant\<close>): groups stay placed on living nodes, the placement key is a compare-and-set,
    node records follow their life cycle.
  \<^item> \<^verbatim>\<open>Control_Clock\<close>, \<^verbatim>\<open>Control_Seed\<close>, \<^verbatim>\<open>Decommission\<close>: no decision reads a clock, seeds spread evenly, and the
    kernel accepts every move of a decommission pass.
  \<^item> \<^verbatim>\<open>Reconcile\<close>, \<^verbatim>\<open>Catch_Up\<close>: \<^verbatim>\<open>reconcile.rs\<close> and \<^verbatim>\<open>reconcile/catch_up.rs\<close>.  Voter changes are safe,
    replace a group's voters a bounded number of times, through joint configs and exits back out of them
    too, and advance when the learners are ready; a caught-up learner is recent.
  \<^item> \<^verbatim>\<open>Hosting\<close>: \<^verbatim>\<open>hosting.rs\<close>.  Replicas are created and torn down only from a confirmed view, and a log is
    retired only on two answers that the node is no member.
  \<^item> \<^verbatim>\<open>Control_Loop\<close>: the reports of \<^verbatim>\<open>ursula-raft/src/rejoin/reconcile.rs\<close> over the planner, the kernel and
    hosting together: the report of a converged move is accepted and the nodes it drops settle what they owe.

  \<^bold>\<open>Object keys.\<close>  \<^verbatim>\<open>Gc_Path\<close>: the key functions and the cold GC guard of \<^verbatim>\<open>ursula-runtime/src/cold_store.rs\<close>.
  The guard accepts a group's own objects of an entry's bucket and nothing else, and every key the store
  writes is the key of its own object.

  \<^bold>\<open>Bounds.\<close>  No definition uses fuel: loops are structural recursion, folds, or functions with a termination
  proof.  Hypotheses on sizes (values within \<^verbatim>\<open>u64\<close>, sets smaller than \<^verbatim>\<open>u64::MAX\<close>) state the ranges the types of the source
  give or exclude saturation that no real input reaches.

  \<^bold>\<open>Parameters.\<close>  BLAKE3 digests, the keys of the slot map, the membership type of OpenRaft and the
  comparison of its votes are third-party code: they are arguments, with the laws used as hypotheses.
  The rules that only tests can disable (\<^verbatim>\<open>rules.rs\<close>, \<^verbatim>\<open>sim_controls.rs\<close>) are all in force.

  \<^bold>\<open>Not modelled.\<close>  The HTTP server, the gateway and the client are asynchronous code over third-party
  frameworks.  The Raft engine, its journal and its transport run on OpenRaft, files and gRPC.  The
  runtime's workers, the cold index and the object stores, but for their key functions, are I/O.  Serialisation calls serde, MessagePack
  and generated protobuf code.  The configuration, the header grammar and the text forms of placement ids
  are pure parsing that this development does not reach.  Of the modelled crates the administrative
  reports (\<^verbatim>\<open>admin.rs\<close>) and the snapshot files of the meta group are left out.
\<close>

end
